(* ===== verification/Prelude.thy ===== *)
theory Prelude
  imports Main "HOL-Library.Word"
begin

text \<open>
  What every component of the model shares: the outcome of a Go call that may panic
  (\<open>go\<close>), slices and \<open>copy\<close>, and the big-endian reading of byte slices that
  \<open>math/big\<close> gives (\<open>SetBytes\<close>, \<open>Bytes\<close>).

  A Go \<open>[]byte\<close> is a list of 8-bit words. A pointer to a byte array (\<open>*types.Address\<close>,
  \<open>*types.Uint256\<close>) is the array's byte list, and the nil pointer is the empty list: no array
  of the program has length 0, so the two cannot be confused. The capacity of a slice is its
  length, which holds of every slice the program takes a sub-slice of (they come from
  \<open>make\<close>, \<open>hex.DecodeString\<close> and the RLP decoder).
\<close>

named_theorems go_simps \<open>equations of the go outcome and of slice operations\<close>
named_theorems byte_simps \<open>lengths and values of byte strings\<close>

type_synonym byte = "8 word"
type_synonym bytes = "byte list"
type_synonym err = string

section \<open>Calls that may panic\<close>

datatype panic =
    IndexOutOfRange
  | NilDereference
  | DivisionByZero
  | Panicked string
  | Exited string

text \<open>
  \<open>Panicked\<close> is an explicit \<open>panic(..)\<close>; \<open>Exited\<close> is \<open>log.Fatalf\<close>, which ends the
  process.
\<close>

datatype 'a go = Ret 'a | Panic panic

primrec go_bind :: "'a go \<Rightarrow> ('a \<Rightarrow> 'b go) \<Rightarrow> 'b go" where
  "go_bind (Ret x) f = f x"
| "go_bind (Panic p) f = Panic p"

primrec go_map :: "('a \<Rightarrow> 'b) \<Rightarrow> 'a go \<Rightarrow> 'b go" where
  "go_map f (Ret x) = Ret (f x)"
| "go_map f (Panic p) = Panic p"

fun returns :: "'a go \<Rightarrow> bool" where
  "returns (Ret x) = True"
| "returns (Panic p) = False"

declare go_bind.simps [go_simps] go_map.simps [go_simps] returns.simps [go_simps]

lemma go_bind_eq_Ret [go_simps]:
  "go_bind m f = Ret y \<longleftrightarrow> (\<exists>x. m = Ret x \<and> f x = Ret y)"
  by (cases m) auto

lemma go_bind_eq_Panic:
  "go_bind m f = Panic p \<longleftrightarrow> m = Panic p \<or> (\<exists>x. m = Ret x \<and> f x = Panic p)"
  by (cases m) auto

lemma go_bind_assoc: "go_bind (go_bind m f) g = go_bind m (\<lambda>x. go_bind (f x) g)"
  by (cases m) auto

lemma go_map_eq_Ret [go_simps]: "go_map f m = Ret y \<longleftrightarrow> (\<exists>x. m = Ret x \<and> y = f x)"
  by (cases m) auto

lemma returns_iff: "returns m \<longleftrightarrow> (\<exists>x. m = Ret x)"
  by (cases m) auto

text \<open>Folding a step that may panic over a list, as a \<open>for range\<close> loop does.\<close>

fun go_fold :: "('a \<Rightarrow> 's \<Rightarrow> 's go) \<Rightarrow> 'a list \<Rightarrow> 's \<Rightarrow> 's go" where
  "go_fold f [] s = Ret s"
| "go_fold f (x # xs) s = go_bind (f x s) (go_fold f xs)"

lemma go_fold_append:
  "go_fold f (xs @ ys) s = go_bind (go_fold f xs s) (go_fold f ys)"
proof (induction xs arbitrary: s)
  case Nil
  then show ?case by simp
next
  case (Cons x xs)
  then show ?case by (cases "f x s") simp_all
qed

lemma go_fold_invariant:
  assumes "go_fold f xs s = Ret t" and "I s"
    and "\<And>x s t. x \<in> set xs \<Longrightarrow> I s \<Longrightarrow> f x s = Ret t \<Longrightarrow> I t"
  shows "I t"
  using assms
proof (induction xs arbitrary: s)
  case Nil
  then show ?case by simp
next
  case (Cons x xs)
  from Cons.prems(1) obtain u where "f x s = Ret u" and "go_fold f xs u = Ret t"
    by (auto simp: go_simps)
  moreover from this Cons.prems have "I u" by auto
  ultimately show ?case using Cons by (metis list.set_intros(2))
qed

section \<open>Results with an error\<close>

text \<open>A Go result \<open>(value, err)\<close> that the caller only uses when \<open>err\<close> is nil.\<close>

fun try_bind :: "'e + 'a \<Rightarrow> ('a \<Rightarrow> 'e + 'b) \<Rightarrow> 'e + 'b" where
  "try_bind (Inl e) f = Inl e"
| "try_bind (Inr x) f = f x"

lemma try_bind_eq_Inr [go_simps]: "try_bind m f = Inr y \<longleftrightarrow> (\<exists>x. m = Inr x \<and> f x = Inr y)"
  by (cases m) auto

lemma try_bind_eq_Inl:
  "try_bind m f = Inl e \<longleftrightarrow> m = Inl e \<or> (\<exists>x. m = Inr x \<and> f x = Inl e)"
  by (cases m) auto

section \<open>Slices\<close>

definition go_slice :: "'a list \<Rightarrow> nat \<Rightarrow> nat \<Rightarrow> 'a list go" where
  "go_slice xs lo hi =
     (if lo \<le> hi \<and> hi \<le> length xs then Ret (take (hi - lo) (drop lo xs))
      else Panic IndexOutOfRange)"

definition go_index :: "'a list \<Rightarrow> int \<Rightarrow> 'a go" where
  "go_index xs i =
     (if 0 \<le> i \<and> i < int (length xs) then Ret (xs ! nat i) else Panic IndexOutOfRange)"

definition deref :: "'a list \<Rightarrow> 'a list go" where
  "deref p = (if p = [] then Panic NilDereference else Ret p)"

definition go_copy :: "'a list \<Rightarrow> 'a list \<Rightarrow> 'a list" where
  "go_copy dst src = take (length dst) src @ drop (length src) dst"

lemma go_slice_Ret [go_simps]:
  "lo \<le> hi \<Longrightarrow> hi \<le> length xs \<Longrightarrow> go_slice xs lo hi = Ret (take (hi - lo) (drop lo xs))"
  by (simp add: go_slice_def)

lemma go_slice_Panic [go_simps]:
  "\<not> (lo \<le> hi \<and> hi \<le> length xs) \<Longrightarrow> go_slice xs lo hi = Panic IndexOutOfRange"
  by (auto simp: go_slice_def)

lemma length_go_copy [simp, byte_simps]: "length (go_copy dst src) = length dst"
  by (simp add: go_copy_def)

lemma go_copy_same_length [simp]: "length src = length dst \<Longrightarrow> go_copy dst src = src"
  by (simp add: go_copy_def)

lemma go_copy_longer: "length dst \<le> length src \<Longrightarrow> go_copy dst src = take (length dst) src"
  by (simp add: go_copy_def)

lemma go_copy_Nil [simp]: "go_copy dst [] = dst"
  by (simp add: go_copy_def)

definition zero_bytes :: "nat \<Rightarrow> bytes" where
  "zero_bytes n = replicate n 0"

lemma length_zero_bytes [simp, byte_simps]: "length (zero_bytes n) = n"
  by (simp add: zero_bytes_def)

section \<open>Big-endian numbers\<close>

definition be_nat :: "bytes \<Rightarrow> nat" where
  "be_nat bs = foldl (\<lambda>acc b. acc * 256 + unat b) 0 bs"

primrec be_bytes :: "nat \<Rightarrow> nat \<Rightarrow> bytes" where
  "be_bytes 0 v = []"
| "be_bytes (Suc n) v = be_bytes n (v div 256) @ [word_of_nat v]"

fun min_bytes :: "nat \<Rightarrow> bytes" where
  "min_bytes v = (if v = 0 then [] else min_bytes (v div 256) @ [word_of_nat v])"

declare min_bytes.simps [simp del]

lemma be_nat_Nil [simp]: "be_nat [] = 0"
  by (simp add: be_nat_def)

lemma be_nat_snoc [simp]: "be_nat (bs @ [b]) = be_nat bs * 256 + unat b"
  by (simp add: be_nat_def)

lemma unat_byte_less [simp]: "unat (b :: byte) < 256"
  by (rule order_less_le_trans [OF unsigned_less]) simp

lemma be_nat_append: "be_nat (xs @ ys) = be_nat xs * 256 ^ length ys + be_nat ys"
proof (induction ys rule: rev_induct)
  case Nil
  then show ?case by simp
next
  case (snoc y ys)
  have "be_nat (xs @ ys @ [y]) = be_nat ((xs @ ys) @ [y])" by simp
  also have "\<dots> = be_nat (xs @ ys) * 256 + unat y" by (rule be_nat_snoc)
  finally show ?case using snoc by (simp add: algebra_simps)
qed

lemma be_nat_single [simp]: "be_nat [b] = unat b"
  using be_nat_snoc [of "[]" b] by simp

lemma be_nat_Cons: "be_nat (b # bs) = unat b * 256 ^ length bs + be_nat bs"
  using be_nat_append [of "[b]" bs] by simp

lemma be_nat_less [byte_simps]: "be_nat bs < 256 ^ length bs"
proof (induction bs rule: rev_induct)
  case Nil
  then show ?case by simp
next
  case (snoc b bs)
  have "be_nat bs * 256 + unat b < (be_nat bs + 1) * 256"
    using unat_byte_less [of b] by simp
  also have "\<dots> \<le> 256 ^ length bs * 256"
    using snoc by (intro mult_right_mono) auto
  finally show ?case by (simp add: mult.commute)
qed

lemma length_be_bytes [simp, byte_simps]: "length (be_bytes n v) = n"
  by (induction n arbitrary: v) auto

lemma unat_word_of_nat_byte [simp]: "unat (word_of_nat v :: byte) = v mod 256"
  by (simp add: unat_of_nat)

lemma be_nat_be_bytes [simp]: "be_nat (be_bytes n v) = v mod 256 ^ n"
proof (induction n arbitrary: v)
  case 0
  then show ?case by simp
next
  case (Suc n)
  have "v mod 256 ^ Suc n = (v div 256) mod 256 ^ n * 256 + v mod 256"
    by (simp add: mod_mult2_eq mult.commute)
  with Suc show ?case by simp
qed

lemma word_of_nat_byte [simp]: "(word_of_nat (n * 256 + unat b) :: byte) = b"
  by (simp only: word_unat_eq_iff unat_word_of_nat_byte) simp

lemma be_bytes_be_nat [simp]: "be_bytes (length bs) (be_nat bs) = bs"
proof (induction bs rule: rev_induct)
  case Nil
  then show ?case by simp
next
  case (snoc b bs)
  have "(be_nat bs * 256 + unat b) div 256 = be_nat bs"
    using unat_byte_less [of b] by simp
  moreover have "(word_of_nat (be_nat bs * 256 + unat b) :: byte) = b"
    by (rule word_of_nat_byte)
  ultimately show ?case using snoc by simp
qed

lemma be_bytes_inj:
  "length xs = length ys \<Longrightarrow> be_nat xs = be_nat ys \<Longrightarrow> xs = ys"
  by (metis be_bytes_be_nat)

lemma be_nat_min_bytes [simp]: "be_nat (min_bytes v) = v"
proof (induction v rule: min_bytes.induct)
  case (1 v)
  then show ?case by (subst min_bytes.simps) auto
qed

lemma min_bytes_0 [simp]: "min_bytes 0 = []"
  by (simp add: min_bytes.simps)

lemma min_bytes_eq_Nil [simp]: "min_bytes v = [] \<longleftrightarrow> v = 0"
  by (subst min_bytes.simps) simp

lemma length_min_bytes_le: "v < 256 ^ n \<Longrightarrow> length (min_bytes v) \<le> n"
proof (induction n arbitrary: v)
  case 0
  then show ?case by simp
next
  case (Suc n)
  then have "v div 256 < 256 ^ n" by (simp add: less_mult_imp_div_less mult.commute)
  then have "length (min_bytes (v div 256)) \<le> n" by (rule Suc.IH)
  then show ?case by (subst min_bytes.simps) auto
qed

lemma hd_min_bytes: "v \<noteq> 0 \<Longrightarrow> hd (min_bytes v) \<noteq> 0"
proof (induction v rule: min_bytes.induct)
  case (1 v)
  show ?case
  proof (cases "v div 256 = 0")
    case True
    with 1 have "v < 256" and "v \<noteq> 0" by (auto simp: div_eq_0_iff)
    then have "(word_of_nat v :: byte) \<noteq> 0"
      by (metis mod_less unat_0 unat_word_of_nat_byte)
    with True 1 show ?thesis by (subst min_bytes.simps) simp
  next
    case False
    with 1 have "hd (min_bytes (v div 256)) \<noteq> 0" and "min_bytes (v div 256) \<noteq> []" by auto
    with 1 show ?thesis by (subst min_bytes.simps) simp
  qed
qed

lemma min_bytes_be_nat: "bs = [] \<or> hd bs \<noteq> 0 \<Longrightarrow> min_bytes (be_nat bs) = bs"
proof (induction bs rule: rev_induct)
  case Nil
  then show ?case by simp
next
  case (snoc b bs)
  have w: "(word_of_nat (be_nat bs * 256 + unat b) :: byte) = b"
    by (rule word_of_nat_byte)
  have d: "(be_nat bs * 256 + unat b) div 256 = be_nat bs"
    using unat_byte_less [of b] by simp
  have IH: "min_bytes (be_nat bs) = bs" using snoc by (cases bs) auto
  have "be_nat (bs @ [b]) \<noteq> 0"
  proof (cases bs)
    case Nil
    with snoc.prems show ?thesis by (simp add: unat_eq_0)
  next
    case (Cons c cs)
    with IH have "be_nat bs \<noteq> 0" by (metis list.distinct(1) min_bytes_eq_Nil)
    then show ?thesis by simp
  qed
  with w d IH show ?case by (subst min_bytes.simps) simp
qed

text \<open>
  \<open>abi.U256\<close> of go-ethereum: the 32-byte two's complement of a \<open>big.Int\<close>, that is the value
  modulo \<open>2 ^ 256\<close>.
\<close>

definition abi_U256 :: "int \<Rightarrow> bytes" where
  "abi_U256 n = be_bytes 32 (nat (n mod 2 ^ 256))"

lemma length_abi_U256 [simp, byte_simps]: "length (abi_U256 n) = 32"
  by (simp add: abi_U256_def)

lemma be_nat_zero_bytes [simp]: "be_nat (zero_bytes n) = 0"
  by (induction n) (simp_all add: zero_bytes_def be_nat_Cons)

lemma be_nat_abi_U256: "int (be_nat (abi_U256 n)) = n mod 2 ^ 256"
proof -
  have "nat (n mod 2 ^ 256) < 256 ^ 32"
    by (simp add: nat_less_iff)
  then show ?thesis by (simp add: abi_U256_def)
qed

lemma abi_U256_of_be_nat: "length bs = 32 \<Longrightarrow> abi_U256 (int (be_nat bs)) = bs"
proof -
  assume l: "length bs = 32"
  then have "be_nat bs < 256 ^ 32" using be_nat_less [of bs] by simp
  then have "int (be_nat bs) mod 2 ^ 256 = int (be_nat bs)" by simp
  then show ?thesis using l be_bytes_be_nat [of bs] by (simp add: abi_U256_def)
qed

text \<open>\<open>bytes.Compare\<close>: lexicographic, -1, 0 or 1.\<close>

fun bytes_compare :: "bytes \<Rightarrow> bytes \<Rightarrow> int" where
  "bytes_compare [] [] = 0"
| "bytes_compare [] (y # ys) = - 1"
| "bytes_compare (x # xs) [] = 1"
| "bytes_compare (x # xs) (y # ys) =
     (if x < y then - 1 else if y < x then 1 else bytes_compare xs ys)"

lemma bytes_compare_same [simp]: "bytes_compare xs xs = 0"
  by (induction xs) auto

lemma bytes_compare_swap: "bytes_compare ys xs = - bytes_compare xs ys"
  by (induction xs ys rule: bytes_compare.induct) auto

lemma bytes_compare_0: "bytes_compare xs ys = 0 \<longleftrightarrow> xs = ys"
  by (induction xs ys rule: bytes_compare.induct) auto

lemma bytes_compare_append [simp]: "bytes_compare (zs @ xs) (zs @ ys) = bytes_compare xs ys"
  by (induction zs) auto

lemma bytes_compare_less:
  "length xs = length ys \<Longrightarrow> bytes_compare xs ys < 0 \<longleftrightarrow> be_nat xs < be_nat ys"
proof (induction xs ys rule: bytes_compare.induct)
  case (4 x xs y ys)
  let ?k = "256 ^ length ys :: nat"
  have b: "be_nat xs < ?k" "be_nat ys < ?k"
    using be_nat_less [of xs] be_nat_less [of ys] 4 by simp_all
  consider "x < y" | "y < x" | "x = y" by fastforce
  then show ?case
  proof cases
    case 1
    then have "unat x + 1 \<le> unat y" by (simp add: word_less_nat_alt)
    then have "(unat x + 1) * ?k \<le> unat y * ?k" by (rule mult_right_mono) simp
    with 1 4 b show ?thesis by (simp add: be_nat_Cons)
  next
    case 2
    then have "unat y + 1 \<le> unat x" by (simp add: word_less_nat_alt)
    then have "(unat y + 1) * ?k \<le> unat x * ?k" by (rule mult_right_mono) simp
    with 2 4 b show ?thesis by (simp add: be_nat_Cons)
  next
    case 3
    with 4 show ?thesis by (simp add: be_nat_Cons)
  qed
qed auto

end
