(* ===== verification/GoText.thy ===== *)
theory GoText
  imports Prelude
begin

text \<open>
  The text functions of Go's standard library the program calls: \<open>strings.TrimPrefix\<close>,
  \<open>Trim\<close>, \<open>HasPrefix\<close> and \<open>Split\<close>, \<open>encoding/hex\<close> (as of Go 1.8), the
  \<open>%#x\<close> verb, \<open>big.Int.SetString(s, 10)\<close> and \<open>big.Int.String\<close>, and
  \<open>strconv.ParseUint/Atoi\<close>. A Go string is the list of its bytes, read as characters.
  The lemmas are the round trips that the order formats need.
\<close>

section \<open>Strings and bytes\<close>

definition byte_of_char :: "char \<Rightarrow> byte" where
  "byte_of_char c = word_of_nat (of_char c)"

definition char_of_byte :: "byte \<Rightarrow> char" where
  "char_of_byte b = char_of (unat b)"

definition bytes_of_string :: "string \<Rightarrow> bytes" where
  "bytes_of_string s = map byte_of_char s"

definition string_of_bytes :: "bytes \<Rightarrow> string" where
  "string_of_bytes bs = map char_of_byte bs"

lemma of_char_less_256: "(of_char c :: nat) < 256"
  by (metis char_of_mod_256 nat_of_char_less_256)

lemma char_of_byte_of_char [simp]: "char_of_byte (byte_of_char c) = c"
proof -
  have "(of_char c :: nat) mod 256 = of_char c"
    using of_char_less_256 [of c] by simp
  then show ?thesis by (simp add: char_of_byte_def byte_of_char_def)
qed

lemma byte_of_char_of_byte [simp]: "byte_of_char (char_of_byte b) = b"
proof -
  have "unat b mod 256 = unat b" using unat_byte_less [of b] by simp
  then show ?thesis by (simp add: char_of_byte_def byte_of_char_def)
qed

lemma string_of_bytes_of_string [simp]: "string_of_bytes (bytes_of_string s) = s"
  by (simp add: string_of_bytes_def bytes_of_string_def comp_def)

lemma bytes_of_string_of_bytes [simp]: "bytes_of_string (string_of_bytes bs) = bs"
  by (simp add: string_of_bytes_def bytes_of_string_def comp_def)

lemma length_bytes_of_string [simp]: "length (bytes_of_string s) = length s"
  by (simp add: bytes_of_string_def)

lemma length_string_of_bytes [simp]: "length (string_of_bytes s) = length s"
  by (simp add: string_of_bytes_def)

lemma bytes_of_string_inj [simp]: "bytes_of_string s = bytes_of_string t \<longleftrightarrow> s = t"
  by (metis string_of_bytes_of_string)

definition has_prefix :: "string \<Rightarrow> string \<Rightarrow> bool" where
  "has_prefix s p = (take (length p) s = p)"

definition trim_prefix :: "string \<Rightarrow> string \<Rightarrow> string" where
  "trim_prefix s p = (if has_prefix s p then drop (length p) s else s)"

definition trim_chars :: "char set \<Rightarrow> string \<Rightarrow> string" where
  "trim_chars C s = rev (dropWhile (\<lambda>c. c \<in> C) (rev (dropWhile (\<lambda>c. c \<in> C) s)))"

text \<open>\<open>strings.Split\<close> with a one-character separator.\<close>

fun split_on :: "char \<Rightarrow> string \<Rightarrow> string list" where
  "split_on c [] = [[]]"
| "split_on c (x # xs) =
     (if x = c then [] # split_on c xs
      else case split_on c xs of [] \<Rightarrow> [[x]] | w # ws \<Rightarrow> (x # w) # ws)"

lemma has_prefix_append [simp]: "has_prefix (p @ s) p"
  by (simp add: has_prefix_def)

lemma trim_prefix_append [simp]: "trim_prefix (p @ s) p = s"
  by (simp add: trim_prefix_def)

lemma split_on_not_Nil [simp]: "split_on c s \<noteq> []"
  by (induction s) (auto split: list.splits)

lemma split_on_no_sep: "c \<notin> set s \<Longrightarrow> split_on c s = [s]"
  by (induction s) auto

lemma split_on_append_sep: "c \<notin> set s \<Longrightarrow> split_on c (s @ c # t) = s # split_on c t"
  by (induction s) (auto split: list.splits)

lemma split_on_parts: "w \<in> set (split_on c s) \<Longrightarrow> c \<notin> set w"
  by (induction s arbitrary: w) (auto split: list.splits if_splits)

lemma trim_chars_quoted:
  assumes "s \<noteq> []" and "hd s \<notin> C" and "last s \<notin> C" and "q \<in> C"
  shows "trim_chars C (q # s @ [q]) = s"
proof -
  have "dropWhile (\<lambda>c. c \<in> C) (q # s @ [q]) = s @ [q]"
    using assms by (cases s) auto
  moreover have "dropWhile (\<lambda>c. c \<in> C) (rev s) = rev s"
    using assms by (cases s rule: rev_cases) auto
  ultimately show ?thesis using assms(4) by (simp add: trim_chars_def)
qed

section \<open>Hexadecimal\<close>

definition hex_digit :: "nat \<Rightarrow> char" where
  "hex_digit n = (if n < 10 then char_of (48 + n) else char_of (87 + n))"

definition from_hex_char :: "char \<Rightarrow> nat option" where
  "from_hex_char c =
     (let n = of_char c in
      if 48 \<le> n \<and> n \<le> 57 then Some (n - 48)
      else if 97 \<le> n \<and> n \<le> 102 then Some (n - 87)
      else if 65 \<le> n \<and> n \<le> 70 then Some (n - 55)
      else None)"

definition hex_encode :: "bytes \<Rightarrow> string" where
  "hex_encode bs = concat (map (\<lambda>b. [hex_digit (unat b div 16), hex_digit (unat b mod 16)]) bs)"

definition hex_err_length :: err where
  "hex_err_length = ''encoding/hex: odd length hex string''"

definition hex_err_byte :: "char \<Rightarrow> err" where
  "hex_err_byte c = ''encoding/hex: invalid byte: '' @ [c]"

fun hex_pairs :: "string \<Rightarrow> err + bytes" where
  "hex_pairs [] = Inr []"
| "hex_pairs [c] = Inl hex_err_length"
| "hex_pairs (a # b # cs) =
     (case from_hex_char a of
        None \<Rightarrow> Inl (hex_err_byte a)
      | Some x \<Rightarrow>
          (case from_hex_char b of
             None \<Rightarrow> Inl (hex_err_byte b)
           | Some y \<Rightarrow>
               (case hex_pairs cs of
                  Inl e \<Rightarrow> Inl e
                | Inr bs \<Rightarrow> Inr (word_of_nat (x * 16 + y) # bs))))"

definition hex_DecodeString :: "string \<Rightarrow> err + bytes" where
  "hex_DecodeString s = (if odd (length s) then Inl hex_err_length else hex_pairs s)"

text \<open>\<open>hex.Decode(dst, src)\<close>: the buffer afterwards, the count and the error. It panics
  when a byte is written past the end of \<open>dst\<close>, and keeps the bytes written before an error.\<close>

fun hex_decode_loop :: "bytes \<Rightarrow> bytes \<Rightarrow> string \<Rightarrow> (bytes \<times> err option) go" where
  "hex_decode_loop done rest [] = Ret (done @ rest, None)"
| "hex_decode_loop done rest [c] = Ret (done @ rest, None)"
| "hex_decode_loop done rest (a # b # cs) =
     (case from_hex_char a of
        None \<Rightarrow> Ret (done @ rest, Some (hex_err_byte a))
      | Some x \<Rightarrow>
          (case from_hex_char b of
             None \<Rightarrow> Ret (done @ rest, Some (hex_err_byte b))
           | Some y \<Rightarrow>
               (case rest of
                  [] \<Rightarrow> Panic IndexOutOfRange
                | r # rest' \<Rightarrow>
                    hex_decode_loop (done @ [word_of_nat (x * 16 + y)]) rest' cs)))"

definition hex_Decode :: "bytes \<Rightarrow> string \<Rightarrow> (bytes \<times> nat \<times> err option) go" where
  "hex_Decode dst src =
     (if odd (length src) then Ret (dst, 0, Some hex_err_length)
      else go_map (\<lambda>(buf, e). (buf, (if e = None then length src div 2 else 0), e))
             (hex_decode_loop [] dst src))"

text \<open>\<open>fmt.Sprintf("%#x", bs)\<close> on a byte slice: nothing at all for the empty slice.\<close>

definition sprintf_hex :: "bytes \<Rightarrow> string" where
  "sprintf_hex bs = (if bs = [] then [] else ''0x'' @ hex_encode bs)"

lemma of_char_small: "n < 256 \<Longrightarrow> of_char (char_of n :: char) = (n::nat)"
  by simp

lemma from_hex_hex_digit [simp]: "n < 16 \<Longrightarrow> from_hex_char (hex_digit n) = Some n"
  by (auto simp: from_hex_char_def hex_digit_def Let_def)

lemma from_hex_char_less: "from_hex_char c = Some n \<Longrightarrow> n < 16"
  by (auto simp: from_hex_char_def Let_def split: if_splits)

lemma word_of_div_mod_16: "word_of_nat (unat b div 16 * 16 + unat b mod 16) = (b :: byte)"
  by (simp only: div_mult_mod_eq word_of_nat_eq_iff) simp

lemma unat_byte_div_16 [simp]: "unat (b :: byte) div 16 < 16"
  by (simp add: less_mult_imp_div_less)

lemma hex_encode_Nil [simp]: "hex_encode [] = []"
  by (simp add: hex_encode_def)

lemma hex_encode_Cons [simp]:
  "hex_encode (b # bs) = hex_digit (unat b div 16) # hex_digit (unat b mod 16) # hex_encode bs"
  by (simp add: hex_encode_def)

lemma length_hex_encode [simp, byte_simps]: "length (hex_encode bs) = 2 * length bs"
  by (induction bs) auto

lemma hex_encode_append: "hex_encode (xs @ ys) = hex_encode xs @ hex_encode ys"
  by (simp add: hex_encode_def)

lemma hex_pairs_encode [simp]: "hex_pairs (hex_encode bs) = Inr bs"
proof (induction bs)
  case (Cons b bs)
  have "word_of_nat (unat b div 16 * 16 + unat b mod 16) = b" by (rule word_of_div_mod_16)
  with Cons show ?case by simp
qed simp

lemma hex_DecodeString_encode [simp]: "hex_DecodeString (hex_encode bs) = Inr bs"
  by (simp add: hex_DecodeString_def)

lemma hex_decode_loop_encode:
  "length rest = length bs \<Longrightarrow> hex_decode_loop pre rest (hex_encode bs) = Ret (pre @ bs, None)"
proof (induction bs arbitrary: pre rest)
  case (Cons b bs)
  then obtain r rest' where "rest = r # rest'" "length rest' = length bs" by (cases rest) auto
  moreover have "word_of_nat (unat b div 16 * 16 + unat b mod 16) = b" by (rule word_of_div_mod_16)
  ultimately show ?case using Cons.IH by simp
qed simp

lemma hex_Decode_encode: "length buf = length bs \<Longrightarrow> hex_Decode buf (hex_encode bs) = Ret (bs, length bs, None)"
  by (simp add: hex_Decode_def hex_decode_loop_encode)

lemma hex_encode_inj [simp]: "hex_encode xs = hex_encode ys \<longleftrightarrow> xs = ys"
  by (metis hex_DecodeString_encode sum.inject(2))

lemma hex_pairs_length: "hex_pairs s = Inr bs \<Longrightarrow> length s = 2 * length bs"
  by (induction s arbitrary: bs rule: hex_pairs.induct)
     (auto split: option.splits sum.splits)

lemma hex_DecodeString_length:
  "hex_DecodeString s = Inr bs \<Longrightarrow> length s = 2 * length bs"
  by (auto simp: hex_DecodeString_def hex_pairs_length split: if_splits)

lemma hex_DecodeString_0: "hex_DecodeString ''0'' = Inl hex_err_length"
  by (simp add: hex_DecodeString_def)

lemma of_char_hex_digit:
  "n < 16 \<Longrightarrow> of_char (hex_digit n) = (if n < 10 then 48 + n else 87 + n :: nat)"
  by (simp add: hex_digit_def)

section \<open>Decimal\<close>

text \<open>\<open>big.Int.SetString(s, 10)\<close>: an optional sign, then one or more decimal digits, and
  nothing after them; \<open>big.Int.String\<close>.\<close>

definition from_dec_char :: "char \<Rightarrow> nat option" where
  "from_dec_char c =
     (let n = of_char c in if 48 \<le> n \<and> n \<le> 57 then Some (n - 48) else None)"

fun dec_digits :: "nat \<Rightarrow> string \<Rightarrow> nat option" where
  "dec_digits acc [] = Some acc"
| "dec_digits acc (c # cs) =
     (case from_dec_char c of
        None \<Rightarrow> None
      | Some d \<Rightarrow> dec_digits (acc * 10 + d) cs)"

definition dec_parse_nat :: "string \<Rightarrow> nat option" where
  "dec_parse_nat s = (if s = [] then None else dec_digits 0 s)"

definition big_SetString :: "string \<Rightarrow> int option" where
  "big_SetString s =
     (case s of
        [] \<Rightarrow> None
      | c # cs \<Rightarrow>
          if c = CHR ''-'' then map_option (\<lambda>n. - int n) (dec_parse_nat cs)
          else if c = CHR ''+'' then map_option int (dec_parse_nat cs)
          else map_option int (dec_parse_nat s))"

fun dec_string :: "nat \<Rightarrow> string" where
  "dec_string n =
     (if n < 10 then [char_of (48 + n)] else dec_string (n div 10) @ [char_of (48 + n mod 10)])"

declare dec_string.simps [simp del]

definition big_String :: "int \<Rightarrow> string" where
  "big_String i = (if i < 0 then CHR ''-'' # dec_string (nat (- i)) else dec_string (nat i))"

lemma from_dec_char_digit [simp]: "n < 10 \<Longrightarrow> from_dec_char (char_of (48 + n)) = Some n"
  by (simp add: from_dec_char_def)

lemma dec_digits_append:
  "dec_digits acc (xs @ ys) = (case dec_digits acc xs of None \<Rightarrow> None | Some a \<Rightarrow> dec_digits a ys)"
  by (induction xs arbitrary: acc) (auto split: option.splits)

lemma dec_string_not_Nil [simp]: "dec_string n \<noteq> []"
  by (subst dec_string.simps) simp

lemma dec_digits_dec_string [simp]: "dec_digits 0 (dec_string n) = Some n"
proof (induction n rule: dec_string.induct)
  case (1 n)
  show ?case
  proof (cases "n < 10")
    case True
    then show ?thesis by (simp add: dec_string.simps)
  next
    case False
    with 1 have "dec_digits 0 (dec_string (n div 10)) = Some (n div 10)" by simp
    with False show ?thesis by (subst dec_string.simps) (simp add: dec_digits_append)
  qed
qed

lemma dec_parse_nat_dec_string [simp]: "dec_parse_nat (dec_string n) = Some n"
  by (simp add: dec_parse_nat_def)

lemma dec_string_inj [simp]: "dec_string m = dec_string n \<longleftrightarrow> m = n"
  by (metis dec_parse_nat_dec_string option.inject)

lemma dec_digits_chars:
  "dec_digits acc s = Some n \<Longrightarrow> c \<in> set s \<Longrightarrow> 48 \<le> (of_char c :: nat) \<and> of_char c \<le> (57 :: nat)"
  by (induction s arbitrary: acc) (auto simp: from_dec_char_def Let_def split: option.splits if_splits)

lemma dec_string_chars:
  "c \<in> set (dec_string n) \<Longrightarrow> 48 \<le> (of_char c :: nat) \<and> of_char c \<le> (57 :: nat)"
  by (rule dec_digits_chars [OF dec_digits_dec_string])

lemma dec_string_no_sign:
  "c \<in> set (dec_string n) \<Longrightarrow> c \<noteq> CHR ''-'' \<and> c \<noteq> CHR ''+'' \<and> c \<noteq> CHR 0x22"
  using dec_string_chars [of c n] by auto

lemma big_SetString_dec_string [simp]: "big_SetString (dec_string n) = Some (int n)"
proof -
  obtain c cs where c: "dec_string n = c # cs" by (cases "dec_string n") auto
  moreover have "c \<noteq> CHR ''-''" "c \<noteq> CHR ''+''"
    using dec_string_no_sign [of c n] c by auto
  ultimately show ?thesis
    using dec_parse_nat_dec_string [of n] by (simp add: big_SetString_def)
qed

lemma big_SetString_big_String [simp]: "big_SetString (big_String i) = Some i"
  by (cases "i < 0") (simp_all add: big_String_def big_SetString_def [of "_ # _"])

lemma big_String_inj [simp]: "big_String i = big_String j \<longleftrightarrow> i = j"
  by (metis big_SetString_big_String option.inject)

text \<open>\<open>strconv.ParseUint(s, 10, 64)\<close> and \<open>strconv.Atoi\<close> on a 64-bit machine: a number out
  of range is an error.\<close>

definition ParseUint64 :: "string \<Rightarrow> err + nat" where
  "ParseUint64 s =
     (case dec_parse_nat s of
        None \<Rightarrow> Inl ''invalid syntax''
      | Some n \<Rightarrow> if n < 2 ^ 64 then Inr n else Inl ''value out of range'')"

definition Atoi :: "string \<Rightarrow> err + int" where
  "Atoi s =
     (case big_SetString s of
        None \<Rightarrow> Inl ''invalid syntax''
      | Some i \<Rightarrow>
          if - (2 ^ 63) \<le> i \<and> i < 2 ^ 63 then Inr i else Inl ''value out of range'')"

lemma ParseUint64_range: "ParseUint64 s = Inr n \<Longrightarrow> n < 2 ^ 64"
  by (auto simp: ParseUint64_def split: option.splits if_splits)

lemma Atoi_range: "Atoi s = Inr i \<Longrightarrow> - (2 ^ 63) \<le> i \<and> i < 2 ^ 63"
  by (auto simp: Atoi_def split: option.splits if_splits)

lemma Atoi_big_String: "- (2 ^ 63) \<le> i \<Longrightarrow> i < 2 ^ 63 \<Longrightarrow> Atoi (big_String i) = Inr i"
  by (simp add: Atoi_def)

end
