(* ===== verification/Channels.thy ===== *)
theory Channels
  imports GoText "HOL-Library.Multiset"
begin

text \<open>
  The messaging layer (\<open>channels/\<close>): publishers, deliveries, the queue consumer channel with its
  ready, unacked and rejected lists, the channel URIs and \<open>cmdutils.ParseChannels\<close>.
  Redis is a service: the record \<open>redis\<close> holds the commands the code sends, over an abstract server
  state, and \<open>redis_lists_ok\<close> states what their documentation promises of a reachable server.
\<close>

section \<open>Redis\<close>

datatype reply = RInt int | RStr string | RNil | RErr string

record 'r redis =
  LPush :: "string \<Rightarrow> string \<Rightarrow> 'r \<Rightarrow> reply \<times> 'r"
  RPush :: "string \<Rightarrow> string \<Rightarrow> 'r \<Rightarrow> reply \<times> 'r"
  LRem :: "string \<Rightarrow> int \<Rightarrow> string \<Rightarrow> 'r \<Rightarrow> reply \<times> 'r"
  LLen :: "string \<Rightarrow> 'r \<Rightarrow> reply \<times> 'r"
  LTrim :: "string \<Rightarrow> int \<Rightarrow> int \<Rightarrow> 'r \<Rightarrow> reply \<times> 'r"
  RPopLPush :: "string \<Rightarrow> string \<Rightarrow> 'r \<Rightarrow> reply \<times> 'r"
  PublishTopic :: "string \<Rightarrow> string \<Rightarrow> 'r \<Rightarrow> reply \<times> 'r"
  KSet :: "string \<Rightarrow> string \<Rightarrow> 'r \<Rightarrow> reply \<times> 'r"
  KGet :: "string \<Rightarrow> 'r \<Rightarrow> reply \<times> 'r"

definition has_suffix :: "string \<Rightarrow> string \<Rightarrow> bool" where
  "has_suffix s p = has_prefix (rev s) (rev p)"

definition redisErrIsNil :: "reply \<Rightarrow> bool" where
  "redisErrIsNil result =
     (case result of
        RNil \<Rightarrow> True
      | RErr e \<Rightarrow> has_suffix e ''i/o timeout''
      | _ \<Rightarrow> False)"

text \<open>\<open>Err()\<close> of a reply.\<close>

definition reply_err :: "reply \<Rightarrow> err option" where
  "reply_err r = (case r of RNil \<Rightarrow> Some ''redis: nil'' | RErr e \<Rightarrow> Some e | _ \<Rightarrow> None)"

definition reply_str :: "reply \<Rightarrow> string" where
  "reply_str r = (case r of RStr s \<Rightarrow> s | _ \<Rightarrow> [])"

text \<open>\<open>Val()\<close> of an integer command: zero when it failed.\<close>

definition reply_int :: "reply \<Rightarrow> int" where
  "reply_int r = (case r of RInt i \<Rightarrow> i | _ \<Rightarrow> 0)"

section \<open>Publishers\<close>

type_synonym 'w publisher = "string \<Rightarrow> 'w \<Rightarrow> bool \<times> 'w"

definition redisQueuePublisher :: "'r redis \<Rightarrow> string \<Rightarrow> 'r publisher" where
  "redisQueuePublisher R key payload w =
     (if length payload = 0 then (False, w)
      else (case LPush R key payload w of (r, w') \<Rightarrow> (\<not> redisErrIsNil r, w')))"

definition redisTopicPublisher :: "'r redis \<Rightarrow> string \<Rightarrow> 'r publisher" where
  "redisTopicPublisher R key payload w =
     (case PublishTopic R key payload w of (r, w') \<Rightarrow> (\<not> redisErrIsNil r, w'))"

fun publish_loop :: "'w publisher list \<Rightarrow> string \<Rightarrow> bool \<Rightarrow> 'w \<Rightarrow> bool \<times> 'w" where
  "publish_loop [] payload success w = (success, w)"
| "publish_loop (p # ps) payload success w =
     (if success then (case p payload w of (ok, w') \<Rightarrow> publish_loop ps payload ok w')
      else publish_loop ps payload False w)"

definition MultiPublisher_Publish :: "'w publisher list \<Rightarrow> 'w publisher" where
  "MultiPublisher_Publish mp payload w = publish_loop mp payload True w"

lemma publish_loop_False [simp]: "publish_loop ps payload False w = (False, w)"
  by (induction ps) auto

lemma MultiPublisher_Nil [simp]: "MultiPublisher_Publish [] payload w = (True, w)"
  by (simp add: MultiPublisher_Publish_def)

lemma MultiPublisher_Cons [simp]:
  "MultiPublisher_Publish (p # ps) payload w =
     (case p payload w of (ok, w') \<Rightarrow>
        if ok then MultiPublisher_Publish ps payload w' else (False, w'))"
  by (auto simp: MultiPublisher_Publish_def split: prod.splits)

section \<open>Deliveries\<close>

record 'w delivery =
  Payload :: string
  Ack :: "'w \<Rightarrow> bool \<times> 'w"
  Reject :: "'w \<Rightarrow> bool \<times> 'w"
  Return :: "'w \<Rightarrow> bool \<times> 'w"

definition newTopicDelivery :: "string \<Rightarrow> 'w delivery" where
  "newTopicDelivery payload =
     \<lparr>Payload = payload, Ack = Pair True, Reject = Pair True, Return = Pair True\<rparr>"

text \<open>The world of a queue delivery: the server, and what was sent on \<open>ackChan\<close>. The counting
  goroutine of \<open>StartConsuming\<close> always receives, so the sends do not block.\<close>

definition queue_Ack :: "'r redis \<Rightarrow> string \<Rightarrow> string \<Rightarrow> 'r \<times> bool list \<Rightarrow> bool \<times> 'r \<times> bool list" where
  "queue_Ack R unackedKey payload w =
     (case LRem R unackedKey 1 payload (fst w) of (result, r) \<Rightarrow>
        if redisErrIsNil result then (False, r, snd w)
        else (reply_int result = 1, r, snd w @ [True]))"

definition queue_move ::
  "'r redis \<Rightarrow> string \<Rightarrow> string \<Rightarrow> string \<Rightarrow> 'r \<times> bool list \<Rightarrow> bool \<times> 'r \<times> bool list"
where
  "queue_move R key unackedKey payload w =
     (case LPush R key payload (fst w) of (result, r) \<Rightarrow>
        if redisErrIsNil result then (False, r, snd w)
        else (case LRem R unackedKey 1 payload r of (result', r') \<Rightarrow>
                (\<not> redisErrIsNil result', r', snd w)))"

definition queue_Reject ::
  "'r redis \<Rightarrow> string \<Rightarrow> string \<Rightarrow> string \<Rightarrow> 'r \<times> bool list \<Rightarrow> bool \<times> 'r \<times> bool list"
where
  "queue_Reject R rejectedKey unackedKey payload w =
     queue_move R rejectedKey unackedKey payload (fst w, snd w @ [False])"

definition queue_Return ::
  "'r redis \<Rightarrow> string \<Rightarrow> string \<Rightarrow> string \<Rightarrow> 'r \<times> bool list \<Rightarrow> bool \<times> 'r \<times> bool list"
where
  "queue_Return R sourceKey unackedKey payload w =
     (case RPush R sourceKey payload (fst w) of (result, r) \<Rightarrow>
        if redisErrIsNil result then (False, r, snd w)
        else (case LRem R unackedKey 1 payload r of (result', r') \<Rightarrow>
                (\<not> redisErrIsNil result', r', snd w)))"

definition newQueueDelivery ::
  "'r redis \<Rightarrow> string \<Rightarrow> string \<Rightarrow> string \<Rightarrow> string \<Rightarrow> ('r \<times> bool list) delivery"
where
  "newQueueDelivery R payload unackedKey rejectedKey sourceKey =
     \<lparr>Payload = payload, Ack = queue_Ack R unackedKey payload,
      Reject = queue_Reject R rejectedKey unackedKey payload,
      Return = queue_Return R sourceKey unackedKey payload\<rparr>"

section \<open>The queue consumer channel\<close>

record queue_channel =
  channelName :: string
  readyKey :: string
  unackedKey :: string
  rejectedKey :: string

definition NewQueueConsumerChannel :: "string \<Rightarrow> queue_channel" where
  "NewQueueConsumerChannel name =
     \<lparr>channelName = name, readyKey = name, unackedKey = name @ ''::unacked'',
      rejectedKey = name @ ''::rejected''\<rparr>"

text \<open>\<open>for i := 0; i < n; i++\<close>: the count returned and the server.\<close>

fun return_loop :: "'r redis \<Rightarrow> queue_channel \<Rightarrow> nat \<Rightarrow> nat \<Rightarrow> 'r \<Rightarrow> nat \<times> 'r" where
  "return_loop R q 0 i w = (i, w)"
| "return_loop R q (Suc n) i w =
     (case RPopLPush R (unackedKey q) (readyKey q) w of (r, w') \<Rightarrow>
        if redisErrIsNil r then (i, w') else return_loop R q n (Suc i) w')"

definition ReturnAllUnacked :: "'r redis \<Rightarrow> queue_channel \<Rightarrow> 'r \<Rightarrow> nat \<times> 'r" where
  "ReturnAllUnacked R q w =
     (case LLen R (unackedKey q) w of (result, w') \<Rightarrow>
        if redisErrIsNil result then (0, w')
        else return_loop R q (nat (reply_int result)) 0 w')"

definition purgeBatchSize :: nat where "purgeBatchSize = 100"

function purge_loop :: "'r redis \<Rightarrow> string \<Rightarrow> nat \<Rightarrow> 'r \<Rightarrow> 'r" where
  "purge_loop R key todo w =
     (if todo = 0 then w
      else (let batchSize = (if purgeBatchSize > todo then todo else purgeBatchSize) in
            purge_loop R key (todo - purgeBatchSize)
              (snd (LTrim R key 0 (- 1 - int batchSize) w))))"
  by pat_completeness auto
termination
  by (relation "measure (\<lambda>(R, key, todo, w). todo)") (auto simp: purgeBatchSize_def)

declare purge_loop.simps [simp del]

definition deleteRedisList :: "'r redis \<Rightarrow> string \<Rightarrow> 'r \<Rightarrow> int \<times> 'r" where
  "deleteRedisList R key w =
     (case LLen R key w of (llenResult, w') \<Rightarrow>
        let total = reply_int llenResult in
        if total = 0 then (0, w') else (total, purge_loop R key (nat total) w'))"

definition PurgeRejected :: "'r redis \<Rightarrow> queue_channel \<Rightarrow> 'r \<Rightarrow> int \<times> 'r" where
  "PurgeRejected R q w = deleteRedisList R (rejectedKey q) w"

text \<open>One round of \<open>consume\<close>: the oldest ready message moves to the unacked list and is handed to
  the consumers; nothing when the blocking pop timed out.\<close>

definition consume_round ::
  "'r redis \<Rightarrow> queue_channel \<Rightarrow> 'r \<Rightarrow> ('r \<times> bool list) delivery option \<times> 'r"
where
  "consume_round R q w =
     (case RPopLPush R (readyKey q) (unackedKey q) w of (result, w') \<Rightarrow>
        if redisErrIsNil result then (None, w')
        else (Some (newQueueDelivery R (case result of RStr s \<Rightarrow> s | _ \<Rightarrow> [])
                      (unackedKey q) (rejectedKey q) (readyKey q)), w'))"

definition queue_Publisher :: "'r redis \<Rightarrow> queue_channel \<Rightarrow> 'r publisher" where
  "queue_Publisher R q = redisQueuePublisher R (readyKey q)"

section \<open>What the server promises\<close>

text \<open>The documented effect of the list commands on the lists of a reachable server, where
  \<open>view s k\<close> is the list at key \<open>k\<close> from its head (left) to its tail (right).\<close>

definition LPush_ok :: "'r redis \<Rightarrow> ('r \<Rightarrow> string \<Rightarrow> string list) \<Rightarrow> bool" where
  "LPush_ok R view \<longleftrightarrow>
     (\<forall>s k v. \<exists>n s'. LPush R k v s = (RInt n, s') \<and> view s' = (view s)(k := v # view s k))"

definition RPush_ok :: "'r redis \<Rightarrow> ('r \<Rightarrow> string \<Rightarrow> string list) \<Rightarrow> bool" where
  "RPush_ok R view \<longleftrightarrow>
     (\<forall>s k v. \<exists>n s'. RPush R k v s = (RInt n, s') \<and> view s' = (view s)(k := view s k @ [v]))"

definition LRem_ok :: "'r redis \<Rightarrow> ('r \<Rightarrow> string \<Rightarrow> string list) \<Rightarrow> bool" where
  "LRem_ok R view \<longleftrightarrow>
     (\<forall>s k v. \<exists>s'. LRem R k 1 v s = (RInt (if v \<in> set (view s k) then 1 else 0), s') \<and>
        view s' = (view s)(k := remove1 v (view s k)))"

definition LLen_ok :: "'r redis \<Rightarrow> ('r \<Rightarrow> string \<Rightarrow> string list) \<Rightarrow> bool" where
  "LLen_ok R view \<longleftrightarrow>
     (\<forall>s k. \<exists>s'. LLen R k s = (RInt (int (length (view s k))), s') \<and> view s' = view s)"

definition LTrim_ok :: "'r redis \<Rightarrow> ('r \<Rightarrow> string \<Rightarrow> string list) \<Rightarrow> bool" where
  "LTrim_ok R view \<longleftrightarrow>
     (\<forall>s k i. i < 0 \<longrightarrow> view (snd (LTrim R k 0 i s)) =
        (view s)(k := take (nat (int (length (view s k)) + i + 1)) (view s k)))"

definition RPopLPush_ok :: "'r redis \<Rightarrow> ('r \<Rightarrow> string \<Rightarrow> string list) \<Rightarrow> bool" where
  "RPopLPush_ok R view \<longleftrightarrow>
     (\<forall>s a b. a \<noteq> b \<longrightarrow> (\<exists>r s'. RPopLPush R a b s = (r, s') \<and>
        (if view s a = [] then r = RNil \<and> view s' = view s
         else r = RStr (last (view s a)) \<and>
              view s' = (view s)(a := butlast (view s a), b := last (view s a) # view s b))))"

definition redis_lists_ok :: "'r redis \<Rightarrow> ('r \<Rightarrow> string \<Rightarrow> string list) \<Rightarrow> bool" where
  "redis_lists_ok R view \<longleftrightarrow>
     LPush_ok R view \<and> RPush_ok R view \<and> LRem_ok R view \<and> LLen_ok R view \<and> LTrim_ok R view \<and>
     RPopLPush_ok R view"

lemma redis_LPush:
  "redis_lists_ok R view \<Longrightarrow>
     \<exists>n s'. LPush R k v s = (RInt n, s') \<and> view s' = (view s)(k := v # view s k)"
  by (simp add: redis_lists_ok_def LPush_ok_def)

lemma redis_RPush:
  "redis_lists_ok R view \<Longrightarrow>
     \<exists>n s'. RPush R k v s = (RInt n, s') \<and> view s' = (view s)(k := view s k @ [v])"
  by (simp add: redis_lists_ok_def RPush_ok_def)

lemma redis_LRem:
  "redis_lists_ok R view \<Longrightarrow>
     \<exists>s'. LRem R k 1 v s = (RInt (if v \<in> set (view s k) then 1 else 0), s') \<and>
        view s' = (view s)(k := remove1 v (view s k))"
  by (simp only: redis_lists_ok_def LRem_ok_def)

lemma redis_LLen:
  "redis_lists_ok R view \<Longrightarrow>
     \<exists>s'. LLen R k s = (RInt (int (length (view s k))), s') \<and> view s' = view s"
  by (simp add: redis_lists_ok_def LLen_ok_def)

lemma redis_LTrim:
  "redis_lists_ok R view \<Longrightarrow> i < 0 \<Longrightarrow>
     view (snd (LTrim R k 0 i s)) =
       (view s)(k := take (nat (int (length (view s k)) + i + 1)) (view s k))"
  by (simp only: redis_lists_ok_def LTrim_ok_def)

lemma redis_RPopLPush:
  "redis_lists_ok R view \<Longrightarrow> a \<noteq> b \<Longrightarrow>
     \<exists>r s'. RPopLPush R a b s = (r, s') \<and>
        (if view s a = [] then r = RNil \<and> view s' = view s
         else r = RStr (last (view s a)) \<and>
              view s' = (view s)(a := butlast (view s a), b := last (view s a) # view s b))"
  by (simp only: redis_lists_ok_def RPopLPush_ok_def) blast

definition wf_queue :: "queue_channel \<Rightarrow> bool" where
  "wf_queue q = distinct [readyKey q, unackedKey q, rejectedKey q]"

lemma wf_NewQueueConsumerChannel [simp]: "wf_queue (NewQueueConsumerChannel name)"
  by (simp add: wf_queue_def NewQueueConsumerChannel_def)

section \<open>Queue properties\<close>

lemma return_loop_all:
  assumes R: "redis_lists_ok R view" and q: "wf_queue q"
  shows "n = length (view w (unackedKey q)) \<Longrightarrow>
    \<exists>w'. return_loop R q n i w = (i + n, w') \<and>
      view w' = (view w)(unackedKey q := [],
        readyKey q := view w (unackedKey q) @ view w (readyKey q))"
proof (induction n arbitrary: i w)
  case 0
  then show ?case by (auto simp: fun_eq_iff)
next
  case (Suc n)
  let ?u = "view w (unackedKey q)"
  have ne: "?u \<noteq> []" and k: "unackedKey q \<noteq> readyKey q" "readyKey q \<noteq> unackedKey q"
    using Suc.prems q by (auto simp: wf_queue_def)
  obtain s' where s': "RPopLPush R (unackedKey q) (readyKey q) w = (RStr (last ?u), s')"
    and v: "view s' = (view w)(unackedKey q := butlast ?u, readyKey q := last ?u # view w (readyKey q))"
    using redis_RPopLPush [OF R k(1), of w] ne by auto
  have "n = length (view s' (unackedKey q))" using Suc.prems v k by simp
  from Suc.IH [OF this, of "Suc i"] obtain w' where
    l: "return_loop R q n (Suc i) s' = (Suc i + n, w')" and
    v': "view w' = (view s')(unackedKey q := [],
      readyKey q := view s' (unackedKey q) @ view s' (readyKey q))" by blast
  have "view w' = (view w)(unackedKey q := [], readyKey q := ?u @ view w (readyKey q))"
    using v' v k ne append_butlast_last_id [OF ne]
    by (auto simp: fun_eq_iff)
  with l s' k show ?case by (auto simp: redisErrIsNil_def fun_eq_iff)
qed

lemma ReturnAllUnacked_view:
  assumes R: "redis_lists_ok R view" and q: "wf_queue q"
  shows "\<exists>w'. ReturnAllUnacked R q w = (length (view w (unackedKey q)), w') \<and>
    view w' = (view w)(unackedKey q := [],
      readyKey q := view w (unackedKey q) @ view w (readyKey q))"
proof -
  obtain s' where s: "LLen R (unackedKey q) w = (RInt (int (length (view w (unackedKey q)))), s')"
    "view s' = view w" using redis_LLen [OF R] by blast
  with return_loop_all [OF R q, of _ s' 0] show ?thesis
    by (fastforce simp: ReturnAllUnacked_def redisErrIsNil_def reply_int_def)
qed

lemma purge_loop_view:
  assumes "redis_lists_ok R view" and "length (view w key) \<le> todo"
  shows "view (purge_loop R key todo w) = (view w)(key := [])"
  using assms
proof (induction R key todo w rule: purge_loop.induct)
  case (1 R key todo w)
  show ?case
  proof (cases "todo = 0")
    case True
    with 1 show ?thesis by (subst purge_loop.simps) (auto simp: fun_eq_iff)
  next
    case False
    let ?b = "if purgeBatchSize > todo then todo else purgeBatchSize"
    let ?w = "snd (LTrim R key 0 (- 1 - int ?b) w)"
    have v: "view ?w = (view w)(key := take (nat (int (length (view w key)) - int ?b)) (view w key))"
      using redis_LTrim [OF 1(2), of "- 1 - int ?b" key w] by (simp add: algebra_simps)
    have "length (view ?w key) \<le> todo - purgeBatchSize"
      using v 1(3) by (auto simp: purgeBatchSize_def)
    from 1(1) [OF False refl 1(2) this] v show ?thesis
      using False by (subst purge_loop.simps) (simp add: Let_def fun_upd_def fun_eq_iff)
  qed
qed

lemma PurgeRejected_view:
  assumes R: "redis_lists_ok R view"
  shows "fst (PurgeRejected R q w) = int (length (view w (rejectedKey q))) \<and>
    view (snd (PurgeRejected R q w)) = (view w)(rejectedKey q := [])"
proof -
  obtain s' where s: "LLen R (rejectedKey q) w = (RInt (int (length (view w (rejectedKey q)))), s')"
    "view s' = view w" using redis_LLen [OF R] by blast
  then show ?thesis using purge_loop_view [OF R, of s' "rejectedKey q"]
    by (auto simp: PurgeRejected_def deleteRedisList_def reply_int_def Let_def fun_eq_iff)
qed

text \<open>Operations on one queue, as publishers, the consume loop, the consumers and the queue monitor
  interleave them, and what each adds to or takes from the messages in flight.\<close>

datatype queue_op =
    OpPublish string
  | OpConsume
  | OpAck string
  | OpReject string
  | OpReturn string
  | OpReturnAll
  | OpPurge

fun run_op :: "'r redis \<Rightarrow> queue_channel \<Rightarrow> queue_op \<Rightarrow> 'r \<times> bool list \<Rightarrow> 'r \<times> bool list" where
  "run_op R q (OpPublish p) w = (snd (queue_Publisher R q p (fst w)), snd w)"
| "run_op R q OpConsume w = (snd (consume_round R q (fst w)), snd w)"
| "run_op R q (OpAck p) w = snd (queue_Ack R (unackedKey q) p w)"
| "run_op R q (OpReject p) w = snd (queue_Reject R (rejectedKey q) (unackedKey q) p w)"
| "run_op R q (OpReturn p) w = snd (queue_Return R (readyKey q) (unackedKey q) p w)"
| "run_op R q OpReturnAll w = (snd (ReturnAllUnacked R q (fst w)), snd w)"
| "run_op R q OpPurge w = (snd (PurgeRejected R q (fst w)), snd w)"

definition queue_content :: "(string \<Rightarrow> string list) \<Rightarrow> queue_channel \<Rightarrow> string multiset" where
  "queue_content v q = mset (v (readyKey q)) + mset (v (unackedKey q)) + mset (v (rejectedKey q))"

fun op_adds :: "queue_op \<Rightarrow> string multiset" where
  "op_adds (OpPublish p) = (if p = [] then {#} else {#p#})"
| "op_adds _ = {#}"

fun op_removes :: "(string \<Rightarrow> string list) \<Rightarrow> queue_channel \<Rightarrow> queue_op \<Rightarrow> string multiset" where
  "op_removes v q (OpAck p) = {#p#}"
| "op_removes v q OpPurge = mset (v (rejectedKey q))"
| "op_removes v q _ = {#}"

text \<open>A consumer settles a delivery it was handed and has not settled yet.\<close>

fun op_legal :: "(string \<Rightarrow> string list) \<Rightarrow> queue_channel \<Rightarrow> queue_op \<Rightarrow> bool" where
  "op_legal v q (OpAck p) = (p \<in> set (v (unackedKey q)))"
| "op_legal v q (OpReject p) = (p \<in> set (v (unackedKey q)))"
| "op_legal v q (OpReturn p) = (p \<in> set (v (unackedKey q)))"
| "op_legal v q _ = True"

lemma mset_last_butlast: "xs \<noteq> [] \<Longrightarrow> add_mset (last xs) (mset (butlast xs)) = mset xs"
  by (metis append_butlast_last_id mset.simps(2) mset_append add_mset_add_single mset.simps(1) union_commute)

lemma run_op_conserves:
  assumes R: "redis_lists_ok R view" and q: "wf_queue q" and l: "op_legal (view (fst w)) q op"
  shows "queue_content (view (fst (run_op R q op w))) q + op_removes (view (fst w)) q op =
         queue_content (view (fst w)) q + op_adds op"
proof (cases op)
  case (OpPublish p)
  then show ?thesis
    using redis_LPush [OF R, of "readyKey q" p "fst w"] q
    by (auto simp: queue_Publisher_def redisQueuePublisher_def queue_content_def wf_queue_def
        split: prod.splits)
next
  case OpConsume
  have d: "readyKey q \<noteq> unackedKey q" "readyKey q \<noteq> rejectedKey q" "unackedKey q \<noteq> rejectedKey q"
    using q by (auto simp: wf_queue_def)
  obtain r s' where s: "RPopLPush R (readyKey q) (unackedKey q) (fst w) = (r, s')"
    "if view (fst w) (readyKey q) = [] then r = RNil \<and> view s' = view (fst w)
     else r = RStr (last (view (fst w) (readyKey q))) \<and> view s' = (view (fst w))
       (readyKey q := butlast (view (fst w) (readyKey q)),
        unackedKey q := last (view (fst w) (readyKey q)) # view (fst w) (unackedKey q))"
    using redis_RPopLPush [OF R d(1)] by blast
  then show ?thesis using OpConsume d
    by (auto simp: consume_round_def queue_content_def redisErrIsNil_def split: if_splits)
      (metis add_mset_add_single mset_last_butlast union_assoc union_commute)
next
  case (OpAck p)
  obtain s' where "LRem R (unackedKey q) 1 p (fst w) = (RInt 1, s')"
    "view s' = (view (fst w))(unackedKey q := remove1 p (view (fst w) (unackedKey q)))"
    using redis_LRem [OF R, of "unackedKey q" p "fst w"] l OpAck by auto
  then show ?thesis using OpAck q l
    by (auto simp: queue_Ack_def redisErrIsNil_def queue_content_def wf_queue_def)
next
  case (OpReject p)
  obtain n s' where s: "LPush R (rejectedKey q) p (fst w) = (RInt n, s')"
    "view s' = (view (fst w))(rejectedKey q := p # view (fst w) (rejectedKey q))"
    using redis_LPush [OF R] by blast
  obtain m s'' where t: "LRem R (unackedKey q) 1 p s' = (RInt m, s'')"
    "view s'' = (view s')(unackedKey q := remove1 p (view s' (unackedKey q)))"
    using redis_LRem [OF R] by blast
  show ?thesis using OpReject q l s t
    by (auto simp: queue_Reject_def queue_move_def redisErrIsNil_def queue_content_def wf_queue_def)
next
  case (OpReturn p)
  obtain n s' where s: "RPush R (readyKey q) p (fst w) = (RInt n, s')"
    "view s' = (view (fst w))(readyKey q := view (fst w) (readyKey q) @ [p])"
    using redis_RPush [OF R] by blast
  obtain m s'' where t: "LRem R (unackedKey q) 1 p s' = (RInt m, s'')"
    "view s'' = (view s')(unackedKey q := remove1 p (view s' (unackedKey q)))"
    using redis_LRem [OF R] by blast
  show ?thesis using OpReturn q l s t
    by (auto simp: queue_Return_def redisErrIsNil_def queue_content_def wf_queue_def)
next
  case OpReturnAll
  then show ?thesis using ReturnAllUnacked_view [OF R q, of "fst w"] q
    by (auto simp: queue_content_def wf_queue_def)
next
  case OpPurge
  then show ?thesis using PurgeRejected_view [OF R, of q "fst w"] q
    by (auto simp: queue_content_def wf_queue_def)
qed

fun run_ops :: "'r redis \<Rightarrow> queue_channel \<Rightarrow> queue_op list \<Rightarrow> 'r \<times> bool list \<Rightarrow> 'r \<times> bool list" where
  "run_ops R q [] w = w"
| "run_ops R q (x # xs) w = run_ops R q xs (run_op R q x w)"

fun ops_legal ::
  "'r redis \<Rightarrow> ('r \<Rightarrow> string \<Rightarrow> string list) \<Rightarrow> queue_channel \<Rightarrow> queue_op list \<Rightarrow> 'r \<times> bool list \<Rightarrow> bool"
where
  "ops_legal R view q [] w = True"
| "ops_legal R view q (x # xs) w =
     (op_legal (view (fst w)) q x \<and> ops_legal R view q xs (run_op R q x w))"

fun ops_removed ::
  "'r redis \<Rightarrow> ('r \<Rightarrow> string \<Rightarrow> string list) \<Rightarrow> queue_channel \<Rightarrow> queue_op list \<Rightarrow> 'r \<times> bool list
     \<Rightarrow> string multiset"
where
  "ops_removed R view q [] w = {#}"
| "ops_removed R view q (x # xs) w =
     op_removes (view (fst w)) q x + ops_removed R view q xs (run_op R q x w)"

definition ops_added :: "queue_op list \<Rightarrow> string multiset" where
  "ops_added xs = sum_list (map op_adds xs)"

text \<open>C13: a queue neither loses nor duplicates messages: after any interleaving of publishing,
  consuming, returning, purging and of settling outstanding deliveries, the ready, unacked and
  rejected lists together with what was acknowledged or purged are what was there before and
  what was published since.\<close>

theorem queue_conserves_messages:
  assumes R: "redis_lists_ok R view" and q: "wf_queue q"
  shows "ops_legal R view q xs w \<Longrightarrow>
    queue_content (view (fst (run_ops R q xs w))) q + ops_removed R view q xs w =
    queue_content (view (fst w)) q + ops_added xs"
proof (induction xs arbitrary: w)
  case Nil
  then show ?case by (simp add: ops_added_def)
next
  case (Cons x xs)
  let ?w = "run_op R q x w"
  let ?after = "queue_content (view (fst (run_ops R q xs ?w))) q"
  let ?r1 = "op_removes (view (fst w)) q x" and ?r2 = "ops_removed R view q xs ?w"
  have one: "queue_content (view (fst ?w)) q + op_removes (view (fst w)) q x =
      queue_content (view (fst w)) q + op_adds x"
    using run_op_conserves [OF R q] Cons.prems by simp
  have rest: "?after + ?r2 = queue_content (view (fst ?w)) q + ops_added xs"
    using Cons by simp
  have "?after + (?r1 + ?r2) = (?after + ?r2) + ?r1" by (simp add: ac_simps)
  also have "\<dots> = (queue_content (view (fst ?w)) q + ?r1) + ops_added xs"
    unfolding rest by (simp add: ac_simps)
  also have "\<dots> = queue_content (view (fst w)) q + (op_adds x + ops_added xs)"
    unfolding one by (simp add: ac_simps)
  finally show ?case by (simp add: ops_added_def)
qed

text \<open>The documented effect of \<open>SET\<close> and \<open>GET\<close> on the string keys \<open>kv s\<close>.\<close>

definition redis_kv_ok :: "'r redis \<Rightarrow> ('r \<Rightarrow> string \<rightharpoonup> string) \<Rightarrow> bool" where
  "redis_kv_ok R kv \<longleftrightarrow>
     (\<forall>k v s. \<exists>s'. KSet R k v s = (RStr ''OK'', s') \<and> kv s' = (kv s)(k \<mapsto> v)) \<and>
     (\<forall>k s. \<exists>s'. KGet R k s = (case kv s k of None \<Rightarrow> RNil | Some v \<Rightarrow> RStr v, s') \<and> kv s' = kv s)"

text \<open>A list store that keeps the promises.\<close>

type_synonym store = "string \<Rightarrow> string list"

definition list_redis :: "store redis" where
  "list_redis =
     \<lparr>LPush = (\<lambda>k v s. (RInt (int (length (s k)) + 1), s(k := v # s k))),
      RPush = (\<lambda>k v s. (RInt (int (length (s k)) + 1), s(k := s k @ [v]))),
      LRem = (\<lambda>k n v s. (RInt (if v \<in> set (s k) then 1 else 0), s(k := remove1 v (s k)))),
      LLen = (\<lambda>k s. (RInt (int (length (s k))), s)),
      LTrim = (\<lambda>k i j s. (RStr ''OK'', s(k := take (nat (int (length (s k)) + j + 1)) (s k)))),
      RPopLPush = (\<lambda>a b s. if s a = [] then (RNil, s)
                            else (RStr (last (s a)), s(a := butlast (s a), b := last (s a) # s b))),
      PublishTopic = (\<lambda>k v s. (RInt 0, s)),
      KSet = (\<lambda>k v s. (RStr ''OK'', s(k := [v]))),
      KGet = (\<lambda>k s. (case s k of [] \<Rightarrow> RNil | v # vs \<Rightarrow> RStr v, s))\<rparr>"

lemma list_redis_ok: "redis_lists_ok list_redis (\<lambda>s. s)"
  by (simp add: redis_lists_ok_def LPush_ok_def RPush_ok_def LRem_ok_def LLen_ok_def LTrim_ok_def
      RPopLPush_ok_def list_redis_def)

definition list_kv :: "store \<Rightarrow> string \<rightharpoonup> string" where
  "list_kv s k = (if s k = [] then None else Some (hd (s k)))"

lemma list_kv_upd: "list_kv (s(k := [v])) = (list_kv s)(k \<mapsto> v)"
  by (rule ext) (simp add: list_kv_def)

lemma list_redis_KGet:
  "KGet list_redis k s = (case list_kv s k of None \<Rightarrow> RNil | Some v \<Rightarrow> RStr v, s)"
  by (cases "s k") (simp_all add: list_kv_def list_redis_def)

lemma list_redis_kv_ok: "redis_kv_ok list_redis list_kv"
  unfolding redis_kv_ok_def
proof (intro conjI allI)
  fix k v and s :: store
  show "\<exists>s'. KSet list_redis k v s = (RStr ''OK'', s') \<and> list_kv s' = (list_kv s)(k \<mapsto> v)"
    by (rule exI [of _ "s(k := [v])"]) (simp only: list_kv_upd, simp add: list_redis_def)
  show "\<exists>s'. KGet list_redis k s = (case list_kv s k of None \<Rightarrow> RNil | Some v \<Rightarrow> RStr v, s') \<and>
      list_kv s' = list_kv s"
    by (rule exI [of _ s]) (simp only: list_redis_KGet simp_thms)
qed

definition sample_queue :: queue_channel where
  "sample_queue = \<lparr>channelName = ''q'', readyKey = ''q'', unackedKey = ''u'', rejectedKey = ''r''\<rparr>"

definition sample_ops :: "queue_op list" where
  "sample_ops = [OpPublish ''a'', OpConsume, OpReject ''a'', OpPurge]"

lemma wf_sample_queue: "wf_queue sample_queue"
  by (simp add: wf_queue_def sample_queue_def)

lemma sample_ops_run:
  "ops_legal list_redis (\<lambda>s. s) sample_queue sample_ops (\<lambda>_. [], [])"
  "ops_removed list_redis (\<lambda>s. s) sample_queue sample_ops (\<lambda>_. [], []) = {#''a''#}"
  "ops_added sample_ops = {#''a''#}"
  by (simp_all add: sample_ops_def sample_queue_def list_redis_def consume_round_def
      queue_Publisher_def redisQueuePublisher_def redisErrIsNil_def queue_Reject_def queue_move_def
      ops_added_def)

theorem queue_conserves_messages_witness:
  "queue_content (fst (run_ops list_redis sample_queue sample_ops (\<lambda>_. [], []))) sample_queue +
     {#''a''#} = {#''a''#}"
  using queue_conserves_messages [OF list_redis_ok wf_sample_queue sample_ops_run(1)]
  by (simp add: sample_ops_run queue_content_def)

text \<open>A \<open>MultiPublisher\<close> succeeds exactly when each of its publishers does in turn, and the first
  failure stops it: the publishers behind it are not called.\<close>

lemma MultiPublisher_short_circuit:
  "MultiPublisher_Publish (ps @ qs) payload w =
     (case MultiPublisher_Publish ps payload w of
        (True, w') \<Rightarrow> MultiPublisher_Publish qs payload w'
      | (False, w') \<Rightarrow> (False, w'))"
  by (induction ps arbitrary: w) (auto split: prod.splits bool.splits)

section \<open>Channel URIs\<close>

datatype channel_kind = TopicChannel string | QueueChannel queue_channel

datatype publisher_kind = TopicPublisher string | QueuePublisher string

definition uri_error :: err where
  "uri_error = ''Must specify uri starting with queue:// or topic://''"

definition ConsumerFromURI :: "string \<Rightarrow> err + channel_kind" where
  "ConsumerFromURI uri =
     (if has_prefix uri ''topic://'' then Inr (TopicChannel (drop (length ''topic://'') uri))
      else if has_prefix uri ''queue://''
      then Inr (QueueChannel (NewQueueConsumerChannel (drop (length ''queue://'') uri)))
      else Inl uri_error)"

definition PublisherFromURI :: "string \<Rightarrow> err + publisher_kind" where
  "PublisherFromURI uri =
     (if has_prefix uri ''topic://'' then Inr (TopicPublisher (drop (length ''topic://'') uri))
      else if has_prefix uri ''queue://'' then Inr (QueuePublisher (drop (length ''queue://'') uri))
      else Inl uri_error)"

fun channel_Publisher :: "channel_kind \<Rightarrow> publisher_kind" where
  "channel_Publisher (TopicChannel name) = TopicPublisher name"
| "channel_Publisher (QueueChannel q) = QueuePublisher (readyKey q)"

definition publisher_of :: "'r redis \<Rightarrow> publisher_kind \<Rightarrow> 'r publisher" where
  "publisher_of R k =
     (case k of TopicPublisher key \<Rightarrow> redisTopicPublisher R key
              | QueuePublisher key \<Rightarrow> redisQueuePublisher R key)"

text \<open>\<open>strings.Split\<close> with a longer separator.\<close>

function split_str :: "string \<Rightarrow> string \<Rightarrow> string \<Rightarrow> string list" where
  "split_str sep acc s =
     (if sep = [] \<or> s = [] then [acc @ s]
      else if has_prefix s sep then acc # split_str sep [] (drop (length sep) s)
      else split_str sep (acc @ [hd s]) (tl s))"
  by pat_completeness auto
termination
  by (relation "measure (\<lambda>(sep, acc, s). length s)") auto

declare split_str.simps [simp del]

fun parse_publishers :: "string list \<Rightarrow> publisher_kind list \<Rightarrow> err + publisher_kind list" where
  "parse_publishers [] ps = Inr ps"
| "parse_publishers (u # us) ps =
     try_bind (PublisherFromURI u) (\<lambda>p. parse_publishers us (ps @ [p]))"

definition ParseChannels ::
  "string \<Rightarrow> err + channel_kind \<times> publisher_kind list \<times> publisher_kind option"
where
  "ParseChannels channelString =
     (let alts = split_on CHR '';'' channelString in
      try_bind (if length alts > 1 then try_bind (PublisherFromURI (alts ! 1)) (\<lambda>p. Inr (Some p))
                else Inr None) (\<lambda>alt.
      let parts = split_str ''=>'' [] (hd alts) in
      try_bind (ConsumerFromURI (hd parts)) (\<lambda>source.
      try_bind (parse_publishers (tl parts) []) (\<lambda>publishers.
      Inr (source, publishers, alt)))))"

lemma split_str_Nil [simp]: "split_str sep acc [] = [acc]"
  by (subst split_str.simps) simp

text \<open>A channel name without the separator's first character is one part.\<close>

lemma split_str_part:
  assumes "c \<notin> set s"
  shows "split_str (c # cs) acc (s @ (c # cs) @ t) = (acc @ s) # split_str (c # cs) [] t"
  using assms
proof (induction s arbitrary: acc)
  case Nil
  then show ?case by (subst split_str.simps) (simp add: has_prefix_def)
next
  case (Cons x s)
  then show ?case by (subst split_str.simps) (auto simp: has_prefix_def)
qed

lemma split_str_last:
  assumes "c \<notin> set s"
  shows "split_str (c # cs) acc s = [acc @ s]"
  using assms
proof (induction s arbitrary: acc)
  case (Cons x s)
  then show ?case by (subst split_str.simps) (auto simp: has_prefix_def)
qed simp

fun publisher_uri :: "publisher_kind \<Rightarrow> string" where
  "publisher_uri (TopicPublisher key) = ''topic://'' @ key"
| "publisher_uri (QueuePublisher key) = ''queue://'' @ key"

fun channel_uri :: "channel_kind \<Rightarrow> string" where
  "channel_uri (TopicChannel name) = ''topic://'' @ name"
| "channel_uri (QueueChannel q) = ''queue://'' @ channelName q"

lemma PublisherFromURI_uri [simp]: "PublisherFromURI (publisher_uri k) = Inr k"
  by (cases k) (simp_all add: PublisherFromURI_def has_prefix_def)

lemma ConsumerFromURI_uri [simp]:
  "k = TopicChannel n \<or> k = QueueChannel (NewQueueConsumerChannel n) \<Longrightarrow>
     ConsumerFromURI (channel_uri k) = Inr k"
  by (auto simp: ConsumerFromURI_def has_prefix_def NewQueueConsumerChannel_def)

text \<open>The publisher a channel hands out writes where a publisher of the same URI writes.\<close>

lemma channel_Publisher_same_uri:
  "ConsumerFromURI uri = Inr ch \<Longrightarrow> PublisherFromURI uri = Inr (channel_Publisher ch)"
  by (auto simp: ConsumerFromURI_def PublisherFromURI_def NewQueueConsumerChannel_def
      split: if_splits)

definition plain_name :: "string \<Rightarrow> bool" where
  "plain_name s = (CHR ''='' \<notin> set s \<and> CHR '';'' \<notin> set s)"

fun channel_text :: "string \<Rightarrow> publisher_kind list \<Rightarrow> string" where
  "channel_text src [] = src"
| "channel_text src (p # ps) = src @ ''=>'' @ channel_text (publisher_uri p) ps"

fun plain_publisher :: "publisher_kind \<Rightarrow> bool" where
  "plain_publisher (TopicPublisher key) = plain_name key"
| "plain_publisher (QueuePublisher key) = plain_name key"

lemma plain_publisher_uri: "plain_publisher p \<Longrightarrow> plain_name (publisher_uri p)"
  by (cases p) (auto simp: plain_name_def)

lemma split_channel_text:
  assumes "plain_name src" and "list_all plain_publisher ps"
  shows "split_str ''=>'' [] (channel_text src ps) = src # map publisher_uri ps"
  using assms
proof (induction ps arbitrary: src)
  case Nil
  then show ?case by (simp add: split_str_last plain_name_def)
next
  case (Cons p ps)
  then show ?case
    using split_str_part [of "CHR ''=''" src "''>''" "[]" "channel_text (publisher_uri p) ps"]
    by (simp add: plain_name_def plain_publisher_uri [unfolded plain_name_def])
qed

lemma parse_publishers_uris [simp]: "parse_publishers (map publisher_uri ps) acc = Inr (acc @ ps)"
  by (induction ps arbitrary: acc) auto

lemma channel_text_no_semicolon:
  "plain_name src \<Longrightarrow> list_all plain_publisher ps \<Longrightarrow> CHR '';'' \<notin> set (channel_text src ps)"
  by (induction ps arbitrary: src) (auto simp: plain_name_def plain_publisher_uri [unfolded plain_name_def])

text \<open>The channel string of a service is parsed into what it names: the source channel, its
  publishers in order and the alternative publisher behind the semicolon, if there is one.\<close>

lemma ParseChannels_render:
  assumes ch: "ch = TopicChannel n \<or> ch = QueueChannel (NewQueueConsumerChannel n)"
    and n: "plain_name n" and ps: "list_all plain_publisher ps"
    and alt: "\<forall>a \<in> set_option alt. plain_publisher a"
  shows "ParseChannels (channel_text (channel_uri ch) ps @
           (case alt of None \<Rightarrow> [] | Some a \<Rightarrow> '';'' @ publisher_uri a)) = Inr (ch, ps, alt)"
proof -
  let ?t = "channel_text (channel_uri ch) ps"
  have src: "plain_name (channel_uri ch)"
    using ch n by (auto simp: plain_name_def NewQueueConsumerChannel_def)
  have t: "split_str ''=>'' [] ?t = channel_uri ch # map publisher_uri ps"
    and sc: "CHR '';'' \<notin> set ?t"
    using split_channel_text [OF src ps] channel_text_no_semicolon [OF src ps] by auto
  have c: "ConsumerFromURI (channel_uri ch) = Inr ch" using ch by simp
  show ?thesis
  proof (cases alt)
    case None
    with sc have "split_on CHR '';'' ?t = [?t]" by (simp add: split_on_no_sep)
    with None t c show ?thesis by (simp add: ParseChannels_def)
  next
    case (Some a)
    with alt have "CHR '';'' \<notin> set (publisher_uri a)"
      using plain_publisher_uri [of a] by (simp add: plain_name_def)
    with sc have "split_on CHR '';'' (?t @ '';'' @ publisher_uri a) = [?t, publisher_uri a]"
      by (simp add: split_on_append_sep split_on_no_sep)
    with Some t c show ?thesis by (simp add: ParseChannels_def)
  qed
qed

end
