(* ===== verification/Relays.thy ===== *)
theory Relays
  imports Channels
begin

text \<open>
  Relays (\<open>channels/relay.go\<close>): a filter between a consumer channel and publishers; and the delay
  relay (\<open>channels/delay_relay.go\<close>, \<open>cmd/delayrelay\<close>), which holds the messages of a queue back
  until it is flushed, as a step relation over the queue, the consumer and the flusher.
\<close>

section \<open>Relay\<close>

type_synonym 'w relay_filter = "'w delivery \<Rightarrow> 'w \<Rightarrow> bool \<times> 'w"

text \<open>\<open>IncludeAll\<close> counts what it lets pass; the counter is part of the world, reached through the
  update it is given.\<close>

definition IncludeAll_Filter :: "('w \<Rightarrow> 'w) \<Rightarrow> 'w relay_filter" where
  "IncludeAll_Filter incr delivery w = (True, incr w)"

definition InvertFilter_Filter :: "'w relay_filter \<Rightarrow> 'w relay_filter" where
  "InvertFilter_Filter sub delivery w = (case sub delivery w of (b, w') \<Rightarrow> (\<not> b, w'))"

definition publish_each :: "'w publisher list \<Rightarrow> string \<Rightarrow> 'w \<Rightarrow> 'w" where
  "publish_each ps payload w = fold (\<lambda>p w. snd (p payload w)) ps w"

definition Relay_Consume :: "'w publisher list \<Rightarrow> 'w relay_filter \<Rightarrow> 'w delivery \<Rightarrow> 'w \<Rightarrow> 'w" where
  "Relay_Consume publishers flt delivery w =
     (case flt delivery w of (pass, w1) \<Rightarrow>
        let w2 = (if pass then publish_each publishers (Payload delivery) w1 else w1)
        in snd (Ack delivery w2))"

text \<open>Unlike a \<open>MultiPublisher\<close>, a relay tries every publisher.\<close>

lemma publish_each_append:
  "publish_each (ps @ qs) payload w = publish_each qs payload (publish_each ps payload w)"
  by (simp add: publish_each_def)

lemma InvertFilter_twice: "InvertFilter_Filter (InvertFilter_Filter f) = f"
  by (simp add: InvertFilter_Filter_def fun_eq_iff split: prod.splits)

section \<open>The delay relay\<close>

text \<open>
  \<open>src\<close>: the queue the relay consumes, oldest message first, with the sentinels among them.
  \<open>waiting\<close>: the consumer goroutine has taken a sentinel and stands at \<open><-delayChan\<close>; the
  semaphore of size one keeps every later message from being filtered meanwhile.
  \<open>flushing\<close>: a call of \<open>Flush\<close> has published its sentinel and stands at \<open>delayChan <- true\<close>;
  \<open>once\<close> keeps a second call from running its body meanwhile.
  \<open>out\<close>: what was published. \<open>published\<close> and \<open>flush_mark\<close> are history: the messages
  given to the source so far, and how many there were when the last flush began.
\<close>

record delay_state =
  src :: "string list"
  waiting :: bool
  flushing :: bool
  out :: "string list"
  published :: "string list"
  flush_mark :: nat

text \<open>\<open>NewDelayRelay\<close> publishes a sentinel, so messages pile up from the start.\<close>

definition NewDelayRelay :: "string \<Rightarrow> delay_state" where
  "NewDelayRelay sentinel =
     \<lparr>src = [sentinel], waiting = False, flushing = False, out = [], published = [], flush_mark = 0\<rparr>"

definition dr_publish :: "string \<Rightarrow> delay_state \<Rightarrow> delay_state" where
  "dr_publish m s = s\<lparr>src := src s @ [m], published := published s @ [m]\<rparr>"

text \<open>\<open>DelayRelayFilter.Filter\<close> and the relay around it, on the next message of the queue.\<close>

definition dr_consume :: "string \<Rightarrow> delay_state \<Rightarrow> delay_state" where
  "dr_consume sentinel s =
     (case src s of
        [] \<Rightarrow> s
      | m # ms \<Rightarrow>
          if m = sentinel then s\<lparr>src := ms, waiting := True\<rparr>
          else s\<lparr>src := ms, out := out s @ [m]\<rparr>)"

definition dr_flush_begin :: "string \<Rightarrow> delay_state \<Rightarrow> delay_state" where
  "dr_flush_begin sentinel s =
     s\<lparr>src := src s @ [sentinel], flushing := True, flush_mark := length (published s)\<rparr>"

definition dr_flush_end :: "delay_state \<Rightarrow> delay_state" where
  "dr_flush_end s = s\<lparr>waiting := False, flushing := False\<rparr>"

inductive dr_step :: "string \<Rightarrow> delay_state \<Rightarrow> delay_state \<Rightarrow> bool" for sentinel where
  publish: "m \<noteq> sentinel \<Longrightarrow> dr_step sentinel s (dr_publish m s)"
| consume: "\<not> waiting s \<Longrightarrow> src s \<noteq> [] \<Longrightarrow> dr_step sentinel s (dr_consume sentinel s)"
| flush_begin: "\<not> flushing s \<Longrightarrow> dr_step sentinel s (dr_flush_begin sentinel s)"
| flush_end: "waiting s \<Longrightarrow> flushing s \<Longrightarrow> dr_step sentinel s (dr_flush_end s)"

inductive_cases dr_stepE: "dr_step sentinel s t"

inductive dr_reachable :: "string \<Rightarrow> delay_state \<Rightarrow> bool" for sentinel where
  init: "dr_reachable sentinel (NewDelayRelay sentinel)"
| step: "dr_reachable sentinel s \<Longrightarrow> dr_step sentinel s t \<Longrightarrow> dr_reachable sentinel t"

text \<open>The invariant. The messages that were let through and the ones in the queue are those
  published, in order; and the queue has at most one sentinel more than the flusher and the
  consumer account for: what stands in front of its last sentinel was published before the last
  flush began.\<close>

definition one_sentinel :: "string \<Rightarrow> string list \<Rightarrow> nat \<Rightarrow> bool" where
  "one_sentinel c q n \<longleftrightarrow>
     (\<exists>xs ys. q = xs @ c # ys \<and> c \<notin> set xs \<and> c \<notin> set ys \<and> length xs = n)"

definition two_sentinels :: "string \<Rightarrow> string list \<Rightarrow> nat \<Rightarrow> bool" where
  "two_sentinels c q n \<longleftrightarrow>
     (\<exists>xs ys zs. q = xs @ c # ys @ c # zs \<and> c \<notin> set xs \<and> c \<notin> set ys \<and> c \<notin> set zs \<and>
        length xs + length ys = n)"

definition dr_inv :: "string \<Rightarrow> delay_state \<Rightarrow> bool" where
  "dr_inv c s \<longleftrightarrow>
     out s @ filter (\<lambda>m. m \<noteq> c) (src s) = published s \<and>
     flush_mark s \<le> length (published s) \<and> length (out s) \<le> flush_mark s \<and>
     (if waiting s \<and> \<not> flushing s then c \<notin> set (src s) \<and> length (out s) = flush_mark s
      else if waiting s = flushing s then one_sentinel c (src s) (flush_mark s - length (out s))
      else two_sentinels c (src s) (flush_mark s - length (out s)))"

lemma filter_not_mem: "x \<notin> set xs \<Longrightarrow> filter (\<lambda>m. m \<noteq> x) xs = xs"
  by (induction xs) auto

lemma one_sentinel_snoc: "m \<noteq> c \<Longrightarrow> one_sentinel c q n \<Longrightarrow> one_sentinel c (q @ [m]) n"
  unfolding one_sentinel_def by (metis append.assoc append_Cons set_ConsD rotate1.simps(2) set_rotate1)

lemma two_sentinels_snoc: "m \<noteq> c \<Longrightarrow> two_sentinels c q n \<Longrightarrow> two_sentinels c (q @ [m]) n"
  unfolding two_sentinels_def by (metis append.assoc append_Cons set_ConsD rotate1.simps(2) set_rotate1)

lemma one_sentinel_new: "c \<notin> set q \<Longrightarrow> one_sentinel c (q @ [c]) (length q)"
  unfolding one_sentinel_def by (metis empty_iff empty_set)

lemma two_sentinels_new:
  assumes "one_sentinel c q n"
  shows "two_sentinels c (q @ [c]) (length (filter (\<lambda>m. m \<noteq> c) q))"
proof -
  from assms obtain xs ys where q: "q = xs @ c # ys" "c \<notin> set xs" "c \<notin> set ys"
    by (auto simp: one_sentinel_def)
  then have "q @ [c] = xs @ c # ys @ c # []" by simp
  with q show ?thesis
    unfolding two_sentinels_def by (intro exI [of _ xs] exI [of _ ys] exI [of _ "[]"])
      (simp add: filter_not_mem)
qed

lemma one_sentinel_Cons:
  "one_sentinel c (m # q) n \<longleftrightarrow>
     (if m = c then c \<notin> set q \<and> n = 0 else 0 < n \<and> one_sentinel c q (n - 1))" (is "?l \<longleftrightarrow> ?r")
proof
  assume ?l
  then obtain xs ys where q: "m # q = xs @ c # ys" "c \<notin> set xs" "c \<notin> set ys" "length xs = n"
    by (auto simp: one_sentinel_def)
  show ?r
  proof (cases xs)
    case Nil
    with q show ?thesis by simp
  next
    case (Cons x xs')
    with q have "m \<noteq> c" "q = xs' @ c # ys" "c \<notin> set xs'" "length xs' = n - 1" "0 < n" by auto
    with q(3) show ?thesis by (auto simp: one_sentinel_def)
  qed
next
  assume r: ?r
  show ?l
  proof (cases "m = c")
    case True
    with r have "m # q = [] @ c # q" "c \<notin> set q" "n = 0" by simp_all
    then show ?thesis unfolding one_sentinel_def by (metis empty_iff empty_set list.size(3))
  next
    case False
    with r obtain xs ys where "q = xs @ c # ys" "c \<notin> set xs" "c \<notin> set ys" "length xs = n - 1" "0 < n"
      by (auto simp: one_sentinel_def)
    with False show ?thesis unfolding one_sentinel_def
      by (intro exI [of _ "m # xs"] exI [of _ ys]) auto
  qed
qed

lemma two_sentinels_Cons:
  "two_sentinels c (m # q) n \<longleftrightarrow>
     (if m = c then one_sentinel c q n else 0 < n \<and> two_sentinels c q (n - 1))" (is "?l \<longleftrightarrow> ?r")
proof
  assume ?l
  then obtain xs ys zs where q: "m # q = xs @ c # ys @ c # zs" "c \<notin> set xs" "c \<notin> set ys"
    "c \<notin> set zs" "length xs + length ys = n" by (auto simp: two_sentinels_def)
  show ?r
  proof (cases xs)
    case Nil
    with q show ?thesis by (auto simp: one_sentinel_def)
  next
    case (Cons x xs')
    with q have "m \<noteq> c" "q = xs' @ c # ys @ c # zs" "c \<notin> set xs'" "length xs' + length ys = n - 1"
      "0 < n" by auto
    with q show ?thesis by (auto simp: two_sentinels_def)
  qed
next
  assume r: ?r
  show ?l
  proof (cases "m = c")
    case True
    with r obtain ys zs where "m # q = [] @ c # ys @ c # zs" "c \<notin> set ys" "c \<notin> set zs" "length ys = n"
      by (auto simp: one_sentinel_def)
    then show ?thesis unfolding two_sentinels_def by (metis add_0 empty_iff empty_set list.size(3))
  next
    case False
    with r obtain xs ys zs where "q = xs @ c # ys @ c # zs" "c \<notin> set xs" "c \<notin> set ys" "c \<notin> set zs"
      "length xs + length ys = n - 1" "0 < n" by (auto simp: two_sentinels_def)
    with False show ?thesis unfolding two_sentinels_def
      by (intro exI [of _ "m # xs"] exI [of _ ys] exI [of _ zs]) auto
  qed
qed

lemma dr_inv_init: "dr_inv c (NewDelayRelay c)"
  by (simp add: dr_inv_def NewDelayRelay_def one_sentinel_Cons)

lemma dr_inv_publish: "dr_inv c s \<Longrightarrow> m \<noteq> c \<Longrightarrow> dr_inv c (dr_publish m s)"
  by (auto simp: dr_inv_def dr_publish_def one_sentinel_snoc two_sentinels_snoc)

lemma dr_inv_flush_begin:
  assumes "dr_inv c s" and "\<not> flushing s"
  shows "dr_inv c (dr_flush_begin c s)"
proof -
  have "length (published s) - length (out s) = length (filter (\<lambda>m. m \<noteq> c) (src s))"
    using assms(1) by (metis add_diff_cancel_left' dr_inv_def length_append)
  with assms show ?thesis
    by (cases "waiting s")
       (auto simp: dr_inv_def dr_flush_begin_def filter_not_mem one_sentinel_new two_sentinels_new)
qed

lemma dr_inv_flush_end:
  "dr_inv c s \<Longrightarrow> waiting s \<Longrightarrow> flushing s \<Longrightarrow> dr_inv c (dr_flush_end s)"
  by (auto simp: dr_inv_def dr_flush_end_def)

lemma dr_inv_consume:
  "dr_inv c s \<Longrightarrow> \<not> waiting s \<Longrightarrow> dr_inv c (dr_consume c s)"
  by (cases "src s"; cases "flushing s")
     (auto simp: dr_inv_def dr_consume_def one_sentinel_Cons two_sentinels_Cons split: if_splits)

lemma dr_inv_step: "dr_step sentinel s t \<Longrightarrow> dr_inv sentinel s \<Longrightarrow> dr_inv sentinel t"
  by (elim dr_stepE)
     (auto simp: dr_inv_publish dr_inv_consume dr_inv_flush_begin dr_inv_flush_end)

lemma dr_inv_reachable: "dr_reachable sentinel s \<Longrightarrow> dr_inv sentinel s"
  by (induction rule: dr_reachable.induct) (auto intro: dr_inv_init dr_inv_step)

lemma dr_inv_held:
  assumes "dr_inv sentinel s"
  shows "length (out s) \<le> flush_mark s" and "out s = take (length (out s)) (published s)"
proof -
  show "length (out s) \<le> flush_mark s" using assms by (simp add: dr_inv_def)
  have "out s @ filter (\<lambda>m. m \<noteq> sentinel) (src s) = published s"
    using assms by (simp add: dr_inv_def)
  then show "out s = take (length (out s)) (published s)"
    by (metis append_eq_conv_conj)
qed

text \<open>C12: at every moment the delay relay has passed on, in order and without loss, a prefix of the
  messages given to it, none of them published after the last flush began; and once a flush has
  been taken (the consumer waits again and no flush is under way), exactly the messages
  published before that flush.\<close>

theorem delay_relay_holds_back:
  assumes "dr_reachable sentinel s"
  shows "out s = take (length (out s)) (published s) \<and> length (out s) \<le> flush_mark s \<and>
    (waiting s \<and> \<not> flushing s \<longrightarrow> out s = take (flush_mark s) (published s))"
proof -
  have inv: "dr_inv sentinel s" by (rule dr_inv_reachable [OF assms])
  have "length (out s) = flush_mark s" if "waiting s" "\<not> flushing s"
    using inv that by (simp add: dr_inv_def)
  with dr_inv_held [OF inv] show ?thesis by auto
qed

definition sample_delay :: delay_state where
  "sample_delay = dr_consume ''pause'' (dr_consume ''pause'' (dr_publish ''b''
     (dr_flush_end (dr_flush_begin ''pause'' (dr_publish ''a''
       (dr_consume ''pause'' (NewDelayRelay ''pause'')))))))"

lemmas dr_ops = dr_publish_def dr_consume_def dr_flush_begin_def dr_flush_end_def NewDelayRelay_def

lemma sample_delay_reachable: "dr_reachable ''pause'' sample_delay"
  unfolding sample_delay_def
  by (intro dr_reachable.step [OF _ dr_step.consume] dr_reachable.step [OF _ dr_step.publish]
      dr_reachable.step [OF _ dr_step.flush_begin] dr_reachable.step [OF _ dr_step.flush_end]
      dr_reachable.init) (simp_all add: dr_ops)

theorem delay_relay_holds_back_witness:
  "out sample_delay = [''a''] \<and> published sample_delay = [''a'', ''b''] \<and>
   out sample_delay = take (flush_mark sample_delay) (published sample_delay)"
proof -
  have "waiting sample_delay" "\<not> flushing sample_delay" "out sample_delay = [''a'']"
    "published sample_delay = [''a'', ''b'']"
    by (simp_all add: sample_delay_def dr_ops)
  with delay_relay_holds_back [OF sample_delay_reachable] show ?thesis by blast
qed

text \<open>The consumer alone: it takes messages until it waits.\<close>

inductive dr_drains :: "string \<Rightarrow> delay_state \<Rightarrow> delay_state \<Rightarrow> bool" for sentinel where
  refl: "dr_drains sentinel s s"
| take: "\<not> waiting s \<Longrightarrow> src s \<noteq> [] \<Longrightarrow> dr_drains sentinel (dr_consume sentinel s) t \<Longrightarrow>
    dr_drains sentinel s t"

lemma dr_drains_to_sentinel:
  assumes "src s = xs @ sentinel # ys" and "sentinel \<notin> set xs" and "\<not> waiting s"
  shows "dr_drains sentinel s (s\<lparr>src := ys, out := out s @ xs, waiting := True\<rparr>)"
  using assms
proof (induction xs arbitrary: s)
  case Nil
  then have "dr_consume sentinel s = s\<lparr>src := ys, out := out s @ [], waiting := True\<rparr>"
    by (simp add: dr_consume_def)
  with Nil show ?case by (metis append_Nil dr_drains.refl dr_drains.take list.distinct(1))
next
  case (Cons x xs)
  let ?s = "dr_consume sentinel s"
  have e: "?s = s\<lparr>src := xs @ sentinel # ys, out := out s @ [x]\<rparr>"
    using Cons.prems by (auto simp: dr_consume_def)
  with Cons.prems have "dr_drains sentinel ?s (?s\<lparr>src := ys, out := out ?s @ xs, waiting := True\<rparr>)"
    by (intro Cons.IH) auto
  moreover have "?s\<lparr>src := ys, out := out ?s @ xs, waiting := True\<rparr> =
      s\<lparr>src := ys, out := out s @ x # xs, waiting := True\<rparr>"
    using e by simp
  ultimately show ?case using Cons.prems by (auto intro: dr_drains.take)
qed

text \<open>C37: a flush never hangs: from every reachable state in which a call of \<open>Flush\<close> stands at its
  send, the consumer reaches the matching receive by its own steps, whatever is in the queue.\<close>

theorem delay_relay_flush_completes:
  assumes "dr_reachable sentinel s" and "flushing s"
  shows "\<exists>t. dr_drains sentinel s t \<and> waiting t \<and> flushing t"
proof (cases "waiting s")
  case True
  with assms show ?thesis by (blast intro: dr_drains.refl)
next
  case False
  with dr_inv_reachable [OF assms(1)] assms(2) obtain xs ys
    where "src s = xs @ sentinel # ys" "sentinel \<notin> set xs"
    by (auto simp: dr_inv_def two_sentinels_def)
  from dr_drains_to_sentinel [OF this False] assms(2) show ?thesis
    by (metis (no_types, lifting) delay_state.ext_inject delay_state.surjective
        delay_state.update_convs(1,2,4))
qed

definition sample_flushing :: delay_state where
  "sample_flushing = dr_flush_begin ''pause'' (dr_publish ''a'' (NewDelayRelay ''pause''))"

theorem delay_relay_flush_completes_witness:
  "flushing sample_flushing \<and> (\<exists>t. dr_drains ''pause'' sample_flushing t \<and> waiting t \<and> flushing t)"
proof -
  have r: "dr_reachable ''pause'' sample_flushing"
    unfolding sample_flushing_def
    by (intro dr_reachable.step [OF _ dr_step.publish] dr_reachable.step [OF _ dr_step.flush_begin]
      dr_reachable.init) (simp_all add: dr_ops)
  have f: "flushing sample_flushing" by (simp add: sample_flushing_def dr_ops)
  show ?thesis using f delay_relay_flush_completes [OF r f] by blast
qed

end
