(* ===== verification/Json.thy ===== *)
theory Json
  imports GoText
begin

text \<open>
  JSON values and what \<open>encoding/json\<close> does with a struct of strings. The model starts at the
  parsed value: the text layer (quoting, white space, numbers as text) is that of the standard
  library and the value is what it delivers.
\<close>

datatype json =
    JNull
  | JBool bool
  | JNumber string
  | JString string
  | JArray "json list"
  | JObject "(string \<times> json) list"

definition to_lower :: "char \<Rightarrow> char" where
  "to_lower c = (let n = of_char c :: nat in if 65 \<le> n \<and> n \<le> 90 then char_of (n + 32) else c)"

definition fold_equal :: "string \<Rightarrow> string \<Rightarrow> bool" where
  "fold_equal s t = (map to_lower s = map to_lower t)"

text \<open>The field a key is stored in: the one of that exact name, else the first one that is equal up
  to case.\<close>

definition json_field :: "string list \<Rightarrow> string \<Rightarrow> string option" where
  "json_field names key =
     (if key \<in> set names then Some key else find (fold_equal key) names)"

text \<open>The text of a floating point number, which JSON may be unable to express.\<close>

type_synonym 'f num_text = "'f \<Rightarrow> err + string"

definition json_err_type :: err where
  "json_err_type = ''json: cannot unmarshal value into Go struct field''"

text \<open>
  \<open>json.Unmarshal\<close> into a struct whose fields are strings: the members in order, a later one
  of the same field overwriting an earlier one, \<open>null\<close> leaving the field, a value of another
  kind leaving the field and making the call fail once every member has been read.
\<close>

fun json_members ::
  "string list \<Rightarrow> (string \<times> json) list \<Rightarrow> (string \<Rightarrow> string) \<Rightarrow> (string \<Rightarrow> string) \<times> err option"
where
  "json_members names [] st = (st, None)"
| "json_members names ((k, v) # ms) st =
     (case json_field names k of
        None \<Rightarrow> json_members names ms st
      | Some f \<Rightarrow>
          (case v of
             JString s \<Rightarrow> json_members names ms (st(f := s))
           | JNull \<Rightarrow> json_members names ms st
           | _ \<Rightarrow> (fst (json_members names ms st), Some json_err_type)))"

definition json_strings :: "string list \<Rightarrow> json \<Rightarrow> err + (string \<Rightarrow> string)" where
  "json_strings names j =
     (case j of
        JObject ms \<Rightarrow>
          (case json_members names ms (\<lambda>_. []) of
             (st, None) \<Rightarrow> Inr st
           | (st, Some e) \<Rightarrow> Inl e)
      | JNull \<Rightarrow> Inr (\<lambda>_. [])
      | _ \<Rightarrow> Inl json_err_type)"

lemma json_field_exact [simp]: "k \<in> set names \<Longrightarrow> json_field names k = Some k"
  by (simp add: json_field_def)

lemma json_members_strings:
  assumes "set (map fst kvs) \<subseteq> set names"
  shows "json_members names (map (\<lambda>(k, s). (k, JString s)) kvs) st =
           (fold (\<lambda>(k, s) st. st(k := s)) kvs st, None)"
  using assms by (induction kvs arbitrary: st) auto

lemma fold_upd_other:
  "k \<notin> set (map fst kvs) \<Longrightarrow> fold (\<lambda>(k, s) st. st(k := s)) kvs st k = st k"
  by (induction kvs arbitrary: st) auto

lemma fold_upd_lookup:
  assumes "distinct (map fst kvs)" and "(k, s) \<in> set kvs"
  shows "fold (\<lambda>(k, s) st. st(k := s)) kvs st k = s"
  using assms by (induction kvs arbitrary: st) (auto simp: fold_upd_other rev_image_eqI)

text \<open>A struct of strings written member by member is read back member by member.\<close>

lemma json_strings_lookup:
  assumes "distinct (map fst kvs)" and "set (map fst kvs) \<subseteq> set names" and "(k, s) \<in> set kvs"
  shows "\<exists>st. json_strings names (JObject (map (\<lambda>(k, s). (k, JString s)) kvs)) = Inr st \<and> st k = s"
  using assms by (simp add: json_strings_def json_members_strings fold_upd_lookup)

section \<open>Structs with fields of several kinds\<close>

text \<open>Each field comes with the test of the values it takes; the result maps a field to the value it
  was given (\<open>JNull\<close> when none was) and says whether some value did not fit.\<close>

fun json_typed_members ::
  "(string \<times> (json \<Rightarrow> bool)) list \<Rightarrow> (string \<times> json) list \<Rightarrow> (string \<Rightarrow> json) \<Rightarrow> (string \<Rightarrow> json) \<times> err option"
where
  "json_typed_members fields [] st = (st, None)"
| "json_typed_members fields ((k, v) # ms) st =
     (case json_field (map fst fields) k of
        None \<Rightarrow> json_typed_members fields ms st
      | Some f \<Rightarrow>
          if v = JNull then json_typed_members fields ms st
          else if (case map_of fields f of None \<Rightarrow> False | Some accepts \<Rightarrow> accepts v)
          then json_typed_members fields ms (st(f := v))
          else (fst (json_typed_members fields ms st), Some json_err_type))"

definition json_struct ::
  "(string \<times> (json \<Rightarrow> bool)) list \<Rightarrow> json \<Rightarrow> (string \<Rightarrow> json) \<times> err option"
where
  "json_struct fields j =
     (case j of
        JObject ms \<Rightarrow> json_typed_members fields ms (\<lambda>_. JNull)
      | JNull \<Rightarrow> (\<lambda>_. JNull, None)
      | _ \<Rightarrow> (\<lambda>_. JNull, Some json_err_type))"

definition is_jstring :: "json \<Rightarrow> bool" where
  "is_jstring j = (case j of JString s \<Rightarrow> True | _ \<Rightarrow> False)"

definition is_jbool :: "json \<Rightarrow> bool" where
  "is_jbool j = (case j of JBool b \<Rightarrow> True | _ \<Rightarrow> False)"

definition jstring :: "json \<Rightarrow> string" where
  "jstring j = (case j of JString s \<Rightarrow> s | _ \<Rightarrow> [])"

definition jbool :: "json \<Rightarrow> bool" where
  "jbool j = (case j of JBool b \<Rightarrow> b | _ \<Rightarrow> False)"

end
