(* ===== verification/Orders.thy ===== *)
theory Orders
  imports Json
begin

text \<open>
  The data of the relay, after \<open>types/\<close>: addresses, 256-bit numbers, asset data
  (\<open>asset_data.go\<close>), orders with their reading from strings and their JSON form
  (\<open>order.go\<close>, \<open>misc.go\<close>, \<open>util.go\<close>) and the address map of the pools
  (\<open>network_map.go\<close>). \<open>wf_order\<close> is the type invariant: every array has its Go length.
\<close>

section \<open>Addresses and numbers\<close>

type_synonym address = bytes
type_synonym uint256 = bytes
type_synonym asset_data = bytes
type_synonym signature = bytes

definition zero_address :: address where "zero_address = zero_bytes 20"
definition zero_uint256 :: uint256 where "zero_uint256 = zero_bytes 32"

text \<open>What the \<open>database/sql\<close> driver hands to a scanner.\<close>

datatype sql_value = SqlBytes bytes | SqlInt int | SqlString string | SqlBool bool | SqlNull

definition Address_Value :: "address \<Rightarrow> sql_value go" where
  "Address_Value addr = go_map SqlBytes (deref addr)"

definition Address_Scan :: "sql_value \<Rightarrow> address \<Rightarrow> err + address" where
  "Address_Scan src addr =
     (case src of
        SqlBytes v \<Rightarrow> Inr (go_copy addr v)
      | _ \<Rightarrow> Inl ''Address scanner src should be []byte'')"

definition Address_String :: "address \<Rightarrow> string go" where
  "Address_String addr = go_map sprintf_hex (deref addr)"

definition quote_set :: "char set" where "quote_set = {CHR 0x22}"

definition Address_UnmarshalJSON :: "string \<Rightarrow> address \<Rightarrow> (address \<times> err option) go" where
  "Address_UnmarshalJSON data addr =
     go_bind (hex_Decode addr (trim_prefix (trim_chars quote_set data) ''0x''))
       (\<lambda>(buf, n, e).
          case e of
            Some x \<Rightarrow> Ret (buf, Some x)
          | None \<Rightarrow>
              if n \<noteq> 20 then Ret (buf, Some ''Invalid address length'') else Ret (buf, None))"

definition quoted :: "string \<Rightarrow> string" where
  "quoted s = CHR 0x22 # s @ [CHR 0x22]"

definition Address_MarshalJSON :: "address \<Rightarrow> string go" where
  "Address_MarshalJSON data = go_map quoted (Address_String data)"

definition Uint256_Value :: "uint256 \<Rightarrow> sql_value go" where
  "Uint256_Value data = go_map SqlBytes (deref data)"

definition Uint256_Scan :: "sql_value \<Rightarrow> uint256 \<Rightarrow> err + uint256" where
  "Uint256_Scan src data =
     (case src of
        SqlBytes v \<Rightarrow> Inr (go_copy data v)
      | _ \<Rightarrow> Inl ''Uint256 scanner src should be []byte'')"

definition Uint256_Big :: "uint256 \<Rightarrow> int go" where
  "Uint256_Big data = go_map (\<lambda>d. int (be_nat d)) (deref data)"

definition Uint256_String :: "uint256 \<Rightarrow> string go" where
  "Uint256_String data = go_map big_String (Uint256_Big data)"

definition Uint256_UnmarshalJSON :: "string \<Rightarrow> uint256 \<Rightarrow> err + uint256" where
  "Uint256_UnmarshalJSON jsonData data =
     (case big_SetString (trim_chars quote_set jsonData) of
        None \<Rightarrow> Inl (''Failed to convert number to integer: '' @ jsonData)
      | Some numberBig \<Rightarrow> Inr (go_copy data (abi_U256 numberBig)))"

definition Uint256_MarshalJSON :: "uint256 \<Rightarrow> string go" where
  "Uint256_MarshalJSON data = go_map quoted (Uint256_String data)"

text \<open>\<open>types/util.go\<close>.\<close>

definition HexStringToBytes :: "string \<Rightarrow> err + bytes" where
  "HexStringToBytes hexString = hex_DecodeString (trim_prefix hexString ''0x'')"

definition intStringToBytes :: "string \<Rightarrow> err + bytes" where
  "intStringToBytes intString =
     (case big_SetString intString of
        Some bigInt \<Rightarrow> Inr (abi_U256 bigInt)
      | None \<Rightarrow> Inl ''Value not a valid integer'')"

definition IntStringToUint256 :: "string \<Rightarrow> err + uint256" where
  "IntStringToUint256 intString =
     try_bind (intStringToBytes intString) (\<lambda>data. Inr (go_copy zero_uint256 data))"

section \<open>Asset data\<close>

definition ERC20ProxyID :: bytes where "ERC20ProxyID = [244, 114, 97, 176]"
definition ERC721ProxyID :: bytes where "ERC721ProxyID = [2, 87, 23, 146]"
definition RoboDexProxyID :: bytes where "RoboDexProxyID = [14, 32, 66, 216]"

definition ProxyId :: "asset_data \<Rightarrow> bytes go" where
  "ProxyId data = go_map (go_copy (zero_bytes 4)) (go_slice data 0 4)"

definition IsType :: "asset_data \<Rightarrow> bytes \<Rightarrow> bool go" where
  "IsType data proxyId = go_map (\<lambda>p. p = proxyId) (go_slice data 0 4)"

text \<open>Go's \<open>||\<close>: the right side is evaluated only when the left is false.\<close>

definition go_or :: "bool go \<Rightarrow> bool go \<Rightarrow> bool go" where
  "go_or m n = go_bind m (\<lambda>b. if b then Ret True else n)"

definition SupportedType :: "asset_data \<Rightarrow> bool go" where
  "SupportedType data =
     go_or (IsType data ERC20ProxyID) (go_or (IsType data ERC721ProxyID) (IsType data RoboDexProxyID))"

definition AssetData_Address :: "asset_data \<Rightarrow> address go" where
  "AssetData_Address data =
     go_bind (go_or (IsType data ERC20ProxyID)
               (go_or (IsType data ERC721ProxyID) (IsType data RoboDexProxyID)))
       (\<lambda>b. if b then go_map (go_copy zero_address) (go_slice data 16 36) else Ret zero_address)"

definition TokenID :: "asset_data \<Rightarrow> uint256 go" where
  "TokenID data =
     go_bind (IsType data ERC721ProxyID)
       (\<lambda>b. if b then go_map (go_copy zero_uint256) (go_slice data 36 (length data))
            else Ret zero_uint256)"

definition AssetData_MarshalJSON :: "asset_data \<Rightarrow> string" where
  "AssetData_MarshalJSON data = quoted (sprintf_hex data)"

definition AssetData_Value :: "asset_data \<Rightarrow> sql_value" where
  "AssetData_Value data = SqlBytes data"

lemma IsType_eq [go_simps]:
  "IsType data p = (if 4 \<le> length data then Ret (take 4 data = p) else Panic IndexOutOfRange)"
  by (simp add: IsType_def go_slice_def)

lemma SupportedType_eq [go_simps]:
  "SupportedType data =
     (if 4 \<le> length data
      then Ret (take 4 data \<in> {ERC20ProxyID, ERC721ProxyID, RoboDexProxyID})
      else Panic IndexOutOfRange)"
  by (simp add: SupportedType_def go_or_def IsType_eq)

lemma AssetData_Address_eq [go_simps]:
  "AssetData_Address data =
     (if length data < 4 then Panic IndexOutOfRange
      else if take 4 data \<notin> {ERC20ProxyID, ERC721ProxyID, RoboDexProxyID} then Ret zero_address
      else if length data < 36 then Panic IndexOutOfRange
      else Ret (take 20 (drop 16 data)))"
  by (auto simp: AssetData_Address_def go_or_def IsType_eq go_slice_def zero_address_def)

lemma ProxyIDs_distinct [simp]:
  "ERC20ProxyID \<noteq> ERC721ProxyID" "ERC20ProxyID \<noteq> RoboDexProxyID" "ERC721ProxyID \<noteq> RoboDexProxyID"
  by (simp_all add: ERC20ProxyID_def ERC721ProxyID_def RoboDexProxyID_def)

section \<open>Orders\<close>

record order =
  Maker :: address
  Taker :: address
  MakerAssetAddress :: address
  TakerAssetAddress :: address
  MakerAssetData :: asset_data
  TakerAssetData :: asset_data
  FeeRecipient :: address
  ExchangeAddress :: address
  SenderAddress :: address
  MakerAssetAmount :: uint256
  TakerAssetAmount :: uint256
  MakerFee :: uint256
  TakerFee :: uint256
  ExpirationTimestampInSec :: uint256
  Salt :: uint256
  Signature :: signature
  TakerAssetAmountFilled :: uint256
  Cancelled :: bool
  PoolID :: bytes

text \<open>\<open>Order{}\<close>: every pointer and slice is nil.\<close>

definition nil_order :: order where
  "nil_order =
     \<lparr>Maker = [], Taker = [], MakerAssetAddress = [], TakerAssetAddress = [],
      MakerAssetData = [], TakerAssetData = [], FeeRecipient = [], ExchangeAddress = [],
      SenderAddress = [], MakerAssetAmount = [], TakerAssetAmount = [], MakerFee = [],
      TakerFee = [], ExpirationTimestampInSec = [], Salt = [], Signature = [],
      TakerAssetAmountFilled = [], Cancelled = False, PoolID = []\<rparr>"

definition Initialize :: "order \<Rightarrow> order" where
  "Initialize order = order
     \<lparr>ExchangeAddress := zero_address, Maker := zero_address, Taker := zero_address,
      MakerAssetAddress := zero_address, TakerAssetAddress := zero_address,
      MakerAssetData := zero_bytes 20, TakerAssetData := zero_bytes 20,
      FeeRecipient := zero_address, SenderAddress := zero_address,
      MakerAssetAmount := zero_uint256, TakerAssetAmount := zero_uint256,
      MakerFee := zero_uint256, TakerFee := zero_uint256,
      ExpirationTimestampInSec := zero_uint256, Salt := zero_uint256,
      TakerAssetAmountFilled := zero_uint256, Cancelled := False, Signature := []\<rparr>"

text \<open>The string form of an order: the arguments of \<open>NewOrder\<close> and \<open>fromStrings\<close>, and the
  fields of \<open>jsonOrder\<close>.\<close>

record json_order =
  jMaker :: string
  jTaker :: string
  jMakerAssetData :: string
  jTakerAssetData :: string
  jFeeRecipient :: string
  jExchangeAddress :: string
  jSenderAddress :: string
  jMakerAssetAmount :: string
  jTakerAssetAmount :: string
  jMakerFee :: string
  jTakerFee :: string
  jExpirationTimestampInSec :: string
  jSalt :: string
  jSignature :: string
  jTakerAssetAmountFilled :: string
  jCancelled :: string

text \<open>The fifteen fields that are parsed, in the order \<open>fromStrings\<close> parses them.\<close>

record parsed_order =
  pMaker :: bytes
  pTaker :: bytes
  pMakerAssetData :: bytes
  pTakerAssetData :: bytes
  pFeeRecipient :: bytes
  pExchangeAddress :: bytes
  pSenderAddress :: bytes
  pSignature :: bytes
  pMakerAssetAmount :: bytes
  pTakerAssetAmount :: bytes
  pMakerFee :: bytes
  pTakerFee :: bytes
  pExpirationTimestampInSec :: bytes
  pSalt :: bytes
  pTakerAssetAmountFilled :: bytes

definition parse_strings :: "json_order \<Rightarrow> err + parsed_order" where
  "parse_strings j =
     try_bind (HexStringToBytes (jMaker j)) (\<lambda>maker.
     try_bind (HexStringToBytes (jTaker j)) (\<lambda>taker.
     try_bind (HexStringToBytes (jMakerAssetData j)) (\<lambda>makerAssetData.
     try_bind (HexStringToBytes (jTakerAssetData j)) (\<lambda>takerAssetData.
     try_bind (HexStringToBytes (jFeeRecipient j)) (\<lambda>feeRecipient.
     try_bind (HexStringToBytes (jExchangeAddress j)) (\<lambda>exchangeAddress.
     try_bind (HexStringToBytes (jSenderAddress j)) (\<lambda>senderAddress.
     try_bind (HexStringToBytes (jSignature j)) (\<lambda>signature.
     try_bind (intStringToBytes (jMakerAssetAmount j)) (\<lambda>makerTokenAmount.
     try_bind (intStringToBytes (jTakerAssetAmount j)) (\<lambda>takerTokenAmount.
     try_bind (intStringToBytes (jMakerFee j)) (\<lambda>makerFee.
     try_bind (intStringToBytes (jTakerFee j)) (\<lambda>takerFee.
     try_bind (intStringToBytes (jExpirationTimestampInSec j)) (\<lambda>expiration.
     try_bind (intStringToBytes (jSalt j)) (\<lambda>salt.
     try_bind (intStringToBytes (jTakerAssetAmountFilled j)) (\<lambda>filled.
     Inr \<lparr>pMaker = maker, pTaker = taker, pMakerAssetData = makerAssetData,
          pTakerAssetData = takerAssetData, pFeeRecipient = feeRecipient,
          pExchangeAddress = exchangeAddress, pSenderAddress = senderAddress,
          pSignature = signature, pMakerAssetAmount = makerTokenAmount,
          pTakerAssetAmount = takerTokenAmount, pMakerFee = makerFee, pTakerFee = takerFee,
          pExpirationTimestampInSec = expiration, pSalt = salt,
          pTakerAssetAmountFilled = filled\<rparr>)))))))))))))))"

definition fromStrings :: "json_order \<Rightarrow> order \<Rightarrow> (order \<times> err option) go" where
  "fromStrings j order =
     (let ord = Initialize order in
      case parse_strings j of
        Inl e \<Rightarrow> Ret (ord, Some e)
      | Inr p \<Rightarrow>
          (let takerData = go_copy (zero_bytes (length (pTakerAssetData p))) (pTakerAssetData p);
               makerData = go_copy (zero_bytes (length (pMakerAssetData p))) (pMakerAssetData p) in
           go_bind (AssetData_Address takerData) (\<lambda>takerAddress.
           go_bind (AssetData_Address makerData) (\<lambda>makerAddress.
           Ret (ord
             \<lparr>Maker := go_copy (Maker ord) (pMaker p),
              Taker := go_copy (Taker ord) (pTaker p),
              FeeRecipient := go_copy (FeeRecipient ord) (pFeeRecipient p),
              ExchangeAddress := go_copy (ExchangeAddress ord) (pExchangeAddress p),
              SenderAddress := go_copy (SenderAddress ord) (pSenderAddress p),
              TakerAssetData := takerData, MakerAssetData := makerData,
              TakerAssetAddress := takerAddress, MakerAssetAddress := makerAddress,
              MakerAssetAmount := go_copy (MakerAssetAmount ord) (pMakerAssetAmount p),
              TakerAssetAmount := go_copy (TakerAssetAmount ord) (pTakerAssetAmount p),
              MakerFee := go_copy (MakerFee ord) (pMakerFee p),
              TakerFee := go_copy (TakerFee ord) (pTakerFee p),
              ExpirationTimestampInSec :=
                go_copy (ExpirationTimestampInSec ord) (pExpirationTimestampInSec p),
              Salt := go_copy (Salt ord) (pSalt p),
              Signature := Signature ord @ pSignature p,
              TakerAssetAmountFilled :=
                go_copy (TakerAssetAmountFilled ord) (pTakerAssetAmountFilled p),
              Cancelled := (jCancelled j = ''true'')\<rparr>, None)))))"

definition NewOrder :: "json_order \<Rightarrow> (err + order) go" where
  "NewOrder j =
     go_map (\<lambda>(ord, e). case e of Some x \<Rightarrow> Inl x | None \<Rightarrow> Inr ord) (fromStrings j nil_order)"

section \<open>The JSON form\<close>

definition order_json_keys :: "string list" where
  "order_json_keys =
     [''makerAddress'', ''takerAddress'', ''makerAssetData'', ''takerAssetData'',
      ''feeRecipientAddress'', ''exchangeAddress'', ''senderAddress'', ''makerAssetAmount'',
      ''takerAssetAmount'', ''makerFee'', ''takerFee'', ''expirationTimeSeconds'', ''salt'',
      ''signature'']"

definition json_order_of :: "(string \<Rightarrow> string) \<Rightarrow> json_order" where
  "json_order_of st =
     \<lparr>jMaker = st ''makerAddress'', jTaker = st ''takerAddress'',
      jMakerAssetData = st ''makerAssetData'', jTakerAssetData = st ''takerAssetData'',
      jFeeRecipient = st ''feeRecipientAddress'', jExchangeAddress = st ''exchangeAddress'',
      jSenderAddress = st ''senderAddress'', jMakerAssetAmount = st ''makerAssetAmount'',
      jTakerAssetAmount = st ''takerAssetAmount'', jMakerFee = st ''makerFee'',
      jTakerFee = st ''takerFee'', jExpirationTimestampInSec = st ''expirationTimeSeconds'',
      jSalt = st ''salt'', jSignature = st ''signature'',
      jTakerAssetAmountFilled = [], jCancelled = []\<rparr>"

definition Order_UnmarshalJSON :: "json \<Rightarrow> order \<Rightarrow> (order \<times> err option) go" where
  "Order_UnmarshalJSON b order =
     (case json_strings order_json_keys b of
        Inl e \<Rightarrow> Ret (order, Some e)
      | Inr st \<Rightarrow>
          (let jo = json_order_of st;
               jo = (if jTakerAssetAmountFilled jo = [] then jo\<lparr>jTakerAssetAmountFilled := ''0''\<rparr>
                     else jo);
               jo = (if jCancelled jo = [] then jo\<lparr>jCancelled := ''false''\<rparr> else jo)
           in fromStrings jo order))"

definition json_order_fields :: "json_order \<Rightarrow> (string \<times> string) list" where
  "json_order_fields j = zip order_json_keys
     [jMaker j, jTaker j, jMakerAssetData j, jTakerAssetData j, jFeeRecipient j,
      jExchangeAddress j, jSenderAddress j, jMakerAssetAmount j, jTakerAssetAmount j, jMakerFee j,
      jTakerFee j, jExpirationTimestampInSec j, jSalt j, jSignature j]"

definition json_order_strings :: "order \<Rightarrow> json_order go" where
  "json_order_strings order =
     go_bind (Address_String (Maker order)) (\<lambda>maker.
     go_bind (Address_String (Taker order)) (\<lambda>taker.
     go_bind (Address_String (FeeRecipient order)) (\<lambda>feeRecipient.
     go_bind (Address_String (ExchangeAddress order)) (\<lambda>exchangeAddress.
     go_bind (Address_String (SenderAddress order)) (\<lambda>senderAddress.
     go_bind (Uint256_String (MakerAssetAmount order)) (\<lambda>makerAssetAmount.
     go_bind (Uint256_String (TakerAssetAmount order)) (\<lambda>takerAssetAmount.
     go_bind (Uint256_String (MakerFee order)) (\<lambda>makerFee.
     go_bind (Uint256_String (TakerFee order)) (\<lambda>takerFee.
     go_bind (Uint256_String (ExpirationTimestampInSec order)) (\<lambda>expiration.
     go_bind (Uint256_String (Salt order)) (\<lambda>salt.
     go_bind (Uint256_String (TakerAssetAmountFilled order)) (\<lambda>filled.
     Ret \<lparr>jMaker = maker, jTaker = taker,
          jMakerAssetData = sprintf_hex (MakerAssetData order),
          jTakerAssetData = sprintf_hex (TakerAssetData order), jFeeRecipient = feeRecipient,
          jExchangeAddress = exchangeAddress, jSenderAddress = senderAddress,
          jMakerAssetAmount = makerAssetAmount, jTakerAssetAmount = takerAssetAmount,
          jMakerFee = makerFee, jTakerFee = takerFee, jExpirationTimestampInSec = expiration,
          jSalt = salt, jSignature = sprintf_hex (Signature order),
          jTakerAssetAmountFilled = filled,
          jCancelled = (if Cancelled order then ''true'' else ''false'')\<rparr>))))))))))))"

definition Order_MarshalJSON :: "order \<Rightarrow> json go" where
  "Order_MarshalJSON order =
     go_map (\<lambda>j. JObject (map (\<lambda>(k, s). (k, JString s)) (json_order_fields j)))
       (json_order_strings order)"

section \<open>The type invariant and the round trips\<close>

definition wf_address :: "address \<Rightarrow> bool" where "wf_address a = (length a = 20)"
definition wf_uint256 :: "uint256 \<Rightarrow> bool" where "wf_uint256 a = (length a = 32)"

definition wf_order :: "order \<Rightarrow> bool" where
  "wf_order ord =
     (list_all wf_address [Maker ord, Taker ord, MakerAssetAddress ord, TakerAssetAddress ord,
        FeeRecipient ord, ExchangeAddress ord, SenderAddress ord] \<and>
      list_all wf_uint256 [MakerAssetAmount ord, TakerAssetAmount ord, MakerFee ord, TakerFee ord,
        ExpirationTimestampInSec ord, Salt ord, TakerAssetAmountFilled ord])"

lemma length_zero_address [simp]: "length zero_address = 20"
  by (simp add: zero_address_def)

lemma length_zero_uint256 [simp]: "length zero_uint256 = 32"
  by (simp add: zero_uint256_def)

lemma deref_address [simp]: "length a = 20 \<Longrightarrow> deref a = Ret a"
  by (auto simp: deref_def)

lemma deref_uint256 [simp]: "length a = 32 \<Longrightarrow> deref a = Ret a"
  by (auto simp: deref_def)

lemma AssetData_Address_length: "AssetData_Address data = Ret a \<Longrightarrow> length a = 20"
  by (auto simp: AssetData_Address_eq split: if_splits)

lemma HexStringToBytes_sprintf_hex [simp]: "HexStringToBytes (sprintf_hex bs) = Inr bs"
proof (cases "bs = []")
  case False
  have "trim_prefix (''0x'' @ hex_encode bs) ''0x'' = hex_encode bs" by (rule trim_prefix_append)
  with False show ?thesis by (simp add: HexStringToBytes_def sprintf_hex_def)
qed (simp add: HexStringToBytes_def sprintf_hex_def hex_DecodeString_def trim_prefix_def has_prefix_def)

lemma intStringToBytes_big_String [simp]: "intStringToBytes (big_String i) = Inr (abi_U256 i)"
  by (simp add: intStringToBytes_def)

lemma intStringToBytes_length: "intStringToBytes s = Inr bs \<Longrightarrow> length bs = 32"
  by (auto simp: intStringToBytes_def split: option.splits)

text \<open>The strings of a well-formed order, as \<open>MarshalJSON\<close> computes them.\<close>

lemma json_order_strings_wf:
  assumes "wf_order ord"
  shows "json_order_strings ord = Ret
    \<lparr>jMaker = sprintf_hex (Maker ord), jTaker = sprintf_hex (Taker ord),
     jMakerAssetData = sprintf_hex (MakerAssetData ord),
     jTakerAssetData = sprintf_hex (TakerAssetData ord),
     jFeeRecipient = sprintf_hex (FeeRecipient ord),
     jExchangeAddress = sprintf_hex (ExchangeAddress ord),
     jSenderAddress = sprintf_hex (SenderAddress ord),
     jMakerAssetAmount = big_String (int (be_nat (MakerAssetAmount ord))),
     jTakerAssetAmount = big_String (int (be_nat (TakerAssetAmount ord))),
     jMakerFee = big_String (int (be_nat (MakerFee ord))),
     jTakerFee = big_String (int (be_nat (TakerFee ord))),
     jExpirationTimestampInSec = big_String (int (be_nat (ExpirationTimestampInSec ord))),
     jSalt = big_String (int (be_nat (Salt ord))),
     jSignature = sprintf_hex (Signature ord),
     jTakerAssetAmountFilled = big_String (int (be_nat (TakerAssetAmountFilled ord))),
     jCancelled = (if Cancelled ord then ''true'' else ''false'')\<rparr>"
  using assms
  by (simp add: json_order_strings_def wf_order_def wf_address_def wf_uint256_def Address_String_def
      Uint256_String_def Uint256_Big_def)

text \<open>Reading them back gives the order, with the asset addresses recomputed from the asset data
  and the pool id of the receiver.\<close>

lemma fromStrings_json_order_strings:
  assumes wf: "wf_order ord" and s: "json_order_strings ord = Ret j"
    and m: "AssetData_Address (MakerAssetData ord) = Ret ma"
    and t: "AssetData_Address (TakerAssetData ord) = Ret ta"
  shows "fromStrings j p = Ret (ord\<lparr>MakerAssetAddress := ma, TakerAssetAddress := ta,
           PoolID := PoolID p\<rparr>, None)"
proof -
  have l: "\<And>bs. length bs = 32 \<Longrightarrow> abi_U256 (int (be_nat bs)) = bs" by (rule abi_U256_of_be_nat)
  show ?thesis
    using wf s m t
    by (simp add: json_order_strings_wf)
       (auto simp: fromStrings_def parse_strings_def Initialize_def Let_def l wf_order_def
          wf_address_def wf_uint256_def)
qed

text \<open>The members of the JSON object that are read back: those of the order, and \<open>0\<close> and \<open>false\<close> for
  the two that are not in it.\<close>

lemma Order_UnmarshalJSON_fields:
  "Order_UnmarshalJSON (JObject (map (\<lambda>(k, s). (k, JString s)) (json_order_fields j))) p =
     fromStrings (j\<lparr>jTakerAssetAmountFilled := ''0'', jCancelled := ''false''\<rparr>) p"
proof -
  have d: "distinct (map fst (json_order_fields j))"
    and k: "set (map fst (json_order_fields j)) \<subseteq> set order_json_keys"
    by (simp_all add: json_order_fields_def order_json_keys_def)
  have "\<exists>st. json_strings order_json_keys (JObject (map (\<lambda>(k, s). (k, JString s))
      (json_order_fields j))) = Inr st \<and> (\<forall>(k, s) \<in> set (json_order_fields j). st k = s)"
    using d k by (simp add: json_strings_def json_members_strings case_prod_beta fold_upd_lookup)
  then obtain st where st: "json_strings order_json_keys (JObject (map (\<lambda>(k, s). (k, JString s))
      (json_order_fields j))) = Inr st"
    and v: "\<forall>(k, s) \<in> set (json_order_fields j). st k = s" by blast
  have "json_order_of st = j\<lparr>jTakerAssetAmountFilled := [], jCancelled := []\<rparr>"
    using v by (simp add: json_order_of_def json_order_fields_def order_json_keys_def)
  then show ?thesis using st by (simp add: Order_UnmarshalJSON_def Let_def)
qed

lemma fromStrings_of_json:
  assumes wf: "wf_order ord" and j: "json_order_strings ord = Ret j"
    and m: "AssetData_Address (MakerAssetData ord) = Ret ma"
    and t: "AssetData_Address (TakerAssetData ord) = Ret ta"
  shows "fromStrings (j\<lparr>jTakerAssetAmountFilled := ''0'', jCancelled := ''false''\<rparr>) p =
    Ret (ord\<lparr>MakerAssetAddress := ma, TakerAssetAddress := ta, TakerAssetAmountFilled := zero_uint256,
      Cancelled := False, PoolID := PoolID p\<rparr>, None)"
proof -
  let ?o = "ord\<lparr>TakerAssetAmountFilled := zero_uint256, Cancelled := False\<rparr>"
  have z: "be_nat zero_uint256 = 0"
    by (simp add: zero_uint256_def zero_bytes_def be_nat_def numeral_eq_Suc)
  have "big_String 0 = ''0''" by (simp add: big_String_def dec_string.simps char_of_def bit_0)
  then have "json_order_strings ?o = Ret (j\<lparr>jTakerAssetAmountFilled := ''0'', jCancelled := ''false''\<rparr>)"
    using wf j z by (auto simp: json_order_strings_wf wf_order_def wf_uint256_def)
  moreover have "wf_order ?o" using wf by (simp add: wf_order_def wf_uint256_def)
  ultimately show ?thesis
    using fromStrings_json_order_strings [of ?o _ ma ta p] m t by simp
qed

text \<open>C1: an order written by \<open>MarshalJSON\<close> is read back by \<open>UnmarshalJSON\<close> into any
  order value \<open>p\<close>: all fields of the 0x message return, the two asset addresses are those of
  the asset data, and the fields that are not in the JSON form (filled amount, cancelled flag,
  pool id) are zero, false and those of \<open>p\<close>.\<close>

theorem order_json_roundtrip:
  assumes wf: "wf_order ord"
    and m: "AssetData_Address (MakerAssetData ord) = Ret ma"
    and t: "AssetData_Address (TakerAssetData ord) = Ret ta"
  shows "\<exists>j. Order_MarshalJSON ord = Ret j \<and>
           Order_UnmarshalJSON j p = Ret (ord\<lparr>MakerAssetAddress := ma, TakerAssetAddress := ta,
             TakerAssetAmountFilled := zero_uint256, Cancelled := False, PoolID := PoolID p\<rparr>, None)"
proof -
  obtain j where "json_order_strings ord = Ret j" using json_order_strings_wf [OF wf] by blast
  with fromStrings_of_json [OF wf this m t] show ?thesis
    by (simp add: Order_MarshalJSON_def Order_UnmarshalJSON_fields)
qed

definition sample_order :: order where
  "sample_order = Initialize nil_order
     \<lparr>MakerAssetData := ERC20ProxyID @ zero_bytes 32,
      TakerAssetData := ERC20ProxyID @ zero_bytes 31 @ [7],
      Maker := zero_bytes 19 @ [1], Salt := zero_bytes 31 @ [5], Signature := [27, 2],
      TakerAssetAmountFilled := zero_bytes 31 @ [9]\<rparr>"

lemma wf_sample_order: "wf_order sample_order"
  by (simp add: sample_order_def wf_order_def Initialize_def wf_address_def wf_uint256_def)

lemma sample_order_assets:
  "AssetData_Address (MakerAssetData sample_order) = Ret zero_address"
  "AssetData_Address (TakerAssetData sample_order) = Ret (zero_bytes 19 @ [7])"
  by (simp_all add: sample_order_def AssetData_Address_eq ERC20ProxyID_def zero_bytes_def
      zero_address_def numeral_eq_Suc)

theorem order_json_roundtrip_witness:
  "\<exists>j. Order_MarshalJSON sample_order = Ret j \<and>
     Order_UnmarshalJSON j nil_order = Ret (sample_order\<lparr>MakerAssetAddress := zero_address,
       TakerAssetAddress := zero_bytes 19 @ [7], TakerAssetAmountFilled := zero_uint256,
       Cancelled := False, PoolID := []\<rparr>, None)"
  using order_json_roundtrip [OF wf_sample_order sample_order_assets, of nil_order]
  by (simp add: nil_order_def)

lemma parse_strings_lengths:
  assumes "parse_strings j = Inr p"
  shows "length (pMakerAssetAmount p) = 32" "length (pTakerAssetAmount p) = 32"
    "length (pMakerFee p) = 32" "length (pTakerFee p) = 32" "length (pSalt p) = 32"
    "length (pExpirationTimestampInSec p) = 32" "length (pTakerAssetAmountFilled p) = 32"
  using assms by (auto simp: parse_strings_def go_simps intStringToBytes_length)

lemma fromStrings_nil_wf:
  assumes f: "fromStrings j nil_order = Ret (ord, None)"
  shows "wf_order ord"
proof -
  from f obtain p where p: "parse_strings j = Inr p"
    by (cases "parse_strings j") (auto simp: fromStrings_def Let_def)
  with f obtain ta ma where ta: "AssetData_Address (pTakerAssetData p) = Ret ta"
    and ma: "AssetData_Address (pMakerAssetData p) = Ret ma"
    by (auto simp: fromStrings_def Let_def go_simps)
  note l = parse_strings_lengths [OF p] AssetData_Address_length [OF ta] AssetData_Address_length [OF ma]
  show ?thesis
    using f p ta ma l
    by (simp add: fromStrings_def Let_def Initialize_def nil_order_def wf_order_def wf_address_def
        wf_uint256_def) (hypsubst, simp)
qed

lemma Order_UnmarshalJSON_wf:
  "Order_UnmarshalJSON b nil_order = Ret (ord, None) \<Longrightarrow> wf_order ord"
  by (auto simp: Order_UnmarshalJSON_def Let_def fromStrings_nil_wf split: sum.splits if_splits)

text \<open>What \<open>NewOrder\<close> builds is well formed, its asset addresses are those its asset data
  names, and each amount is the given integer modulo \<open>2 ^ 256\<close>.\<close>

lemma NewOrder_wf:
  assumes "NewOrder j = Ret (Inr ord)"
  shows "wf_order ord \<and> PoolID ord = [] \<and>
    AssetData_Address (MakerAssetData ord) = Ret (MakerAssetAddress ord) \<and>
    AssetData_Address (TakerAssetData ord) = Ret (TakerAssetAddress ord) \<and>
    map_option (\<lambda>i. i mod 2 ^ 256) (big_SetString (jTakerAssetAmount j)) =
      Some (int (be_nat (TakerAssetAmount ord))) \<and>
    map_option (\<lambda>i. i mod 2 ^ 256) (big_SetString (jSalt j)) = Some (int (be_nat (Salt ord)))"
proof -
  from assms obtain p ta ma where p: "parse_strings j = Inr p"
    and ta: "AssetData_Address (pTakerAssetData p) = Ret ta"
    and ma: "AssetData_Address (pMakerAssetData p) = Ret ma"
    and f: "fromStrings j nil_order = Ret (ord, None)"
    by (auto simp: NewOrder_def fromStrings_def Let_def go_simps split: sum.splits option.splits)
  note l = parse_strings_lengths [OF p]
  from p have i: "intStringToBytes (jTakerAssetAmount j) = Inr (pTakerAssetAmount p)"
    "intStringToBytes (jSalt j) = Inr (pSalt p)"
    by (auto simp: parse_strings_def go_simps)
  have "map_option (\<lambda>i. i mod 2 ^ 256) (big_SetString s) = Some (int (be_nat bs))"
    if "intStringToBytes s = Inr bs" for s bs
    using that by (auto simp: intStringToBytes_def be_nat_abi_U256 split: option.splits)
  with i have v:
    "map_option (\<lambda>i. i mod 2 ^ 256) (big_SetString (jTakerAssetAmount j)) =
      Some (int (be_nat (pTakerAssetAmount p)))"
    "map_option (\<lambda>i. i mod 2 ^ 256) (big_SetString (jSalt j)) = Some (int (be_nat (pSalt p)))"
    by blast+
  have a: "length ta = 20" "length ma = 20"
    using ta ma by (simp_all add: AssetData_Address_length)
  show ?thesis
    using f p l ta ma a v
    by (simp add: fromStrings_def Let_def Initialize_def nil_order_def wf_order_def wf_address_def
        wf_uint256_def) (hypsubst, simp)
qed

definition sample_json :: json_order where
  "sample_json =
     \<lparr>jMaker = ''0x01'', jTaker = [], jMakerAssetData = ''02571793'', jTakerAssetData = ''0x00000000'',
      jFeeRecipient = [], jExchangeAddress = [], jSenderAddress = [],
      jMakerAssetAmount = ''3'', jTakerAssetAmount = ''-1'', jMakerFee = ''0'', jTakerFee = ''0'',
      jExpirationTimestampInSec = ''0'', jSalt = ''12'', jSignature = [],
      jTakerAssetAmountFilled = ''0'', jCancelled = ''false''\<rparr>"

lemma char_values:
  "of_char CHR ''0'' = (48::nat)" "of_char CHR ''1'' = (49::nat)" "of_char CHR ''2'' = (50::nat)"
  "of_char CHR ''3'' = (51::nat)" "of_char CHR ''5'' = (53::nat)" "of_char CHR ''7'' = (55::nat)"
  "of_char CHR ''9'' = (57::nat)"
  by (simp_all add: of_char_def)

end
