(* ===== verification/Rlp.thy ===== *)
theory Rlp
  imports Prelude
begin

text \<open>
  The RLP codec the relay serialises with (\<open>vendor/github.com/ethereum/go-ethereum/rlp\<close>):
  the encoder of strings, lists, unsigned integers and booleans and the decoding stream
  (\<open>Stream\<close>) with its stack of open lists and its canonicity checks. A stream always reads a
  byte slice, so its input limit is the length of what is left.
\<close>

section \<open>Encoder\<close>

definition rlp_head :: "nat \<Rightarrow> nat \<Rightarrow> bytes" where
  "rlp_head small n =
     (if n < 56 then [word_of_nat (small + n)]
      else word_of_nat (small + 55 + length (min_bytes n)) # min_bytes n)"

definition rlp_string :: "bytes \<Rightarrow> bytes" where
  "rlp_string b = (if length b = 1 \<and> hd b \<le> 0x7F then b else rlp_head 0x80 (length b) @ b)"

definition rlp_list :: "bytes \<Rightarrow> bytes" where
  "rlp_list payload = rlp_head 0xC0 (length payload) @ payload"

definition rlp_uint :: "nat \<Rightarrow> bytes" where
  "rlp_uint i =
     (if i = 0 then [0x80] else if i < 128 then [word_of_nat i]
      else word_of_nat (0x80 + length (min_bytes i)) # min_bytes i)"

definition rlp_bool :: "bool \<Rightarrow> bytes" where
  "rlp_bool b = (if b then [0x01] else [0x80])"

section \<open>Decoding stream\<close>

datatype rlp_err =
    EOF | EOL | ErrExpectedString | ErrExpectedList | ErrCanonInt | ErrCanonSize
  | ErrElemTooLarge | ErrValueTooLarge | ErrMoreThanOneValue | ErrNoPointer
  | ErrNotInList | ErrNotAtEOL | ErrUintOverflow | ErrTooLong | ErrTooShort
  | ErrTooFewElements | ErrInvalidBool

datatype rlp_kind = KByte | KString | KList

record stream =
  s_in :: bytes
  s_stack :: "(nat \<times> nat) list"

text \<open>\<open>willRead\<close>: the open list must have room for \<open>n\<close> more bytes, and the input must hold
  them.\<close>

definition willRead :: "nat \<Rightarrow> stream \<Rightarrow> rlp_err + stream" where
  "willRead n s =
     (case s_stack s of
        [] \<Rightarrow> if n > length (s_in s) then Inl ErrValueTooLarge else Inr s
      | (pos, sz) # st \<Rightarrow>
          if n > sz - pos then Inl ErrElemTooLarge
          else if n > length (s_in s) then Inl ErrValueTooLarge
          else Inr (s\<lparr>s_stack := (pos + n, sz) # st\<rparr>))"

definition readFull :: "nat \<Rightarrow> stream \<Rightarrow> rlp_err + (bytes \<times> stream)" where
  "readFull n s =
     try_bind (willRead n s) (\<lambda>s'. Inr (take n (s_in s'), s'\<lparr>s_in := drop n (s_in s')\<rparr>))"

definition readByte :: "stream \<Rightarrow> rlp_err + (byte \<times> stream)" where
  "readByte s = try_bind (readFull 1 s) (\<lambda>(b, s'). Inr (hd b, s'))"

definition readUint :: "nat \<Rightarrow> stream \<Rightarrow> rlp_err + (nat \<times> stream)" where
  "readUint sz s =
     (if sz = 0 then Inr (0, s)
      else if sz = 1 then try_bind (readByte s) (\<lambda>(b, s'). Inr (unat b, s'))
      else try_bind (readFull sz s) (\<lambda>(bs, s').
             if hd bs = 0 then Inl ErrCanonSize else Inr (be_nat bs, s')))"

definition readKind :: "stream \<Rightarrow> rlp_err + ((rlp_kind \<times> nat \<times> byte) \<times> stream)" where
  "readKind s =
     (case readByte s of
        Inl e \<Rightarrow>
          Inl (if s_stack s = [] \<and> e = ErrValueTooLarge then EOF else e)
      | Inr (b, s') \<Rightarrow>
          if b < 0x80 then Inr ((KByte, 0, b), s')
          else if b < 0xB8 then Inr ((KString, unat b - 0x80, 0), s')
          else if b < 0xC0 then
            try_bind (readUint (unat b - 0xB7) s') (\<lambda>(sz, s'').
              if sz < 56 then Inl ErrCanonSize else Inr ((KString, sz, 0), s''))
          else if b < 0xF8 then Inr ((KList, unat b - 0xC0, 0), s')
          else
            try_bind (readUint (unat b - 0xF7) s') (\<lambda>(sz, s'').
              if sz < 56 then Inl ErrCanonSize else Inr ((KList, sz, 0), s'')))"

definition stream_Kind :: "stream \<Rightarrow> rlp_err + ((rlp_kind \<times> nat \<times> byte) \<times> stream)" where
  "stream_Kind s =
     (case s_stack s of
        [] \<Rightarrow>
          try_bind (readKind s) (\<lambda>((k, sz, b), s').
            if sz > length (s_in s') then Inl ErrValueTooLarge else Inr ((k, sz, b), s'))
      | (pos, lsize) # st \<Rightarrow>
          if pos = lsize then Inl EOL
          else try_bind (readKind s) (\<lambda>((k, sz, b), s').
            (case s_stack s' of
               [] \<Rightarrow> Inl ErrNotInList
             | (pos', _) # _ \<Rightarrow>
                 if sz > lsize - pos' then Inl ErrElemTooLarge
                 else Inr ((k, sz, b), s'))))"

definition stream_Bytes :: "stream \<Rightarrow> rlp_err + (bytes \<times> stream)" where
  "stream_Bytes s = try_bind (stream_Kind s) (\<lambda>((k, sz, byteval), s').
     case k of
       KByte \<Rightarrow> Inr ([byteval], s')
     | KString \<Rightarrow>
         try_bind (readFull sz s') (\<lambda>(b, s'').
           if sz = 1 \<and> hd b < 128 then Inl ErrCanonSize else Inr (b, s''))
     | KList \<Rightarrow> Inl ErrExpectedString)"

definition stream_uint :: "nat \<Rightarrow> stream \<Rightarrow> rlp_err + (nat \<times> stream)" where
  "stream_uint maxbits s = try_bind (stream_Kind s) (\<lambda>((k, sz, byteval), s').
     case k of
       KByte \<Rightarrow> if byteval = 0 then Inl ErrCanonInt else Inr (unat byteval, s')
     | KString \<Rightarrow>
         if sz > maxbits div 8 then Inl ErrUintOverflow
         else (case readUint sz s' of
                 Inl e \<Rightarrow> Inl (if e = ErrCanonSize then ErrCanonInt else e)
               | Inr (v, s'') \<Rightarrow> if 0 < sz \<and> v < 128 then Inl ErrCanonSize else Inr (v, s''))
     | KList \<Rightarrow> Inl ErrExpectedString)"

definition stream_Bool :: "stream \<Rightarrow> rlp_err + (bool \<times> stream)" where
  "stream_Bool s = try_bind (stream_uint 8 s) (\<lambda>(num, s').
     if num = 0 then Inr (False, s') else if num = 1 then Inr (True, s') else Inl ErrInvalidBool)"

definition stream_List :: "stream \<Rightarrow> rlp_err + (nat \<times> stream)" where
  "stream_List s = try_bind (stream_Kind s) (\<lambda>((k, sz, b), s').
     if k \<noteq> KList then Inl ErrExpectedList
     else Inr (sz, s'\<lparr>s_stack := (0, sz) # s_stack s'\<rparr>))"

definition stream_ListEnd :: "stream \<Rightarrow> rlp_err + stream" where
  "stream_ListEnd s =
     (case s_stack s of
        [] \<Rightarrow> Inl ErrNotInList
      | (pos, sz) # st \<Rightarrow>
          if pos \<noteq> sz then Inl ErrNotAtEOL
          else Inr (s\<lparr>s_stack :=
             (case st of [] \<Rightarrow> [] | (p, psz) # st' \<Rightarrow> (p + sz, psz) # st')\<rparr>))"

text \<open>\<open>decodeByteArray\<close> on an array of \<open>vlen\<close> bytes, and \<open>decodeByteSlice\<close>.\<close>

definition decodeByteArray :: "nat \<Rightarrow> stream \<Rightarrow> rlp_err + (bytes \<times> stream)" where
  "decodeByteArray vlen s = try_bind (stream_Kind s) (\<lambda>((k, sz, byteval), s').
     case k of
       KByte \<Rightarrow>
         if vlen = 0 then Inl ErrTooLong else if vlen > 1 then Inl ErrTooShort
         else Inr ([byteval], s')
     | KString \<Rightarrow>
         if vlen < sz then Inl ErrTooLong
         else if vlen > sz then Inl ErrTooShort
         else try_bind (readFull vlen s') (\<lambda>(b, s'').
           if sz = 1 \<and> hd b < 128 then Inl ErrCanonSize else Inr (b, s''))
     | KList \<Rightarrow> Inl ErrExpectedString)"

text \<open>The struct decoder: each field in turn into the value, which keeps the fields decoded
  before an error.\<close>

type_synonym 'a field_decoder = "stream \<Rightarrow> 'a \<Rightarrow> rlp_err + ('a \<times> stream)"

fun decode_fields :: "'a field_decoder list \<Rightarrow> stream \<Rightarrow> 'a \<Rightarrow> 'a \<times> (rlp_err + stream)" where
  "decode_fields [] s v = (v, Inr s)"
| "decode_fields (d # ds) s v =
     (case d s v of
        Inl e \<Rightarrow> (v, Inl (if e = EOL then ErrTooFewElements else e))
      | Inr (v', s') \<Rightarrow> decode_fields ds s' v')"

definition decode_struct :: "'a field_decoder list \<Rightarrow> stream \<Rightarrow> 'a \<Rightarrow> 'a \<times> (rlp_err + stream)" where
  "decode_struct ds s v =
     (case stream_List s of
        Inl e \<Rightarrow> (v, Inl e)
      | Inr (sz, s') \<Rightarrow>
          (case decode_fields ds s' v of
             (v', Inl e) \<Rightarrow> (v', Inl e)
           | (v', Inr s'') \<Rightarrow> (v', stream_ListEnd s'')))"

text \<open>\<open>DecodeBytes\<close> into the value \<open>v\<close>; the flag says whether a pointer to it was given.\<close>

definition DecodeBytes ::
  "bool \<Rightarrow> (stream \<Rightarrow> 'a \<Rightarrow> 'a \<times> (rlp_err + stream)) \<Rightarrow> bytes \<Rightarrow> 'a \<Rightarrow> 'a \<times> rlp_err option"
where
  "DecodeBytes is_pointer dec b v =
     (if \<not> is_pointer then (v, Some ErrNoPointer)
      else (case dec \<lparr>s_in = b, s_stack = []\<rparr> v of
              (v', Inl e) \<Rightarrow> (v', Some e)
            | (v', Inr s) \<Rightarrow> (v', if s_in s \<noteq> [] then Some ErrMoreThanOneValue else None)))"

section \<open>Reading back what was written\<close>

text \<open>\<open>at_item s enc rest\<close>: inside a list that still has room for \<open>enc\<close>, the input starts with
  \<open>enc\<close>.\<close>

definition at_item :: "stream \<Rightarrow> bytes \<Rightarrow> bytes \<Rightarrow> bool" where
  "at_item s enc rest =
     (s_in s = enc @ rest \<and>
      (case s_stack s of [] \<Rightarrow> False | (pos, sz) # st \<Rightarrow> pos + length enc \<le> sz))"

definition advance :: "stream \<Rightarrow> nat \<Rightarrow> bytes \<Rightarrow> stream" where
  "advance s n rest =
     s\<lparr>s_in := rest, s_stack := (case s_stack s of [] \<Rightarrow> [] | (pos, sz) # st \<Rightarrow> (pos + n, sz) # st)\<rparr>"

lemma s_in_advance [simp]: "s_in (advance s n rest) = rest"
  by (simp add: advance_def)

lemma advance_advance [simp]: "advance (advance s m r) n r' = advance s (m + n) r'"
  by (auto simp: advance_def split: list.splits)

lemma at_item_append: "at_item s (x @ y) rest \<longleftrightarrow> at_item s x (y @ rest) \<and> at_item (advance s (length x) (y @ rest)) y rest"
  by (auto simp: at_item_def advance_def split: list.splits)

lemma readFull_in:
  "at_item s bs rest \<Longrightarrow> readFull (length bs) s = Inr (bs, advance s (length bs) rest)"
  by (auto simp: at_item_def advance_def readFull_def willRead_def split: list.splits)

lemma readByte_in:
  "at_item s (b # bs) rest \<Longrightarrow> readByte s = Inr (b, advance s 1 (bs @ rest))"
  using readFull_in [of s "[b]" "bs @ rest"] at_item_append [of s "[b]" bs rest]
  by (simp add: readByte_def)

lemma readByte_top:
  "s_stack s = [] \<Longrightarrow> s_in s = b # bs \<Longrightarrow> readByte s = Inr (b, s\<lparr>s_in := bs\<rparr>)"
  by (simp add: readByte_def readFull_def willRead_def)

lemma readFull_top:
  "s_stack s = [] \<Longrightarrow> s_in s = xs @ bs \<Longrightarrow> readFull (length xs) s = Inr (xs, s\<lparr>s_in := bs\<rparr>)"
  by (simp add: readFull_def willRead_def)

lemma length_min_bytes_head:
  assumes "56 \<le> n" and "n < 2 ^ 60"
  shows "1 \<le> length (min_bytes n)" and "length (min_bytes n) \<le> 8" and "hd (min_bytes n) \<noteq> 0"
proof -
  show "1 \<le> length (min_bytes n)" using assms(1) by (cases "min_bytes n") auto
  have "n < 256 ^ 8" using assms(2) by simp
  then show "length (min_bytes n) \<le> 8" by (rule length_min_bytes_le)
  show "hd (min_bytes n) \<noteq> 0" using assms(1) by (intro hd_min_bytes) simp
qed

lemma readUint_in:
  assumes "at_item s (min_bytes n) rest" and "n \<noteq> 0"
  shows "readUint (length (min_bytes n)) s = Inr (n, advance s (length (min_bytes n)) rest)"
proof -
  have l: "length (min_bytes n) \<noteq> 0" and h: "hd (min_bytes n) \<noteq> 0"
    using assms(2) hd_min_bytes by auto
  show ?thesis
  proof (cases "length (min_bytes n) = 1")
    case True
    then obtain b where b: "min_bytes n = [b]" by (auto simp: length_Suc_conv)
    then have "unat b = n" using be_nat_min_bytes [of n] by simp
    then show ?thesis using assms(1) b readByte_in [of s b "[]" rest] by (simp add: readUint_def)
  next
    case False
    with l h readFull_in [OF assms(1)] show ?thesis by (simp add: readUint_def)
  qed
qed

lemma unat_head_byte: "n < 256 \<Longrightarrow> unat (word_of_nat n :: byte) = n"
  by simp

lemma readKind_string:
  assumes s: "at_item s (rlp_head 0x80 (length b) @ b) rest" and l: "length b < 2 ^ 60"
  shows "readKind s = Inr ((KString, length b, 0),
    advance s (length (rlp_head 0x80 (length b))) (b @ rest))"
proof (cases "length b < 56")
  case True
  let ?h = "word_of_nat (0x80 + length b) :: byte"
  have h: "unat ?h = 0x80 + length b" using True by (intro unat_head_byte) simp
  have "at_item s (?h # b) rest" using s True by (simp add: rlp_head_def)
  then have "readByte s = Inr (?h, advance s 1 (b @ rest))" by (rule readByte_in)
  moreover have "\<not> ?h < 0x80" "?h < 0xB8"
    using h True by (simp_all only: word_less_nat_alt) simp_all
  ultimately show ?thesis using True h by (simp add: readKind_def rlp_head_def)
next
  case False
  let ?m = "min_bytes (length b)" and ?n = "length (min_bytes (length b))"
  let ?h = "word_of_nat (0x80 + 55 + ?n) :: byte"
  have m: "1 \<le> ?n" "?n \<le> 8" "hd ?m \<noteq> 0" using length_min_bytes_head False l by auto
  have h: "unat ?h = 0xB7 + ?n" using m by (subst unat_head_byte) simp_all
  have at: "at_item s (?h # (?m @ b)) rest" using s False by (simp add: rlp_head_def)
  then have r: "readByte s = Inr (?h, advance s 1 (?m @ b @ rest))"
    using readByte_in [OF at] by simp
  have "at_item (advance s 1 (?m @ b @ rest)) ?m (b @ rest)"
    using at at_item_append [of s "[?h]" "?m @ b" rest]
      at_item_append [of "advance s 1 (?m @ b @ rest)" ?m b rest] by simp
  then have "readUint ?n (advance s 1 (?m @ b @ rest)) = Inr (length b, advance s (1 + ?n) (b @ rest))"
    using False by (subst readUint_in) auto
  moreover have "\<not> ?h < 0x80" "\<not> ?h < 0xB8" "?h < 0xC0"
    using h m False by (simp_all only: word_less_nat_alt) auto
  ultimately show ?thesis using False h r by (simp add: readKind_def rlp_head_def)
qed

lemma stream_Kind_item:
  assumes at: "at_item s (hd_enc @ b) rest" and ne: "hd_enc \<noteq> []"
    and k: "readKind s = Inr ((k, length b, c), advance s (length hd_enc) (b @ rest))"
  shows "stream_Kind s = Inr ((k, length b, c), advance s (length hd_enc) (b @ rest))"
  using assms by (auto simp: stream_Kind_def at_item_def advance_def split: list.splits)

lemma rlp_head_not_Nil [simp]: "rlp_head t n \<noteq> []"
  by (simp add: rlp_head_def)

lemma stream_Kind_string:
  assumes "at_item s (rlp_head 0x80 (length b) @ b) rest" and "length b < 2 ^ 60"
  shows "stream_Kind s = Inr ((KString, length b, 0),
    advance s (length (rlp_head 0x80 (length b))) (b @ rest))"
  using stream_Kind_item [OF assms(1)] readKind_string [OF assms] by simp

lemma stream_Kind_byte:
  assumes "at_item s [b] rest" and "b \<le> 0x7F"
  shows "stream_Kind s = Inr ((KByte, 0, b), advance s 1 rest)"
proof -
  have "readByte s = Inr (b, advance s 1 rest)" using readByte_in [OF assms(1)] by simp
  moreover have "b < 0x80" using assms(2) by (simp add: word_le_nat_alt word_less_nat_alt)
  ultimately have "readKind s = Inr ((KByte, 0, b), advance s 1 rest)" by (simp add: readKind_def)
  then show ?thesis using stream_Kind_item [of s "[b]" "[]" rest KByte b] assms(1) by simp
qed

lemma rlp_string_cases:
  obtains b where "bs = [b]" and "b \<le> 0x7F" and "rlp_string bs = [b]"
  | "\<not> (length bs = 1 \<and> hd bs < 128)" and "rlp_string bs = rlp_head 0x80 (length bs) @ bs"
proof (cases "length bs = 1 \<and> hd bs \<le> 0x7F")
  case True
  then show ?thesis using that(1) by (auto simp: length_Suc_conv rlp_string_def)
next
  case False
  then have "\<not> (length bs = 1 \<and> hd bs < 128)"
    by (auto simp: word_le_nat_alt word_less_nat_alt)
  with False show ?thesis using that(2) by (auto simp: rlp_string_def)
qed

lemma readFull_item:
  assumes "at_item s (h @ b) rest"
  shows "readFull (length b) (advance s (length h) (b @ rest)) =
    Inr (b, advance s (length (h @ b)) rest)"
proof -
  have "at_item (advance s (length h) (b @ rest)) b rest"
    using assms by (simp add: at_item_append)
  from readFull_in [OF this] show ?thesis by simp
qed

text \<open>A written string is read back as a byte slice and as an array of its length, and the stream
  stands behind it.\<close>

lemma stream_Bytes_string:
  assumes "at_item s (rlp_string bs) rest" and "length bs < 2 ^ 60"
  shows "stream_Bytes s = Inr (bs, advance s (length (rlp_string bs)) rest)"
proof (cases bs rule: rlp_string_cases)
  case (1 b)
  with assms show ?thesis by (simp add: stream_Bytes_def stream_Kind_byte)
next
  case 2
  with assms have at: "at_item s (rlp_head 0x80 (length bs) @ bs) rest" by simp
  from 2 show ?thesis
    using stream_Kind_string [OF at assms(2)] readFull_item [OF at] by (auto simp: stream_Bytes_def)
qed

lemma decodeByteArray_string:
  assumes "at_item s (rlp_string bs) rest" and "1 < length bs" and "length bs < 2 ^ 60"
  shows "decodeByteArray (length bs) s = Inr (bs, advance s (length (rlp_string bs)) rest)"
proof (cases bs rule: rlp_string_cases)
  case (1 b)
  with assms show ?thesis by simp
next
  case 2
  with assms have at: "at_item s (rlp_head 0x80 (length bs) @ bs) rest" by simp
  from 2 show ?thesis
    using stream_Kind_string [OF at assms(3)] readFull_item [OF at] assms(2)
    by (auto simp: decodeByteArray_def)
qed

lemma stream_Bool_bool:
  assumes "at_item s (rlp_bool b) rest"
  shows "stream_Bool s = Inr (b, advance s (length (rlp_bool b)) rest)"
proof (cases b)
  case True
  with assms show ?thesis
    by (simp add: rlp_bool_def stream_Bool_def stream_uint_def stream_Kind_byte)
next
  case False
  have "at_item s (rlp_head 0x80 (length []) @ []) rest"
    using assms False by (simp add: rlp_bool_def rlp_head_def)
  from stream_Kind_string [OF this] False show ?thesis
    by (simp add: rlp_bool_def stream_Bool_def stream_uint_def readUint_def rlp_head_def)
qed

section \<open>Structs\<close>

text \<open>\<open>reads d enc upd\<close>: at a written field the decoder \<open>d\<close> applies \<open>upd\<close> and moves behind it.\<close>

definition reads :: "'a field_decoder \<Rightarrow> bytes \<Rightarrow> ('a \<Rightarrow> 'a) \<Rightarrow> bool" where
  "reads d enc upd =
     (\<forall>s rest v. at_item s enc rest \<longrightarrow> d s v = Inr (upd v, advance s (length enc) rest))"

lemma decode_fields_reads:
  assumes "list_all (\<lambda>(d, enc, upd). reads d enc upd) fs"
    and "at_item s (concat (map (\<lambda>f. fst (snd f)) fs)) rest"
  shows "decode_fields (map fst fs) s v =
    (fold (\<lambda>f. snd (snd f)) fs v, Inr (advance s (length (concat (map (\<lambda>f. fst (snd f)) fs))) rest))"
  using assms
proof (induction fs arbitrary: s v)
  case Nil
  then show ?case by (auto simp: at_item_def advance_def split: list.splits)
next
  case (Cons f fs)
  obtain d enc upd where f: "f = (d, enc, upd)" by (cases f)
  let ?more = "concat (map (\<lambda>f. fst (snd f)) fs)"
  have at: "at_item s enc (?more @ rest)" "at_item (advance s (length enc) (?more @ rest)) ?more rest"
    using Cons.prems f by (simp_all add: at_item_append)
  have "d s v = Inr (upd v, advance s (length enc) (?more @ rest))"
    using Cons.prems at f by (simp add: reads_def)
  with Cons f at show ?case by simp
qed

lemma readUint_top:
  assumes "s_stack s = []" and "s_in s = min_bytes n @ rest" and "n \<noteq> 0"
  shows "readUint (length (min_bytes n)) s = Inr (n, s\<lparr>s_in := rest\<rparr>)"
proof -
  have l: "length (min_bytes n) \<noteq> 0" and h: "hd (min_bytes n) \<noteq> 0"
    using assms(3) hd_min_bytes by auto
  show ?thesis
  proof (cases "length (min_bytes n) = 1")
    case True
    then obtain b where b: "min_bytes n = [b]" by (auto simp: length_Suc_conv)
    then have "unat b = n" using be_nat_min_bytes [of n] by simp
    then show ?thesis using assms(1,2) b by (simp add: readUint_def readByte_top)
  next
    case False
    with l h readFull_top [OF assms(1,2)] show ?thesis by (simp add: readUint_def)
  qed
qed

lemma readKind_list_top:
  assumes "s_stack s = []" and "s_in s = rlp_list payload" and l: "length payload < 2 ^ 60"
  shows "readKind s = Inr ((KList, length payload, 0), s\<lparr>s_in := payload\<rparr>)"
proof (cases "length payload < 56")
  case True
  let ?h = "word_of_nat (0xC0 + length payload) :: byte"
  have h: "unat ?h = 0xC0 + length payload" using True by (intro unat_head_byte) simp
  have "readByte s = Inr (?h, s\<lparr>s_in := payload\<rparr>)"
    using assms(1,2) True by (intro readByte_top) (simp_all add: rlp_list_def rlp_head_def)
  moreover have "\<not> ?h < 0x80" "\<not> ?h < 0xB8" "\<not> ?h < 0xC0" "?h < 0xF8"
    using h True by (simp_all only: word_less_nat_alt) auto
  ultimately show ?thesis using h by (simp add: readKind_def)
next
  case False
  let ?m = "min_bytes (length payload)" and ?n = "length (min_bytes (length payload))"
  let ?h = "word_of_nat (0xC0 + 55 + ?n) :: byte"
  have m: "1 \<le> ?n" "?n \<le> 8" "hd ?m \<noteq> 0" using length_min_bytes_head False l by auto
  have h: "unat ?h = 0xF7 + ?n" using m by (subst unat_head_byte) simp_all
  have r: "readByte s = Inr (?h, s\<lparr>s_in := ?m @ payload\<rparr>)"
    using assms(1,2) False by (intro readByte_top) (simp_all add: rlp_list_def rlp_head_def)
  have "length payload \<noteq> 0" using False by auto
  then have "readUint ?n (s\<lparr>s_in := ?m @ payload\<rparr>) = Inr (length payload, s\<lparr>s_in := payload\<rparr>)"
    using assms(1) by (subst readUint_top) auto
  moreover have "\<not> ?h < 0x80" "\<not> ?h < 0xB8" "\<not> ?h < 0xC0" "\<not> ?h < 0xF8"
    using h m False by (simp_all only: word_less_nat_alt) auto
  ultimately show ?thesis using h r False by (simp add: readKind_def)
qed

text \<open>A struct written as the list of its fields is decoded by applying each field's update.\<close>

theorem DecodeBytes_struct:
  assumes fs: "list_all (\<lambda>(d, enc, upd). reads d enc upd) fs"
    and l: "length (concat (map (\<lambda>f. fst (snd f)) fs)) < 2 ^ 60"
  shows "DecodeBytes True (decode_struct (map fst fs))
      (rlp_list (concat (map (\<lambda>f. fst (snd f)) fs))) v =
    (fold (\<lambda>f. snd (snd f)) fs v, None)"
proof -
  let ?p = "concat (map (\<lambda>f. fst (snd f)) fs)"
  let ?s = "\<lparr>s_in = rlp_list ?p, s_stack = []\<rparr>"
  let ?s1 = "\<lparr>s_in = ?p, s_stack = [(0, length ?p)]\<rparr>"
  have "readKind ?s = Inr ((KList, length ?p, 0), ?s\<lparr>s_in := ?p\<rparr>)"
    by (rule readKind_list_top) (use l in simp_all)
  then have "stream_List ?s = Inr (length ?p, ?s1)"
    by (simp add: stream_List_def stream_Kind_def)
  moreover have "at_item ?s1 ?p []" by (simp add: at_item_def)
  then have "decode_fields (map fst fs) ?s1 v =
      (fold (\<lambda>f. snd (snd f)) fs v, Inr (advance ?s1 (length ?p) []))"
    by (rule decode_fields_reads [OF fs])
  ultimately have "decode_struct (map fst fs) ?s v =
      (fold (\<lambda>f. snd (snd f)) fs v, Inr \<lparr>s_in = [], s_stack = []\<rparr>)"
    by (simp add: decode_struct_def stream_ListEnd_def advance_def)
  then show ?thesis by (simp add: DecodeBytes_def)
qed

text \<open>Trailing bytes behind a value that decodes are refused.\<close>

lemma DecodeBytes_not_pointer [simp]: "DecodeBytes False dec b v = (v, Some ErrNoPointer)"
  by (simp add: DecodeBytes_def)

end
