(* ===== verification/OrderRlp.thy ===== *)
theory OrderRlp
  imports Orders Rlp
begin

text \<open>
  The wire format of orders between the services (\<open>Order.Bytes\<close>, \<open>FromBytes\<close>,
  \<open>OrderFromBytes\<close> of \<open>types/order.go\<close>) and of the pools' address maps
  (\<open>types/network_map.go\<close>). The struct decoder of \<open>order\<close> follows the declaration order of the
  fields; a nil pointer is written as the empty string.
\<close>

section \<open>Orders\<close>

definition order_fields :: "order \<Rightarrow> bytes list" where
  "order_fields ord =
     map rlp_string
       [Maker ord, Taker ord, MakerAssetAddress ord, TakerAssetAddress ord, MakerAssetData ord,
        TakerAssetData ord, FeeRecipient ord, ExchangeAddress ord, SenderAddress ord,
        MakerAssetAmount ord, TakerAssetAmount ord, MakerFee ord, TakerFee ord,
        ExpirationTimestampInSec ord, Salt ord, Signature ord, TakerAssetAmountFilled ord]
     @ [rlp_bool (Cancelled ord), rlp_string (PoolID ord)]"

definition Order_Bytes :: "order \<Rightarrow> bytes" where
  "Order_Bytes ord = rlp_list (concat (order_fields ord))"

definition array_field :: "nat \<Rightarrow> (bytes \<Rightarrow> 'a \<Rightarrow> 'a) \<Rightarrow> 'a field_decoder" where
  "array_field n upd s v = try_bind (decodeByteArray n s) (\<lambda>(b, s'). Inr (upd b v, s'))"

definition slice_field :: "(bytes \<Rightarrow> 'a \<Rightarrow> 'a) \<Rightarrow> 'a field_decoder" where
  "slice_field upd s v = try_bind (stream_Bytes s) (\<lambda>(b, s'). Inr (upd b v, s'))"

definition bool_field :: "(bool \<Rightarrow> 'a \<Rightarrow> 'a) \<Rightarrow> 'a field_decoder" where
  "bool_field upd s v = try_bind (stream_Bool s) (\<lambda>(b, s'). Inr (upd b v, s'))"

definition order_decoders :: "order field_decoder list" where
  "order_decoders =
     [array_field 20 (\<lambda>b. Maker_update (\<lambda>_. b)),
      array_field 20 (\<lambda>b. Taker_update (\<lambda>_. b)),
      array_field 20 (\<lambda>b. MakerAssetAddress_update (\<lambda>_. b)),
      array_field 20 (\<lambda>b. TakerAssetAddress_update (\<lambda>_. b)),
      slice_field (\<lambda>b. MakerAssetData_update (\<lambda>_. b)),
      slice_field (\<lambda>b. TakerAssetData_update (\<lambda>_. b)),
      array_field 20 (\<lambda>b. FeeRecipient_update (\<lambda>_. b)),
      array_field 20 (\<lambda>b. ExchangeAddress_update (\<lambda>_. b)),
      array_field 20 (\<lambda>b. SenderAddress_update (\<lambda>_. b)),
      array_field 32 (\<lambda>b. MakerAssetAmount_update (\<lambda>_. b)),
      array_field 32 (\<lambda>b. TakerAssetAmount_update (\<lambda>_. b)),
      array_field 32 (\<lambda>b. MakerFee_update (\<lambda>_. b)),
      array_field 32 (\<lambda>b. TakerFee_update (\<lambda>_. b)),
      array_field 32 (\<lambda>b. ExpirationTimestampInSec_update (\<lambda>_. b)),
      array_field 32 (\<lambda>b. Salt_update (\<lambda>_. b)),
      slice_field (\<lambda>b. Signature_update (\<lambda>_. b)),
      array_field 32 (\<lambda>b. TakerAssetAmountFilled_update (\<lambda>_. b)),
      bool_field (\<lambda>b. Cancelled_update (\<lambda>_. b)),
      slice_field (\<lambda>b. PoolID_update (\<lambda>_. b))]"

definition FromBytes :: "bytes \<Rightarrow> order \<Rightarrow> order \<times> rlp_err option" where
  "FromBytes data ord = DecodeBytes True (decode_struct order_decoders) data ord"

definition OrderFromBytes :: "bytes \<Rightarrow> order \<times> rlp_err option" where
  "OrderFromBytes data = FromBytes data nil_order"

text \<open>The sizes of an order that is written: the slices are far below the 64-bit size limit of the
  header.\<close>

definition sized_order :: "order \<Rightarrow> bool" where
  "sized_order ord =
     (wf_order ord \<and> length (MakerAssetData ord) < 2 ^ 50 \<and> length (TakerAssetData ord) < 2 ^ 50 \<and>
      length (Signature ord) < 2 ^ 50 \<and> length (PoolID ord) < 2 ^ 50)"

lemma reads_array:
  assumes "length b = n" and "1 < n" and "n < 2 ^ 60" and "u = upd b"
  shows "reads (array_field n upd) (rlp_string b) u"
  using assms by (auto simp: reads_def array_field_def decodeByteArray_string)

lemma reads_slice: "length b < 2 ^ 60 \<Longrightarrow> u = upd b \<Longrightarrow> reads (slice_field upd) (rlp_string b) u"
  by (auto simp: reads_def slice_field_def stream_Bytes_string)

lemma reads_bool: "u = upd b \<Longrightarrow> reads (bool_field upd) (rlp_bool b) u"
  by (auto simp: reads_def bool_field_def stream_Bool_bool)

lemma length_rlp_head: "n < 2 ^ 60 \<Longrightarrow> length (rlp_head t n) \<le> 9"
  using length_min_bytes_le [where v = n and n = 8] by (simp add: rlp_head_def)

lemma length_rlp_string: "length b < 2 ^ 60 \<Longrightarrow> length (rlp_string b) \<le> length b + 9"
  using length_rlp_head [where n = "length b" and t = "0x80"] by (simp add: rlp_string_def)

definition order_codec :: "order \<Rightarrow> (order field_decoder \<times> bytes \<times> (order \<Rightarrow> order)) list" where
  "order_codec ord = zip order_decoders (zip (order_fields ord)
     [Maker_update (\<lambda>_. Maker ord), Taker_update (\<lambda>_. Taker ord),
      MakerAssetAddress_update (\<lambda>_. MakerAssetAddress ord),
      TakerAssetAddress_update (\<lambda>_. TakerAssetAddress ord),
      MakerAssetData_update (\<lambda>_. MakerAssetData ord),
      TakerAssetData_update (\<lambda>_. TakerAssetData ord),
      FeeRecipient_update (\<lambda>_. FeeRecipient ord),
      ExchangeAddress_update (\<lambda>_. ExchangeAddress ord),
      SenderAddress_update (\<lambda>_. SenderAddress ord),
      MakerAssetAmount_update (\<lambda>_. MakerAssetAmount ord),
      TakerAssetAmount_update (\<lambda>_. TakerAssetAmount ord),
      MakerFee_update (\<lambda>_. MakerFee ord), TakerFee_update (\<lambda>_. TakerFee ord),
      ExpirationTimestampInSec_update (\<lambda>_. ExpirationTimestampInSec ord),
      Salt_update (\<lambda>_. Salt ord), Signature_update (\<lambda>_. Signature ord),
      TakerAssetAmountFilled_update (\<lambda>_. TakerAssetAmountFilled ord),
      Cancelled_update (\<lambda>_. Cancelled ord), PoolID_update (\<lambda>_. PoolID ord)])"

lemma order_codec_parts:
  "map fst (order_codec ord) = order_decoders"
  "map (\<lambda>f. fst (snd f)) (order_codec ord) = order_fields ord"
  by (simp_all add: order_codec_def order_decoders_def order_fields_def)

lemma order_codec_reads:
  assumes "sized_order ord"
  shows "list_all (\<lambda>(d, enc, upd). reads d enc upd) (order_codec ord)"
  using assms
  by (simp add: order_codec_def order_decoders_def order_fields_def sized_order_def wf_order_def
      wf_address_def wf_uint256_def reads_bool reads_slice reads_array)

lemma order_codec_fold: "fold (\<lambda>f. snd (snd f)) (order_codec ord) v = ord"
  by (cases ord; cases v)
     (simp add: order_codec_def order_decoders_def order_fields_def)

lemma order_payload_size:
  assumes "sized_order ord"
  shows "length (concat (order_fields ord)) < 2 ^ 60"
proof -
  have b: "length (rlp_string b) \<le> 2 ^ 50 + 9" if "length b < 2 ^ 50" for b
    using length_rlp_string [of b] that by simp
  have s: "\<forall>e \<in> set (order_fields ord). length e \<le> 2 ^ 50 + 9"
    using assms
    by (auto simp: order_fields_def sized_order_def wf_order_def wf_address_def wf_uint256_def
        rlp_bool_def b intro!: order_trans [OF length_rlp_string])
  have "sum_list (map length es) \<le> length es * (2 ^ 50 + 9)"
    if "\<forall>e \<in> set es. length e \<le> 2 ^ 50 + (9::nat)" for es :: "bytes list"
    using that by (induction es) auto
  from this [OF s] have "length (concat (order_fields ord)) \<le> 19 * (2 ^ 50 + 9)"
    by (simp add: length_concat order_fields_def)
  then show ?thesis by simp
qed

lemma FromBytes_Order_Bytes:
  assumes "sized_order ord"
  shows "FromBytes (Order_Bytes ord) v = (ord, None)"
  using DecodeBytes_struct [OF order_codec_reads [OF assms], of v] order_payload_size [OF assms]
  by (simp add: FromBytes_def Order_Bytes_def order_codec_parts order_codec_fold)

text \<open>C2: the wire format loses nothing: decoding the bytes of a well-formed order, into a fresh
  order or over any other one, gives that order and no error.\<close>

theorem order_rlp_roundtrip:
  assumes "sized_order ord"
  shows "OrderFromBytes (Order_Bytes ord) = (ord, None) \<and> FromBytes (Order_Bytes ord) p = (ord, None)"
  using FromBytes_Order_Bytes [OF assms] by (simp add: OrderFromBytes_def)

lemma sized_sample_order: "sized_order sample_order"
  using wf_sample_order
  by (simp add: sized_order_def sample_order_def Initialize_def nil_order_def ERC20ProxyID_def)

theorem order_rlp_roundtrip_witness:
  "OrderFromBytes (Order_Bytes sample_order) = (sample_order, None) \<and>
   FromBytes (Order_Bytes sample_order) nil_order = (sample_order, None)"
  by (rule order_rlp_roundtrip [OF sized_sample_order])

text \<open>The byte form identifies the order.\<close>

lemma Order_Bytes_inj:
  "sized_order a \<Longrightarrow> sized_order b \<Longrightarrow> Order_Bytes a = Order_Bytes b \<Longrightarrow> a = b"
  by (metis FromBytes_Order_Bytes prod.inject)

text \<open>Decoding into a fresh order: what the consumers of this theory use.\<close>

lemma OrderFromBytes_Bytes: "sized_order ord \<Longrightarrow> OrderFromBytes (Order_Bytes ord) = (ord, None)"
  by (simp add: OrderFromBytes_def FromBytes_Order_Bytes)

section \<open>What is accepted off the wire\<close>

text \<open>\<open>applies d U\<close>: when \<open>d\<close> succeeds it has applied one of the updates \<open>U\<close>.\<close>

definition applies :: "'a field_decoder \<Rightarrow> ('a \<Rightarrow> 'a) set \<Rightarrow> bool" where
  "applies d U \<longleftrightarrow> (\<forall>s v v' s'. d s v = Inr (v', s') \<longrightarrow> (\<exists>u \<in> U. v' = u v))"

lemma willRead_in: "willRead n s = Inr s' \<Longrightarrow> n \<le> length (s_in s') \<and> s_in s' = s_in s"
  by (auto simp: willRead_def split: list.splits if_splits)

lemma readFull_length: "readFull n s = Inr (b, s') \<Longrightarrow> length b = n"
  by (auto simp: readFull_def go_simps dest!: willRead_in)

lemma decodeByteArray_length:
  "decodeByteArray n s = Inr (b, s') \<Longrightarrow> 1 < n \<Longrightarrow> length b = n"
proof -
  assume d: "decodeByteArray n s = Inr (b, s')" and n: "1 < n"
  then obtain k sz c s1 where "stream_Kind s = Inr ((k, sz, c), s1)"
    by (auto simp: decodeByteArray_def go_simps)
  with d n show ?thesis
    by (cases k) (auto simp: decodeByteArray_def go_simps dest: readFull_length split: if_splits)
qed

lemma applies_array: "1 < n \<Longrightarrow> applies (array_field n upd) {upd b | b. length b = n}"
  by (fastforce simp: applies_def array_field_def go_simps dest: decodeByteArray_length)

lemma applies_slice: "applies (slice_field upd) (range upd)"
  by (auto simp: applies_def slice_field_def go_simps)

lemma applies_bool: "applies (bool_field upd) (range upd)"
  by (auto simp: applies_def bool_field_def go_simps)

lemma decode_fields_Cons:
  assumes "decode_fields (d # ds) s v = (v', Inr s')" and "applies d U"
  shows "\<exists>u \<in> U. \<exists>s1. decode_fields ds s1 (u v) = (v', Inr s')"
proof -
  obtain v1 s1 where "d s v = Inr (v1, s1)" "decode_fields ds s1 v1 = (v', Inr s')"
    using assms(1) by (auto split: sum.splits prod.splits)
  with assms(2) show ?thesis unfolding applies_def by blast
qed

fun applied :: "('a \<Rightarrow> 'a) set list \<Rightarrow> 'a \<Rightarrow> 'a set" where
  "applied [] v = {v}"
| "applied (U # Us) v = (\<Union>u \<in> U. applied Us (u v))"

lemma decode_fields_applied:
  "decode_fields ds s v = (v', Inr s') \<Longrightarrow> list_all2 applies ds Us \<Longrightarrow> v' \<in> applied Us v"
proof (induction ds arbitrary: s v Us)
  case (Cons d ds)
  then obtain U Us' where U: "Us = U # Us'" "applies d U" "list_all2 applies ds Us'"
    by (auto simp: list_all2_Cons1)
  from decode_fields_Cons [OF Cons.prems(1) U(2)] Cons.IH [OF _ U(3)] U(1) show ?case by auto
qed simp

definition array_updates :: "nat \<Rightarrow> (bytes \<Rightarrow> order \<Rightarrow> order) \<Rightarrow> (order \<Rightarrow> order) set" where
  "array_updates n upd = {upd b | b. length b = n}"

lemma applies_array_updates: "1 < n \<Longrightarrow> applies (array_field n upd) (array_updates n upd)"
  unfolding array_updates_def by (rule applies_array)

lemma order_decoders_apply:
  "list_all2 applies order_decoders
     [array_updates 20 (\<lambda>b. Maker_update (\<lambda>_. b)),
      array_updates 20 (\<lambda>b. Taker_update (\<lambda>_. b)),
      array_updates 20 (\<lambda>b. MakerAssetAddress_update (\<lambda>_. b)),
      array_updates 20 (\<lambda>b. TakerAssetAddress_update (\<lambda>_. b)),
      range (\<lambda>b. MakerAssetData_update (\<lambda>_. b)),
      range (\<lambda>b. TakerAssetData_update (\<lambda>_. b)),
      array_updates 20 (\<lambda>b. FeeRecipient_update (\<lambda>_. b)),
      array_updates 20 (\<lambda>b. ExchangeAddress_update (\<lambda>_. b)),
      array_updates 20 (\<lambda>b. SenderAddress_update (\<lambda>_. b)),
      array_updates 32 (\<lambda>b. MakerAssetAmount_update (\<lambda>_. b)),
      array_updates 32 (\<lambda>b. TakerAssetAmount_update (\<lambda>_. b)),
      array_updates 32 (\<lambda>b. MakerFee_update (\<lambda>_. b)),
      array_updates 32 (\<lambda>b. TakerFee_update (\<lambda>_. b)),
      array_updates 32 (\<lambda>b. ExpirationTimestampInSec_update (\<lambda>_. b)),
      array_updates 32 (\<lambda>b. Salt_update (\<lambda>_. b)),
      range (\<lambda>b. Signature_update (\<lambda>_. b)),
      array_updates 32 (\<lambda>b. TakerAssetAmountFilled_update (\<lambda>_. b)),
      range (\<lambda>b. Cancelled_update (\<lambda>_. b)),
      range (\<lambda>b. PoolID_update (\<lambda>_. b))]"
  by (simp add: order_decoders_def applies_array_updates applies_slice applies_bool)

lemma decoded_wf:
  assumes "FromBytes data p = (ord, None)"
  shows "wf_order ord"
proof -
  obtain s sz s' s'' where "stream_List s = Inr (sz, s')"
    and d: "decode_fields order_decoders s' p = (ord, Inr s'')"
    using assms
    by (auto simp: FromBytes_def DecodeBytes_def decode_struct_def split: sum.splits prod.splits)
  from decode_fields_applied [OF d order_decoders_apply] show ?thesis
    by (auto simp: array_updates_def wf_order_def wf_address_def wf_uint256_def)
qed

lemma OrderFromBytes_wf: "OrderFromBytes data = (ord, None) \<Longrightarrow> wf_order ord"
  by (simp add: OrderFromBytes_def decoded_wf)

text \<open>C3: every order that a service accepts off the wire is well formed, whoever wrote the bytes:
  no consumer that checks the error of \<open>OrderFromBytes\<close> meets a nil or short field.\<close>

theorem FromBytes_wf:
  assumes "FromBytes data p = (ord, None)"
  shows "wf_order ord"
  by (rule decoded_wf [OF assms])

theorem FromBytes_wf_witness: "wf_order (fst (FromBytes (Order_Bytes sample_order) nil_order))"
  using FromBytes_wf [of "Order_Bytes sample_order" nil_order sample_order]
    FromBytes_Order_Bytes [OF sized_sample_order, of nil_order] by simp

section \<open>Address maps by network\<close>

text \<open>\<open>NetworkAddressMap\<close>: \<open>Value\<close> walks the map in an order of the runtime's choice, which is the
  argument here.\<close>

type_synonym network_map = "nat \<rightharpoonup> address"

definition netAddPair_enc :: "nat \<Rightarrow> address \<Rightarrow> bytes" where
  "netAddPair_enc net addr = rlp_list (rlp_uint net @ rlp_string addr)"

fun NetworkAddressMap_Value :: "(nat \<times> address) list \<Rightarrow> bytes \<Rightarrow> bytes go" where
  "NetworkAddressMap_Value [] items = Ret (rlp_list items)"
| "NetworkAddressMap_Value ((k, v) # kvs) items =
     go_bind (deref v) (\<lambda>a. NetworkAddressMap_Value kvs (items @ netAddPair_enc k a))"

definition netAddPair_dec :: "stream \<Rightarrow> rlp_err + ((nat \<times> address) \<times> stream)" where
  "netAddPair_dec s =
     try_bind (stream_List s) (\<lambda>(sz, s1).
     try_bind (stream_uint 64 s1) (\<lambda>(net, s2).
     try_bind (decodeByteArray 20 s2) (\<lambda>(addr, s3).
     try_bind (stream_ListEnd s3) (\<lambda>s4. Inr ((net, addr), s4)))))"

text \<open>\<open>decodeListSlice\<close> of such pairs; every pair takes at least one byte of input, which bounds the
  number of rounds.\<close>

fun netAddPairs_dec ::
  "nat \<Rightarrow> stream \<Rightarrow> (nat \<times> address) list \<Rightarrow> (nat \<times> address) list \<times> (rlp_err + stream)"
where
  "netAddPairs_dec 0 s acc = (acc, stream_ListEnd s)"
| "netAddPairs_dec (Suc n) s acc =
     (case netAddPair_dec s of
        Inl e \<Rightarrow> (acc, if e = EOL then stream_ListEnd s else Inl e)
      | Inr (p, s') \<Rightarrow> netAddPairs_dec n s' (acc @ [p]))"

definition netAddPairs_list ::
  "stream \<Rightarrow> (nat \<times> address) list \<Rightarrow> (nat \<times> address) list \<times> (rlp_err + stream)"
where
  "netAddPairs_list s acc =
     (case stream_List s of
        Inl e \<Rightarrow> (acc, Inl e)
      | Inr (sz, s') \<Rightarrow> netAddPairs_dec (length (s_in s')) s' [])"

text \<open>\<open>Scan\<close> hands \<open>rlp.DecodeBytes\<close> the slice and not a pointer to it, and ignores the error. The
  pointers it stores all point at the loop variable, which ends with the last item.\<close>

definition NetworkAddressMap_Scan :: "sql_value \<Rightarrow> network_map \<Rightarrow> err + network_map" where
  "NetworkAddressMap_Scan src nmap =
     (case src of
        SqlBytes v \<Rightarrow>
          (let items = fst (DecodeBytes False netAddPairs_list v [])
           in Inr (fold (\<lambda>item m. m(fst item \<mapsto> snd (last items))) items nmap))
      | _ \<Rightarrow> Inl ''NetworkAddressMap scanner src should be []byte'')"

text \<open>A pool's address map does not survive the database: whatever bytes \<open>Value\<close> stored,
  \<open>Scan\<close> reports success and leaves the map as it was.\<close>

lemma NetworkAddressMap_Scan_ignores_column:
  "NetworkAddressMap_Scan (SqlBytes v) nmap = Inr nmap"
  by (simp add: NetworkAddressMap_Scan_def)

end
