(* ===== verification/Signatures.thy ===== *)
theory Signatures
  imports OrderRlp
begin

text \<open>
  The EIP-712 hash of an order (\<open>Order.Hash\<close> of \<open>types/order.go\<close>) and the signatures over it
  (\<open>types/signature.go\<close>). Keccak-256 and public key recovery are library code: the record
  \<open>crypto\<close> is the parameter that stands for them.
\<close>

record crypto =
  keccak256 :: "bytes \<Rightarrow> bytes"
  ecrecover :: "bytes \<Rightarrow> bytes \<Rightarrow> err + bytes"

text \<open>Documented of the two: a digest has 32 bytes, a recovered key is 65 bytes.\<close>

definition crypto_ok :: "crypto \<Rightarrow> bool" where
  "crypto_ok C \<longleftrightarrow>
     (\<forall>x. length (keccak256 C x) = 32) \<and>
     (\<forall>h s p. ecrecover C h s = Inr p \<longrightarrow> length p = 65)"

section \<open>The order hash\<close>

definition domain_schema :: bytes where
  "domain_schema =
     bytes_of_string ''EIP712Domain(string name,string version,address verifyingContract)''"

definition order_schema :: bytes where
  "order_schema = bytes_of_string (
     ''Order(address makerAddress,address takerAddress,address feeRecipientAddress,'' @
     ''address senderAddress,uint256 makerAssetAmount,uint256 takerAssetAmount,'' @
     ''uint256 makerFee,uint256 takerFee,uint256 expirationTimeSeconds,uint256 salt,'' @
     ''bytes makerAssetData,bytes takerAssetData)'')"

text \<open>The bytes written to each hash.\<close>

definition domain_preimage :: "crypto \<Rightarrow> order \<Rightarrow> bytes" where
  "domain_preimage C ord =
     keccak256 C domain_schema @ keccak256 C (bytes_of_string ''0x Protocol'') @
     keccak256 C (bytes_of_string ''2'') @ zero_bytes 12 @ ExchangeAddress ord"

definition order_preimage :: "crypto \<Rightarrow> order \<Rightarrow> bytes" where
  "order_preimage C ord =
     keccak256 C order_schema @
     zero_bytes 12 @ Maker ord @
     zero_bytes 12 @ Taker ord @
     zero_bytes 12 @ FeeRecipient ord @
     zero_bytes 12 @ SenderAddress ord @
     MakerAssetAmount ord @ TakerAssetAmount ord @ MakerFee ord @ TakerFee ord @
     ExpirationTimestampInSec ord @ Salt ord @
     keccak256 C (MakerAssetData ord) @ keccak256 C (TakerAssetData ord)"

definition hash_preimage :: "crypto \<Rightarrow> order \<Rightarrow> bytes" where
  "hash_preimage C ord =
     [25, 1] @ keccak256 C (domain_preimage C ord) @ keccak256 C (order_preimage C ord)"

text \<open>Slicing a nil array pointer panics, in the order the code slices them.\<close>

definition Order_Hash :: "crypto \<Rightarrow> order \<Rightarrow> bytes go" where
  "Order_Hash C ord =
     go_bind (go_fold (\<lambda>p _. go_map (\<lambda>_. ()) (deref p))
       [ExchangeAddress ord, ExchangeAddress ord, Maker ord, Taker ord, FeeRecipient ord,
        SenderAddress ord, MakerAssetAmount ord, TakerAssetAmount ord, MakerFee ord, TakerFee ord,
        ExpirationTimestampInSec ord, Salt ord] ())
       (\<lambda>_. Ret (keccak256 C (hash_preimage C ord)))"

lemma Order_Hash_wf: "wf_order ord \<Longrightarrow> Order_Hash C ord = Ret (keccak256 C (hash_preimage C ord))"
  by (simp add: Order_Hash_def wf_order_def wf_address_def wf_uint256_def)

text \<open>The fields a maker signs: everything of the 0x order but the signature; not the relay's own
  bookkeeping.\<close>

definition signed_part :: "order \<Rightarrow> bytes list" where
  "signed_part ord =
     [ExchangeAddress ord, Maker ord, Taker ord, FeeRecipient ord, SenderAddress ord,
      MakerAssetAmount ord, TakerAssetAmount ord, MakerFee ord, TakerFee ord,
      ExpirationTimestampInSec ord, Salt ord, MakerAssetData ord, TakerAssetData ord]"

definition hash_inputs :: "crypto \<Rightarrow> order \<Rightarrow> bytes list" where
  "hash_inputs C ord =
     [MakerAssetData ord, TakerAssetData ord, domain_preimage C ord, order_preimage C ord,
      hash_preimage C ord]"

definition digest_collision :: "crypto \<Rightarrow> order \<Rightarrow> order \<Rightarrow> bool" where
  "digest_collision C a b =
     list_ex (\<lambda>(x, y). x \<noteq> y \<and> keccak256 C x = keccak256 C y)
       (zip (hash_inputs C a) (hash_inputs C b))"

lemma hash_preimage_inj:
  assumes "wf_order a" and "wf_order b" and C: "\<forall>x. length (keccak256 C x) = 32"
    and h: "keccak256 C (hash_preimage C a) = keccak256 C (hash_preimage C b)"
    and no: "\<not> digest_collision C a b"
  shows "signed_part a = signed_part b"
proof -
  from h no have "hash_preimage C a = hash_preimage C b" by (simp add: digest_collision_def hash_inputs_def)
  then have "keccak256 C (domain_preimage C a) = keccak256 C (domain_preimage C b) \<and>
      keccak256 C (order_preimage C a) = keccak256 C (order_preimage C b)"
    using C by (simp add: hash_preimage_def)
  with no have d: "domain_preimage C a = domain_preimage C b"
    and o: "order_preimage C a = order_preimage C b" by (simp_all add: digest_collision_def hash_inputs_def)
  from d have "ExchangeAddress a = ExchangeAddress b" by (simp add: domain_preimage_def)
  moreover from o assms have "Maker a = Maker b" "Taker a = Taker b"
    "FeeRecipient a = FeeRecipient b" "SenderAddress a = SenderAddress b"
    "MakerAssetAmount a = MakerAssetAmount b" "TakerAssetAmount a = TakerAssetAmount b"
    "MakerFee a = MakerFee b" "TakerFee a = TakerFee b"
    "ExpirationTimestampInSec a = ExpirationTimestampInSec b" "Salt a = Salt b"
    and m: "keccak256 C (MakerAssetData a) = keccak256 C (MakerAssetData b)"
    and t: "keccak256 C (TakerAssetData a) = keccak256 C (TakerAssetData b)"
    by (simp_all add: order_preimage_def wf_order_def wf_address_def wf_uint256_def)
  moreover from m t no have "MakerAssetData a = MakerAssetData b"
    "TakerAssetData a = TakerAssetData b" by (simp_all add: digest_collision_def hash_inputs_def)
  ultimately show ?thesis by (simp add: signed_part_def)
qed

lemma Order_Hash_same:
  assumes "wf_order a" and "wf_order b" and "\<forall>x. length (keccak256 C x) = 32"
    and "Order_Hash C a = Order_Hash C b" and "\<not> digest_collision C a b"
  shows "signed_part a = signed_part b"
  using assms by (simp add: Order_Hash_wf hash_preimage_inj)

lemma signed_part_hash: "signed_part a = signed_part b \<Longrightarrow> hash_preimage C a = hash_preimage C b"
  by (simp add: signed_part_def hash_preimage_def domain_preimage_def order_preimage_def)

text \<open>C4: the hash binds what it signs. Two orders with one hash agree on every signed field, or one
  of the five inputs hashed on the way is a collision of the digest; and the hash depends on
  nothing else, so the relay's bookkeeping fields cannot change it.\<close>

theorem Order_Hash_binds:
  assumes "wf_order a" and "wf_order b" and "\<forall>x. length (keccak256 C x) = 32"
  shows "(Order_Hash C a = Order_Hash C b \<longrightarrow>
       signed_part a = signed_part b \<or> digest_collision C a b) \<and>
    (signed_part a = signed_part b \<longrightarrow> Order_Hash C a = Order_Hash C b)"
  using Order_Hash_same [OF assms] signed_part_hash [of a b C] assms(1,2) by (auto simp: Order_Hash_wf)

text \<open>A digest for witnesses: the length and the first 31 bytes, padded.\<close>

definition sample_crypto :: crypto where
  "sample_crypto =
     \<lparr>keccak256 = (\<lambda>x. take 32 (word_of_nat (length x) # x @ zero_bytes 31)),
      ecrecover = (\<lambda>h s. Inr (4 # take 64 (s @ zero_bytes 64)))\<rparr>"

lemma sample_crypto_ok: "crypto_ok sample_crypto"
  by (auto simp: crypto_ok_def sample_crypto_def)

lemma sample_keccak_length: "\<forall>x. length (keccak256 sample_crypto x) = 32"
  using sample_crypto_ok by (simp add: crypto_ok_def)

theorem Order_Hash_binds_witness:
  "Order_Hash sample_crypto sample_order =
     Order_Hash sample_crypto (sample_order\<lparr>Cancelled := True, PoolID := [1]\<rparr>)"
proof -
  have w: "wf_order (sample_order\<lparr>Cancelled := True, PoolID := [1]\<rparr>)"
    using wf_sample_order by (simp add: wf_order_def)
  show ?thesis
    using Order_Hash_binds [OF wf_sample_order w sample_keccak_length] by (simp add: signed_part_def)
qed

section \<open>Signatures\<close>

definition Signature_Type :: "signature \<Rightarrow> byte go" where
  "Signature_Type sig = go_index sig (int (length sig) - 1)"

text \<open>\<open>crypto.Ecrecover\<close> of \<open>r\<close>, \<open>s\<close>, \<open>v - 27\<close> and the comparison of the recovered address;
  the byte subtraction wraps, but is only reached with \<open>v\<close> at least 27.\<close>

definition recover_matches :: "crypto \<Rightarrow> signature \<Rightarrow> address \<Rightarrow> bytes \<Rightarrow> bool go" where
  "recover_matches C sig addr digest =
     go_bind (go_index sig 0) (\<lambda>v.
     go_bind (go_slice sig 1 33) (\<lambda>r.
     go_bind (go_slice sig 33 65) (\<lambda>s.
     if v < 27 then Ret False
     else (case ecrecover C digest (r @ s @ [v - 27]) of
             Inl e \<Rightarrow> Ret False
           | Inr pub \<Rightarrow>
               go_bind (go_slice pub 1 (length pub)) (\<lambda>p.
               go_bind (go_slice (keccak256 C p) 12 (length (keccak256 C p))) (\<lambda>recovered.
               go_map (\<lambda>a. a = recovered) (deref addr)))))))"

definition verifyEIP712 :: "crypto \<Rightarrow> signature \<Rightarrow> address \<Rightarrow> bytes \<Rightarrow> bool go" where
  "verifyEIP712 C sig addr hash =
     (if length sig \<noteq> 66 then Ret False else recover_matches C sig addr hash)"

definition eth_sign_message :: "bytes \<Rightarrow> bytes" where
  "eth_sign_message hash =
     0x19 # bytes_of_string ''Ethereum Signed Message:'' @ [10]
       @ bytes_of_string (dec_string (length hash)) @ hash"

definition verifyEthSign :: "crypto \<Rightarrow> signature \<Rightarrow> address \<Rightarrow> bytes \<Rightarrow> bool go" where
  "verifyEthSign C sig addr hash =
     (if length sig \<noteq> 66 then Ret False
      else recover_matches C sig addr (keccak256 C (eth_sign_message hash)))"

definition verifyWallet :: "signature \<Rightarrow> address \<Rightarrow> bytes \<Rightarrow> bool go" where
  "verifyWallet sig addr hash = Ret False"

definition verifyValidator :: "signature \<Rightarrow> address \<Rightarrow> bytes \<Rightarrow> bool go" where
  "verifyValidator sig addr hash = Ret False"

definition Signature_Verify :: "crypto \<Rightarrow> signature \<Rightarrow> address \<Rightarrow> bytes \<Rightarrow> bool go" where
  "Signature_Verify C sig addr hash =
     (if length sig < 1 then Ret False
      else go_bind (Signature_Type sig) (\<lambda>sigType.
             if sigType = 2 then verifyEIP712 C sig addr hash
             else if sigType = 3 then verifyEthSign C sig addr hash
             else if sigType = 4 then verifyWallet sig addr hash
             else if sigType = 5 then verifyValidator sig addr hash
             else Ret False))"

definition Supported :: "signature \<Rightarrow> bool go" where
  "Supported sig = go_map (\<lambda>sigType. sigType = 2 \<or> sigType = 3) (Signature_Type sig)"

definition Signature_MarshalJSON :: "signature \<Rightarrow> string" where
  "Signature_MarshalJSON sig = quoted (sprintf_hex sig)"

text \<open>The receiver is the slice itself: its length cannot change, so only data of that length is
  taken.\<close>

definition Signature_UnmarshalJSON :: "string \<Rightarrow> signature \<Rightarrow> err + signature" where
  "Signature_UnmarshalJSON b sig =
     try_bind (HexStringToBytes (trim_chars quote_set b)) (\<lambda>sigBytes.
       if length sig \<noteq> length sigBytes
       then Inl ''Unmarshalling to signature requires len(sig) == len(data)''
       else Inr (go_copy sig sigBytes))"

lemma Signature_Type_eq [go_simps]:
  "Signature_Type sig = (if sig = [] then Panic IndexOutOfRange else Ret (last sig))"
  by (cases sig rule: rev_cases) (auto simp: Signature_Type_def go_index_def nth_append)

text \<open>The digest that a signature of each type signs, and the key recovery it has to pass.\<close>

definition signed_digest :: "crypto \<Rightarrow> byte \<Rightarrow> bytes \<Rightarrow> bytes" where
  "signed_digest C t hash = (if t = 2 then hash else keccak256 C (eth_sign_message hash))"

definition recovers_to :: "crypto \<Rightarrow> signature \<Rightarrow> address \<Rightarrow> bytes \<Rightarrow> bool" where
  "recovers_to C sig addr digest =
     (case ecrecover C digest (take 64 (drop 1 sig) @ [hd sig - 27]) of
        Inl e \<Rightarrow> False
      | Inr pub \<Rightarrow> drop 12 (keccak256 C (tl pub)) = addr)"

lemma recover_matches_eq:
  assumes C: "crypto_ok C" and l: "length sig = 66" and a: "length addr = 20"
  shows "recover_matches C sig addr d = Ret (27 \<le> hd sig \<and> recovers_to C sig addr d)"
proof -
  have i: "go_index sig 0 = Ret (hd sig)"
    using l by (cases sig) (auto simp: go_index_def)
  have s: "go_slice sig 1 33 = Ret (take 32 (drop 1 sig))"
    "go_slice sig 33 65 = Ret (take 32 (drop 33 sig))"
    using l by (simp_all add: go_slice_def)
  have "take 64 (drop 1 sig) = take 32 (drop 1 sig) @ take 32 (drop 33 sig)"
    using take_add [of 32 32 "drop 1 sig"] by simp
  then have j: "take 32 (drop 1 sig) @ take 32 (drop 33 sig) @ [hd sig - 27] =
      take 64 (drop 1 sig) @ [hd sig - 27]" by simp
  have p: "go_slice pub 1 (length pub) = Ret (tl pub)"
    if "ecrecover C d (take 64 (drop 1 sig) @ [hd sig - 27]) = Inr pub" for pub
  proof -
    have "length pub = 65" using C that unfolding crypto_ok_def by blast
    then show ?thesis by (cases pub) (auto simp: go_slice_def)
  qed
  have k: "go_slice (keccak256 C x) 12 (length (keccak256 C x)) = Ret (drop 12 (keccak256 C x))" for x
    using C by (simp add: crypto_ok_def go_slice_def)
  show ?thesis
    unfolding recover_matches_def recovers_to_def i s go_bind.simps j
    using a p by (cases "ecrecover C d (take 64 (drop 1 sig) @ [hd sig - 27])")
      (auto simp: k not_less)
qed

text \<open>C5: \<open>Verify\<close> accepts exactly the supported 66-byte signatures whose recovered key hashes to
  the address: type EIP712 over the hash itself, type EthSign over the digest of the prefixed
  message. Wallet, validator and all other types are refused, and no signature makes it panic.\<close>

theorem Signature_Verify_correct:
  assumes "crypto_ok C" and "length addr = 20"
  shows "Signature_Verify C sig addr hash =
    Ret (length sig = 66 \<and> last sig \<in> {2, 3} \<and> 27 \<le> hd sig \<and>
         recovers_to C sig addr (signed_digest C (last sig) hash))"
  using recover_matches_eq [OF assms(1) _ assms(2), of sig]
  by (cases "length sig = 66")
     (auto simp: Signature_Verify_def Signature_Type_eq verifyEIP712_def verifyEthSign_def
       verifyWallet_def verifyValidator_def signed_digest_def)

theorem Signature_Verify_correct_witness:
  "Signature_Verify sample_crypto (replicate 65 27 @ [3]) (zero_bytes 20) [1, 2] =
     Ret (drop 12 (keccak256 sample_crypto (take 64 (replicate 64 27))) = zero_bytes 20)"
  using Signature_Verify_correct [OF sample_crypto_ok, of "zero_bytes 20"
      "replicate 65 27 @ [3]" "[1, 2]"]
  by (simp add: recovers_to_def sample_crypto_def)

text \<open>A signer whose signature is valid for every hash under the sample digest.\<close>

definition sample_signer :: address where "sample_signer = replicate 20 27"
definition sample_signature :: signature where "sample_signature = replicate 65 27 @ [2]"

lemma sample_signature_valid: "Signature_Verify sample_crypto sample_signature sample_signer hash = Ret True"
proof -
  have "recover_matches sample_crypto sample_signature sample_signer hash =
      Ret (27 \<le> hd sample_signature \<and> recovers_to sample_crypto sample_signature sample_signer hash)"
    by (rule recover_matches_eq) (simp_all add: sample_crypto_ok sample_signature_def sample_signer_def)
  moreover have "recovers_to sample_crypto sample_signature sample_signer hash"
    by (simp add: recovers_to_def sample_crypto_def sample_signature_def sample_signer_def numeral_eq_Suc)
  ultimately show ?thesis
    by (simp add: Signature_Verify_def Signature_Type_eq verifyEIP712_def sample_signature_def)
qed

lemma Signature_Verify_returns:
  "crypto_ok C \<Longrightarrow> length addr = 20 \<Longrightarrow> \<exists>b. Signature_Verify C sig addr hash = Ret b"
  by (cases "length sig = 66")
     (auto simp: Signature_Verify_def Signature_Type_eq verifyEIP712_def verifyEthSign_def
       verifyWallet_def verifyValidator_def recover_matches_eq)

lemma Verify_Supported:
  assumes "Signature_Verify C sig addr hash = Ret True"
  shows "Supported sig = Ret True"
  using assms
  by (auto simp: Signature_Verify_def Supported_def Signature_Type_eq verifyWallet_def
      verifyValidator_def split: if_splits)

text \<open>The check for a supported type panics on the empty signature, which \<open>Verify\<close> would have
  refused.\<close>

lemma Supported_empty: "Supported [] = Panic IndexOutOfRange"
  by (simp add: Supported_def Signature_Type_eq)

end
