(* ===== verification/RingBuffer.thy ===== *)
theory RingBuffer
  imports GoText
begin

text \<open>
  The ring buffer of recent blocks (\<open>monitor/blocks/block_ring_buffer.go\<close>), and the interface of
  a bounded history it provides to the block monitor: the locale \<open>block_history\<close> states what
  adding and reading promise, the client lemmas are proved in it, and the ring buffer interprets
  it through the list of its blocks, the latest first.
\<close>

record mini_block =
  mb_Hash :: bytes
  mb_Number :: int
  mb_Bloom :: bytes

section \<open>The ring buffer\<close>

record ring =
  blocks :: "mini_block option list"
  rb_size :: nat
  rb_head :: nat

definition newBlockRingBuffer :: "nat \<Rightarrow> ring" where
  "newBlockRingBuffer n = \<lparr>blocks = replicate n None, rb_size = n, rb_head = 0\<rparr>"

definition rb_Add :: "mini_block \<Rightarrow> ring \<Rightarrow> ring go" where
  "rb_Add mb brb =
     (if rb_size brb = 0 then Panic DivisionByZero
      else let hd' = (rb_head brb + 1) mod rb_size brb in
           if hd' < length (blocks brb)
           then Ret (brb\<lparr>rb_head := hd', blocks := (blocks brb)[hd' := Some mb]\<rparr>)
           else Panic IndexOutOfRange)"

definition rb_Get :: "nat \<Rightarrow> ring \<Rightarrow> mini_block option go" where
  "rb_Get count brb =
     (let index = int (rb_head brb) - int count;
          index = (if index < 0 then index + int (rb_size brb) else index)
      in go_index (blocks brb) index)"

fun hash_index_loop :: "bytes \<Rightarrow> ring \<Rightarrow> nat \<Rightarrow> nat \<Rightarrow> int go" where
  "hash_index_loop hash brb 0 i = Ret (- 1)"
| "hash_index_loop hash brb (Suc n) i =
     go_bind (rb_Get i brb) (\<lambda>block.
       case block of
         Some b \<Rightarrow> if mb_Hash b = hash then Ret (int i) else hash_index_loop hash brb n (Suc i)
       | None \<Rightarrow> hash_index_loop hash brb n (Suc i))"

definition rb_HashIndex :: "bytes \<Rightarrow> ring \<Rightarrow> int go" where
  "rb_HashIndex hash brb = hash_index_loop hash brb (rb_size brb) 0"

section \<open>A bounded history\<close>

fun index_of :: "('a \<Rightarrow> bool) \<Rightarrow> 'a list \<Rightarrow> nat option" where
  "index_of P [] = None"
| "index_of P (x # xs) = (if P x then Some 0 else map_option Suc (index_of P xs))"

lemma index_of_None: "index_of P xs = None \<longleftrightarrow> (\<forall>x \<in> set xs. \<not> P x)"
  by (induction xs) auto

lemma index_of_Some:
  "index_of P xs = Some i \<Longrightarrow> i < length xs \<and> P (xs ! i) \<and> (\<forall>j < i. \<not> P (xs ! j))"
proof (induction xs arbitrary: i)
  case (Cons x xs)
  then show ?case by (auto simp: nth_Cons split: if_splits nat.splits)
qed simp

text \<open>\<open>hist s\<close> is the content, latest first; \<open>cap s\<close> how many blocks are kept.\<close>

locale block_history =
  fixes ok :: "'s \<Rightarrow> bool"
    and cap :: "'s \<Rightarrow> nat"
    and hist :: "'s \<Rightarrow> mini_block list"
    and add :: "mini_block \<Rightarrow> 's \<Rightarrow> 's go"
    and get :: "nat \<Rightarrow> 's \<Rightarrow> mini_block option go"
    and hash_index :: "bytes \<Rightarrow> 's \<Rightarrow> int go"
  assumes add_ok: "ok s \<Longrightarrow> \<exists>t. add b s = Ret t \<and> ok t \<and> cap t = cap s \<and>
      hist t = take (cap s) (b # hist s)"
    and get_hist: "ok s \<Longrightarrow> i < cap s \<Longrightarrow>
      get i s = Ret (if i < length (hist s) then Some (hist s ! i) else None)"
    and hash_index_hist: "ok s \<Longrightarrow>
      hash_index h s = Ret (case index_of (\<lambda>b. mb_Hash b = h) (hist s) of
        None \<Rightarrow> - 1 | Some i \<Rightarrow> int i)"
    and cap_pos: "ok s \<Longrightarrow> 0 < cap s"
begin

fun add_all :: "mini_block list \<Rightarrow> 's \<Rightarrow> 's go" where
  "add_all [] s = Ret s"
| "add_all (b # bs) s = go_bind (add b s) (add_all bs)"

lemma add_all_hist:
  "ok s \<Longrightarrow> length (hist s) \<le> cap s \<Longrightarrow> \<exists>t. add_all bs s = Ret t \<and> ok t \<and> cap t = cap s \<and>
     hist t = take (cap s) (rev bs @ hist s)"
proof (induction bs arbitrary: s)
  case Nil
  then show ?case by simp
next
  case (Cons b bs)
  obtain u where u: "add b s = Ret u" "ok u" "cap u = cap s" "hist u = take (cap s) (b # hist s)"
    using add_ok [OF Cons.prems(1)] by blast
  from Cons.IH [OF u(2)] u obtain t where t: "add_all bs u = Ret t" "ok t" "cap t = cap s"
    "hist t = take (cap s) (rev bs @ take (cap s) (b # hist s))" by auto
  have "take (cap s) (rev bs @ take (cap s) (b # hist s)) = take (cap s) (rev (b # bs) @ hist s)"
    by (simp add: min_def)
  with u t show ?case by simp
qed

lemma add_get_0:
  assumes "ok s" and "add b s = Ret t"
  shows "get 0 t = Ret (Some b)"
proof -
  have t: "ok t" "cap t = cap s" "hist t = take (cap s) (b # hist s)"
    using add_ok [OF assms(1), of b] assms(2) by auto
  then show ?thesis using get_hist [OF t(1), of 0] cap_pos [OF t(1)]
    by (cases "cap s") auto
qed

lemma hash_index_known:
  "ok s \<Longrightarrow> \<exists>i. hash_index h s = Ret i \<and> (i \<noteq> - 1 \<longleftrightarrow> (\<exists>b \<in> set (hist s). mb_Hash b = h))"
proof -
  assume s: "ok s"
  show ?thesis
  proof (cases "index_of (\<lambda>b. mb_Hash b = h) (hist s)")
    case None
    then show ?thesis using s by (simp add: hash_index_hist) (simp add: index_of_None)
  next
    case (Some i)
    with index_of_Some [OF Some] s show ?thesis by (auto simp: hash_index_hist)
  qed
qed

end

section \<open>The ring buffer is one\<close>

text \<open>The block added \<open>i\<close> rounds ago.\<close>

definition ring_at :: "ring \<Rightarrow> nat \<Rightarrow> mini_block option" where
  "ring_at brb i = blocks brb ! ((rb_head brb + rb_size brb - i) mod rb_size brb)"

definition ring_view :: "ring \<Rightarrow> mini_block option list" where
  "ring_view brb = map (ring_at brb) [0..<rb_size brb]"

definition ring_hist :: "ring \<Rightarrow> mini_block list" where
  "ring_hist brb = map the (takeWhile (\<lambda>b. b \<noteq> None) (ring_view brb))"

definition ring_ok :: "ring \<Rightarrow> bool" where
  "ring_ok brb \<longleftrightarrow>
     length (blocks brb) = rb_size brb \<and> rb_head brb < rb_size brb \<and>
     ring_view brb = map Some (ring_hist brb) @ replicate (rb_size brb - length (ring_hist brb)) None"

lemma length_ring_view [simp]: "length (ring_view brb) = rb_size brb"
  by (simp add: ring_view_def)

lemma length_ring_hist: "length (ring_hist brb) \<le> rb_size brb"
  using length_takeWhile_le [of _ "ring_view brb"] by (simp add: ring_hist_def)

lemma ring_mod:
  fixes h n i :: nat
  assumes "i \<le> h" and "h < n"
  shows "(h + n - i) mod n = h - i"
proof -
  have "h + n - i = (h - i) + n" using assms(1) by simp
  then show ?thesis using assms by (simp only: mod_add_self2) simp
qed

lemma rb_Get_ring_at:
  assumes "ring_ok brb" and "i < rb_size brb"
  shows "rb_Get i brb = Ret (ring_at brb i)"
proof (cases "i \<le> rb_head brb")
  case True
  then have "(rb_head brb + rb_size brb - i) mod rb_size brb = rb_head brb - i"
    using assms by (intro ring_mod) (simp_all add: ring_ok_def)
  with True assms show ?thesis
    by (simp add: rb_Get_def ring_at_def go_index_def Let_def ring_ok_def nat_diff_distrib)
next
  case False
  then have "(rb_head brb + rb_size brb - i) mod rb_size brb = rb_head brb + rb_size brb - i"
    using assms by simp
  moreover have "nat (int (rb_head brb) - int i + int (rb_size brb)) = rb_head brb + rb_size brb - i"
    using False assms by simp
  ultimately show ?thesis using False assms
    by (auto simp: rb_Get_def ring_at_def go_index_def Let_def ring_ok_def)
qed

lemma ring_at_hist:
  assumes "ring_ok brb" and "i < rb_size brb"
  shows "ring_at brb i = (if i < length (ring_hist brb) then Some (ring_hist brb ! i) else None)"
proof -
  have "ring_at brb i = ring_view brb ! i" using assms(2) by (simp add: ring_view_def)
  also have "\<dots> = (map Some (ring_hist brb) @
      replicate (rb_size brb - length (ring_hist brb)) None) ! i"
    using assms(1) by (simp add: ring_ok_def)
  finally show ?thesis using assms(2) by (simp add: nth_append)
qed

lemma ring_at_Add:
  assumes "length (blocks brb) = rb_size brb" and "rb_head brb < rb_size brb"
    and "rb_Add b brb = Ret t" and "i < rb_size brb"
  shows "ring_at t i = (if i = 0 then Some b else ring_at brb (i - 1))"
proof -
  let ?n = "rb_size brb" and ?h = "(rb_head brb + 1) mod rb_size brb"
  have n: "0 < ?n" "?h < ?n" using assms(2) by auto
  then have t: "t = brb\<lparr>rb_head := ?h, blocks := (blocks brb)[?h := Some b]\<rparr>"
    using assms by (auto simp: rb_Add_def Let_def split: if_splits)
  show ?thesis
  proof (cases "i = 0")
    case True
    have "(?h + ?n) mod ?n = ?h" using n by simp
    with True t n assms(1) show ?thesis by (simp add: ring_at_def)
  next
    case False
    have ne: "(?h + ?n - i) mod ?n \<noteq> ?h"
    proof (cases "i \<le> ?h")
      case True
      then have "(?h + ?n - i) mod ?n = ?h - i" using n(2) by (rule ring_mod)
      with False True show ?thesis by simp
    next
      case 2: False
      then have "(?h + ?n - i) mod ?n = ?h + ?n - i" using assms(4) by simp
      with assms(4) show ?thesis by simp
    qed
    have "(?h + ?n - i) mod ?n = (rb_head brb + ?n - (i - 1)) mod ?n"
    proof (cases "rb_head brb + 1 = ?n")
      case True
      then have "rb_head brb + ?n - (i - 1) = (?n - i) + ?n" "?h = 0"
        using False assms(4) by auto
      then show ?thesis by simp
    next
      case 2: False
      then have "?h = rb_head brb + 1" using assms(2) by (intro mod_less) linarith
      moreover have "rb_head brb + 1 + ?n - i = rb_head brb + ?n - (i - 1)" using False by linarith
      ultimately show ?thesis by (simp only:)
    qed
    with ne False t show ?thesis by (simp add: ring_at_def)
  qed
qed

lemma ring_view_Add:
  assumes "ring_ok brb" and "rb_Add b brb = Ret t"
  shows "ring_view t = Some b # butlast (ring_view brb)" and "rb_size t = rb_size brb"
    and "length (blocks t) = rb_size t" and "rb_head t < rb_size t"
proof -
  show s: "rb_size t = rb_size brb" and "length (blocks t) = rb_size t" and "rb_head t < rb_size t"
    using assms by (auto simp: rb_Add_def Let_def ring_ok_def split: if_splits)
  have h: "length (blocks brb) = rb_size brb" "rb_head brb < rb_size brb"
    using assms(1) by (simp_all add: ring_ok_def)
  show "ring_view t = Some b # butlast (ring_view brb)"
  proof (rule nth_equalityI)
    show "length (ring_view t) = length (Some b # butlast (ring_view brb))"
      using h s by simp
    fix i assume "i < length (ring_view t)"
    then have i: "i < rb_size brb" using s by simp
    then have "ring_view t ! i = (if i = 0 then Some b else ring_at brb (i - 1))"
      using ring_at_Add [OF h assms(2) i] s by (simp add: ring_view_def)
    then show "ring_view t ! i = (Some b # butlast (ring_view brb)) ! i"
      using i by (cases i) (simp_all add: nth_butlast ring_view_def)
  qed
qed

lemma ring_hist_of_view:
  assumes "ring_view brb = map Some bs @ replicate k None"
  shows "ring_hist brb = bs"
proof -
  have "takeWhile (\<lambda>b. b \<noteq> None) (map Some bs @ replicate k None) = map Some bs"
    by (cases k) (simp_all add: takeWhile_append)
  then show ?thesis using assms by (simp add: ring_hist_def comp_def)
qed

lemma rb_Add_ok:
  assumes ok: "ring_ok brb"
  shows "\<exists>t. rb_Add b brb = Ret t \<and> ring_ok t \<and> rb_size t = rb_size brb \<and>
    ring_hist t = take (rb_size brb) (b # ring_hist brb)"
proof -
  let ?n = "rb_size brb" and ?bs = "ring_hist brb"
  have "0 < ?n" "length (blocks brb) = ?n" using ok by (auto simp: ring_ok_def)
  then obtain t where t: "rb_Add b brb = Ret t" by (simp add: rb_Add_def Let_def)
  note v = ring_view_Add [OF ok t]
  have l: "length ?bs \<le> ?n" by (rule length_ring_hist)
  have w: "ring_view brb = map Some ?bs @ replicate (?n - length ?bs) None"
    using ok by (simp add: ring_ok_def)
  have "ring_view t = map Some (take ?n (b # ?bs)) @ replicate (?n - length (take ?n (b # ?bs))) None"
  proof (cases "length ?bs = ?n")
    case True
    then have "butlast (ring_view brb) = map Some (butlast ?bs)"
      using w by (simp add: map_butlast)
    moreover have "take ?n (b # ?bs) = b # butlast ?bs"
      using True \<open>0 < ?n\<close> by (cases ?n) (simp_all add: butlast_conv_take)
    ultimately show ?thesis using v(1) True \<open>0 < ?n\<close> by simp
  next
    case False
    then obtain k where k: "?n - length ?bs = Suc k" using l by (metis Suc_diff_Suc le_neq_implies_less)
    then have "butlast (ring_view brb) = map Some ?bs @ replicate k None"
      using w by (simp add: butlast_append replicate_append_same [symmetric])
    moreover have "take ?n (b # ?bs) = b # ?bs" "?n - Suc (length ?bs) = k" using k by simp_all
    ultimately show ?thesis using v(1) by simp
  qed
  then have "ring_hist t = take ?n (b # ?bs)" and
    "ring_view t = map Some (ring_hist t) @ replicate (?n - length (ring_hist t)) None"
    using ring_hist_of_view by metis+
  then have "ring_ok t" using v by (simp add: ring_ok_def)
  then show ?thesis using t v(2) \<open>ring_hist t = _\<close> by blast
qed

lemma hash_index_loop_hist:
  assumes ok: "ring_ok brb"
  shows "i + n = rb_size brb \<Longrightarrow> hash_index_loop h brb n i =
    Ret (case index_of (\<lambda>b. mb_Hash b = h) (drop i (ring_hist brb)) of
           None \<Rightarrow> - 1 | Some j \<Rightarrow> int (i + j))"
proof (induction n arbitrary: i)
  case 0
  then show ?case using length_ring_hist [of brb] by simp
next
  case (Suc n)
  have g: "rb_Get i brb = Ret (if i < length (ring_hist brb) then Some (ring_hist brb ! i) else None)"
    using rb_Get_ring_at [OF ok, of i] ring_at_hist [OF ok, of i] Suc.prems by simp
  show ?case
  proof (cases "i < length (ring_hist brb)")
    case True
    then have d: "drop i (ring_hist brb) = ring_hist brb ! i # drop (Suc i) (ring_hist brb)"
      by (simp add: Cons_nth_drop_Suc)
    show ?thesis using g True Suc.IH [of "Suc i"] Suc.prems
      by (auto simp: d split: option.splits)
  next
    case False
    then show ?thesis using g Suc.IH [of "Suc i"] Suc.prems by simp
  qed
qed

lemma rb_HashIndex_hist:
  "ring_ok brb \<Longrightarrow> rb_HashIndex h brb =
     Ret (case index_of (\<lambda>b. mb_Hash b = h) (ring_hist brb) of None \<Rightarrow> - 1 | Some i \<Rightarrow> int i)"
  using hash_index_loop_hist [of brb 0 "rb_size brb" h]
  by (simp add: rb_HashIndex_def split: option.splits)

interpretation rb: block_history ring_ok rb_size ring_hist rb_Add rb_Get rb_HashIndex
proof
  fix s :: ring and b i h
  assume ok: "ring_ok s"
  show "\<exists>t. rb_Add b s = Ret t \<and> ring_ok t \<and> rb_size t = rb_size s \<and>
      ring_hist t = take (rb_size s) (b # ring_hist s)"
    by (rule rb_Add_ok [OF ok])
  show "rb_HashIndex h s =
      Ret (case index_of (\<lambda>b. mb_Hash b = h) (ring_hist s) of None \<Rightarrow> - 1 | Some i \<Rightarrow> int i)"
    by (rule rb_HashIndex_hist [OF ok])
  show "0 < rb_size s" using ok by (auto simp: ring_ok_def)
  show "i < rb_size s \<Longrightarrow>
      rb_Get i s = Ret (if i < length (ring_hist s) then Some (ring_hist s ! i) else None)"
    using rb_Get_ring_at [OF ok] ring_at_hist [OF ok] by simp
qed

lemma new_ring_ok: "0 < n \<Longrightarrow> ring_ok (newBlockRingBuffer n) \<and> ring_hist (newBlockRingBuffer n) = []"
proof -
  assume n: "0 < n"
  have "ring_view (newBlockRingBuffer n) = replicate n None"
    using n by (auto simp: ring_view_def ring_at_def newBlockRingBuffer_def list_eq_iff_nth_eq)
  then have v: "ring_view (newBlockRingBuffer n) = map Some [] @ replicate n None" by simp
  then have "ring_hist (newBlockRingBuffer n) = []" by (rule ring_hist_of_view)
  with v n show ?thesis by (simp add: ring_ok_def newBlockRingBuffer_def)
qed

text \<open>Adding the blocks of a list in turn, as the monitor does.\<close>

fun rb_add_all :: "mini_block list \<Rightarrow> ring \<Rightarrow> ring go" where
  "rb_add_all [] brb = Ret brb"
| "rb_add_all (b # bs) brb = go_bind (rb_Add b brb) (rb_add_all bs)"

lemma rb_add_all_eq: "rb_add_all bs = rb.add_all bs"
proof (induction bs)
  case (Cons b bs)
  then show ?case by (intro ext) simp
qed (simp add: fun_eq_iff)

text \<open>C27: the ring buffer is the list of the last \<open>n\<close> blocks: after any additions to a new buffer of
  size \<open>n\<close>, \<open>Get(i)\<close> is the block added \<open>i\<close> additions ago while fewer than \<open>n\<close> newer ones were
  added, nil beyond the first one, and \<open>HashIndex\<close> is the age of the latest kept block of that
  hash, or -1.\<close>

theorem ring_buffer_refines_list:
  assumes "0 < n" and "i < n"
  shows "\<exists>brb. rb_add_all bs (newBlockRingBuffer n) = Ret brb \<and>
    rb_Get i brb = Ret (if i < length bs then Some (rev bs ! i) else None) \<and>
    rb_HashIndex h brb = Ret (case index_of (\<lambda>b. mb_Hash b = h) (take n (rev bs)) of
      None \<Rightarrow> - 1 | Some j \<Rightarrow> int j)"
proof -
  have new: "ring_ok (newBlockRingBuffer n)" "ring_hist (newBlockRingBuffer n) = []"
    "rb_size (newBlockRingBuffer n) = n"
    using new_ring_ok [OF assms(1)] by (simp_all add: newBlockRingBuffer_def)
  then obtain brb where t: "rb.add_all bs (newBlockRingBuffer n) = Ret brb" "ring_ok brb"
    "rb_size brb = n" "ring_hist brb = take n (rev bs)"
    using rb.add_all_hist [OF new(1), of bs] by auto
  then show ?thesis
    using rb.get_hist [OF t(2), of i] rb.hash_index_hist [OF t(2), of h] assms(2)
    by (auto simp: rb_add_all_eq)
qed

definition sample_block :: "nat \<Rightarrow> mini_block" where
  "sample_block k = \<lparr>mb_Hash = [word_of_nat k], mb_Number = int k, mb_Bloom = []\<rparr>"

theorem ring_buffer_refines_list_witness:
  "\<exists>brb. rb_add_all (map sample_block [1, 2, 3]) (newBlockRingBuffer 2) = Ret brb \<and>
     rb_Get 1 brb = Ret (Some (sample_block 2)) \<and> rb_HashIndex [1] brb = Ret (- 1)"
  using ring_buffer_refines_list [of 2 1 "map sample_block [1, 2, 3]" "[1]"]
  by (simp add: sample_block_def numeral_2_eq_2)

end
