(* ===== verification/Deliveries.thy ===== *)
theory Deliveries
  imports Channels
begin

text \<open>
  The world in which the consumers are observed: the list of what they did to their publishers and
  to the delivery. The locale \<open>settling_consumer\<close> is the contract between a queue and its consumers:
  each delivery is settled (acknowledged, rejected or returned) exactly once, whatever its payload.
\<close>

datatype effect = Published nat string | Acked | Rejected | Returned

type_synonym trace = "effect list"

text \<open>Publisher number \<open>n\<close>, which accepts every message.\<close>

definition trace_publisher :: "nat \<Rightarrow> trace publisher" where
  "trace_publisher n payload t = (True, t @ [Published n payload])"

definition trace_delivery :: "string \<Rightarrow> trace delivery" where
  "trace_delivery payload =
     \<lparr>Payload = payload, Ack = (\<lambda>t. (True, t @ [Acked])), Reject = (\<lambda>t. (True, t @ [Rejected])),
      Return = (\<lambda>t. (True, t @ [Returned]))\<rparr>"

fun is_settled :: "effect \<Rightarrow> bool" where
  "is_settled (Published n p) = False"
| "is_settled _ = True"

definition settle_count :: "trace \<Rightarrow> nat" where
  "settle_count t = length (filter is_settled t)"

lemma trace_delivery_simps [simp]:
  "Payload (trace_delivery p) = p"
  "Ack (trace_delivery p) t = (True, t @ [Acked])"
  "Reject (trace_delivery p) t = (True, t @ [Rejected])"
  "Return (trace_delivery p) t = (True, t @ [Returned])"
  by (simp_all add: trace_delivery_def)

lemma settle_count_simps [simp]:
  "settle_count [] = 0"
  "settle_count (Published n p # t) = settle_count t"
  "settle_count (Acked # t) = Suc (settle_count t)"
  "settle_count (Rejected # t) = Suc (settle_count t)"
  "settle_count (Returned # t) = Suc (settle_count t)"
  "settle_count (s @ t) = settle_count s + settle_count t"
  by (simp_all add: settle_count_def)

text \<open>A consumer on a batch of payloads.\<close>

fun consume_batch :: "(trace delivery \<Rightarrow> trace \<Rightarrow> trace go) \<Rightarrow> string list \<Rightarrow> trace \<Rightarrow> trace go" where
  "consume_batch f [] t = Ret t"
| "consume_batch f (p # ps) t = go_bind (f (trace_delivery p) t) (consume_batch f ps)"

locale settling_consumer =
  fixes consume :: "trace delivery \<Rightarrow> trace \<Rightarrow> trace go"
  assumes settles: "\<exists>es. consume (trace_delivery p) t = Ret (t @ es) \<and> settle_count es = 1"
begin

text \<open>So a consumer never dies on a message and a batch leaves nothing outstanding.\<close>

lemma batch_settles:
  "\<exists>es. consume_batch consume ps t = Ret (t @ es) \<and> settle_count es = length ps"
proof (induction ps arbitrary: t)
  case Nil
  then show ?case by simp
next
  case (Cons p ps)
  obtain es where e: "consume (trace_delivery p) t = Ret (t @ es)" "settle_count es = 1"
    using settles by blast
  from Cons [of "t @ es"] obtain es' where "consume_batch consume ps (t @ es) = Ret ((t @ es) @ es')"
    "settle_count es' = length ps" by blast
  with e show ?case by (intro exI [of _ "es @ es'"]) simp
qed

end

section \<open>Consumers with a database\<close>

text \<open>The trace next to a database that only the operation of the consumer touches.\<close>

definition db_delivery :: "string \<Rightarrow> (trace \<times> 'd) delivery" where
  "db_delivery payload =
     \<lparr>Payload = payload, Ack = (\<lambda>(t, d). (True, t @ [Acked], d)),
      Reject = (\<lambda>(t, d). (True, t @ [Rejected], d)), Return = (\<lambda>(t, d). (True, t @ [Returned], d))\<rparr>"

definition on_db :: "('d \<Rightarrow> ('r \<times> 'd) go) \<Rightarrow> trace \<times> 'd \<Rightarrow> ('r \<times> trace \<times> 'd) go" where
  "on_db f v = go_map (\<lambda>(r, d). (r, fst v, d)) (f (snd v))"

lemma db_delivery_simps [simp]:
  "Payload (db_delivery p) = p"
  "Ack (db_delivery p) (t, d) = (True, t @ [Acked], d)"
  "Reject (db_delivery p) (t, d) = (True, t @ [Rejected], d)"
  "Return (db_delivery p) (t, d) = (True, t @ [Returned], d)"
  by (simp_all add: db_delivery_def)

end
