(* ===== verification/EventLogs.thy ===== *)
theory EventLogs
  imports Signatures RingBuffer Deliveries
begin

unbundle bit_operations_syntax

text \<open>
  The chain's event logs as the block consumers of \<open>monitor/\<close> see them: the bloom filter of a block
  header (\<open>core/types/bloom9.go\<close> of the vendored go-ethereum), the log query of a node and its mock
  (\<open>monitor/blocks/mock/mock.go\<close>), and the frame shared by the consumers: parse the block, look into
  its bloom filter, fetch the logs, handle them in order, acknowledge.
\<close>

section \<open>Logs and bloom filters\<close>

record event_log =
  l_Address :: bytes
  l_Topics :: "bytes list"
  l_Data :: bytes

definition bloom_bit :: "bytes \<Rightarrow> nat \<Rightarrow> nat" where
  "bloom_bit digest i = (unat (digest ! (i + 1)) + push_bit 8 (unat (digest ! i))) AND 2047"

definition bloom9 :: "crypto \<Rightarrow> bytes \<Rightarrow> int" where
  "bloom9 C b =
     (let digest = keccak256 C b in
      fold (\<lambda>i r. r OR push_bit (bloom_bit digest i) 1) [0, 2, 4] 0)"

definition LogsBloom :: "crypto \<Rightarrow> event_log list \<Rightarrow> int" where
  "LogsBloom C logs =
     fold (\<lambda>l bin. fold (\<lambda>t bin. bin OR bloom9 C t) (l_Topics l) (bin OR bloom9 C (l_Address l))) logs 0"

text \<open>\<open>BytesToBloom\<close> of a big integer's bytes: the 256 bytes of a header.\<close>

definition BytesToBloom :: "int \<Rightarrow> bytes" where
  "BytesToBloom bin = be_bytes 256 (nat bin)"

text \<open>The topic is anything with a \<open>Bytes\<close> method: a hash gives its 32 bytes, a \<open>big.Int\<close> its bytes
  without leading zeros.\<close>

definition BloomLookup :: "crypto \<Rightarrow> bytes \<Rightarrow> bytes \<Rightarrow> bool" where
  "BloomLookup C bin topic = (int (be_nat bin) AND bloom9 C topic = bloom9 C topic)"

definition big_Bytes :: "int \<Rightarrow> bytes" where "big_Bytes n = min_bytes (nat \<bar>n\<bar>)"

definition BigToHash :: "int \<Rightarrow> bytes" where "BigToHash n = be_bytes 32 (nat \<bar>n\<bar>)"
definition BigToAddress :: "int \<Rightarrow> bytes" where "BigToAddress n = be_bytes 20 (nat \<bar>n\<bar>)"

lemma bit_bloom9:
  "bit (bloom9 C b) n \<longleftrightarrow> (\<exists>i \<in> {0, 2, 4}. n = bloom_bit (keccak256 C b) i)"
  by (auto simp: bloom9_def Let_def bit_simps)

lemma bloom_bit_less: "bloom_bit d i < 2048"
proof -
  have "bloom_bit d i = take_bit 11 (unat (d ! (i + 1)) + push_bit 8 (unat (d ! i)))"
    by (simp add: bloom_bit_def take_bit_eq_mask mask_eq_exp_minus_1)
  also have "\<dots> < 2 ^ 11" by (rule take_bit_nat_less_exp)
  finally show ?thesis by simp
qed

lemma bit_fold_or:
  "bit (fold (\<lambda>t bin. bin OR bloom9 C t) ts x) n \<longleftrightarrow> bit x n \<or> (\<exists>t \<in> set ts. bit (bloom9 C t) n)"
  by (induction ts arbitrary: x) (auto simp: bit_simps)

lemma bit_LogsBloom_from:
  "bit (fold (\<lambda>l bin. fold (\<lambda>t bin. bin OR bloom9 C t) (l_Topics l) (bin OR bloom9 C (l_Address l))) logs x) n
   \<longleftrightarrow> bit x n \<or> (\<exists>l \<in> set logs. \<exists>t \<in> set (l_Address l # l_Topics l). bit (bloom9 C t) n)"
  by (induction logs arbitrary: x) (auto simp: bit_fold_or bit_simps)

lemma bit_LogsBloom:
  "bit (LogsBloom C logs) n \<longleftrightarrow> (\<exists>l \<in> set logs. \<exists>t \<in> set (l_Address l # l_Topics l). bit (bloom9 C t) n)"
  by (simp add: LogsBloom_def bit_LogsBloom_from)

lemma LogsBloom_range: "0 \<le> LogsBloom C logs \<and> LogsBloom C logs < 2 ^ 2048"
proof -
  have "take_bit 2048 (LogsBloom C logs) = LogsBloom C logs"
    by (rule bit_eqI) (auto simp: bit_take_bit_iff bit_LogsBloom bit_bloom9 bloom_bit_less)
  then show ?thesis by (metis take_bit_int_less_exp take_bit_nonnegative)
qed

lemma BytesToBloom_LogsBloom: "int (be_nat (BytesToBloom (LogsBloom C logs))) = LogsBloom C logs"
proof -
  have "nat (LogsBloom C logs) < 256 ^ 256"
  proof -
    have "nat (LogsBloom C logs) < nat (2 ^ 2048)" using LogsBloom_range [of C logs] by linarith
    also have "nat (2 ^ 2048) = 2 ^ 2048" by (simp add: nat_power_eq)
    also have "(2 :: nat) ^ 2048 = (2 ^ 8) ^ 256" unfolding power_mult [symmetric] by simp
    also have "\<dots> = 256 ^ 256" by (rule arg_cong [of _ _ "\<lambda>b. b ^ 256"]) simp
    finally show ?thesis .
  qed
  then show ?thesis
    using LogsBloom_range [of C logs] by (simp add: BytesToBloom_def del: numeral_power_eq_of_nat_cancel_iff)
qed

text \<open>The bloom filter of a block's logs never rules out an address or topic of one of them. It rules out
  what has a bit that none of theirs has.\<close>

lemma bloom_complete:
  assumes "l \<in> set logs" and "x \<in> set (l_Address l # l_Topics l)"
  shows "BloomLookup C (BytesToBloom (LogsBloom C logs)) x"
proof -
  have "LogsBloom C logs AND bloom9 C x = bloom9 C x"
    using assms by (intro bit_eqI) (auto simp: bit_and_iff bit_LogsBloom)
  then show ?thesis by (simp add: BloomLookup_def BytesToBloom_LogsBloom)
qed

lemma bloom_rules_out:
  assumes "bit (bloom9 C x) n" and "\<forall>l \<in> set logs. \<forall>t \<in> set (l_Address l # l_Topics l). \<not> bit (bloom9 C t) n"
  shows "\<not> BloomLookup C (BytesToBloom (LogsBloom C logs)) x"
proof
  assume "BloomLookup C (BytesToBloom (LogsBloom C logs)) x"
  then have "bit (LogsBloom C logs AND bloom9 C x) n" using assms(1) by (simp add: BloomLookup_def BytesToBloom_LogsBloom)
  then show False using assms(2) by (auto simp: bit_and_iff bit_LogsBloom)
qed

text \<open>A number with all its bytes in place is looked up under them; one with leading zeros under its
  shorter form.\<close>

lemma big_Bytes_full: "a \<noteq> [] \<Longrightarrow> hd a \<noteq> 0 \<Longrightarrow> big_Bytes (int (be_nat a)) = a"
  by (simp add: big_Bytes_def min_bytes_be_nat)

section \<open>Log queries\<close>

record filter_query =
  q_From :: "int option"
  q_To :: "int option"
  q_Addresses :: "bytes list"
  q_Topics :: "bytes list list"

fun topics_match :: "bytes list list \<Rightarrow> bytes list \<Rightarrow> bool" where
  "topics_match [] ts = True"
| "topics_match (w # ws) [] = False"
| "topics_match (w # ws) (t # ts) = ((w = [] \<or> t \<in> set w) \<and> topics_match ws ts)"

text \<open>The logs of the block that a node returns: an empty list of addresses or of alternatives
  for a topic matches all; a log needs as many topics as the query has places.\<close>

definition log_matches :: "filter_query \<Rightarrow> event_log \<Rightarrow> bool" where
  "log_matches q l =
     ((q_Addresses q = [] \<or> l_Address l \<in> set (q_Addresses q)) \<and> topics_match (q_Topics q) (l_Topics l))"

text \<open>The mock filterer does not look at the block, and indexes the log's topics.\<close>

fun mock_topics :: "bytes list list \<Rightarrow> bytes list \<Rightarrow> bool go" where
  "mock_topics [] ts = Ret True"
| "mock_topics (w # ws) ts =
     (if w = [] then mock_topics ws (tl ts)
      else case ts of
             [] \<Rightarrow> Panic IndexOutOfRange
           | t # ts' \<Rightarrow> if t \<in> set w then mock_topics ws ts' else Ret False)"

fun mock_FilterLogs :: "event_log list \<Rightarrow> filter_query \<Rightarrow> event_log list go" where
  "mock_FilterLogs [] q = Ret []"
| "mock_FilterLogs (l # ls) q =
     (if q_Addresses q \<noteq> [] \<and> l_Address l \<notin> set (q_Addresses q) then mock_FilterLogs ls q
      else go_bind (mock_topics (q_Topics q) (l_Topics l)) (\<lambda>m.
           go_map (\<lambda>rest. if m then l # rest else rest) (mock_FilterLogs ls q)))"

lemma mock_topics_match: "length ws \<le> length ts \<Longrightarrow> mock_topics ws ts = Ret (topics_match ws ts)"
  by (induction ws ts rule: topics_match.induct) auto

text \<open>On logs with enough topics the mock answers as a node does.\<close>

lemma mock_FilterLogs_matches:
  "list_all (\<lambda>l. length (q_Topics q) \<le> length (l_Topics l)) logs \<Longrightarrow>
   mock_FilterLogs logs q = Ret (filter (log_matches q) logs)"
  by (induction logs) (auto simp: mock_topics_match log_matches_def)

section \<open>Block consumers\<close>

text \<open>What a consumer makes of a payload: the block, whose number may be nil, and the decoding error,
  which the consumers only log.\<close>

record seen_block =
  sb_Hash :: bytes
  sb_Number :: "int option"
  sb_Bloom :: bytes

type_synonym block_parse = "string \<Rightarrow> seen_block \<times> err option"

type_synonym 'v log_filter = "filter_query \<Rightarrow> 'v \<Rightarrow> err + event_log list"

text \<open>A handler returns, or the process ends with \<open>log.Fatalf\<close> in the world it leaves.\<close>

datatype 'v handled = Handled 'v | Fatal err 'v

fun each_log :: "(event_log \<Rightarrow> 'v \<Rightarrow> 'v handled go) \<Rightarrow> event_log list \<Rightarrow> 'v \<Rightarrow> 'v handled go" where
  "each_log f [] v = Ret (Handled v)"
| "each_log f (l # ls) v =
     go_bind (f l v) (\<lambda>r. case r of Handled v' \<Rightarrow> each_log f ls v' | Fatal e v' \<Rightarrow> Ret (Fatal e v'))"

definition with_logs ::
  "'v log_filter \<Rightarrow> filter_query \<Rightarrow> 'v delivery \<Rightarrow> (event_log list \<Rightarrow> 'v \<Rightarrow> 'v handled go) \<Rightarrow> 'v
     \<Rightarrow> 'v handled go"
where
  "with_logs FilterLogs query msg f v =
     (case FilterLogs query v of
        Inl e \<Rightarrow> Ret (Fatal e (snd (Return msg v)))
      | Inr logs \<Rightarrow> f logs v)"

definition then_ack :: "'v delivery \<Rightarrow> 'v handled go \<Rightarrow> 'v handled go" where
  "then_ack msg r =
     go_map (\<lambda>h. case h of Handled v \<Rightarrow> Handled (snd (Ack msg v)) | Fatal e v \<Rightarrow> Fatal e v) r"

text \<open>A handler that publishes a payload for a log, skips it, or indexes out of its topics.\<close>

definition publish_log :: "'v publisher \<Rightarrow> (event_log \<Rightarrow> string option go) \<Rightarrow> event_log \<Rightarrow> 'v \<Rightarrow> 'v handled go" where
  "publish_log pub payload_of l v =
     go_map (\<lambda>p. case p of None \<Rightarrow> Handled v | Some payload \<Rightarrow> Handled (snd (pub payload v))) (payload_of l)"

lemma each_publish_log:
  assumes "\<forall>l \<in> set logs. payload_of l = Ret (g l)"
  shows "each_log (publish_log (trace_publisher n) payload_of) logs t =
    Ret (Handled (t @ map (Published n) (List.map_filter g logs)))"
  using assms
  by (induction logs arbitrary: t)
     (auto simp: publish_log_def trace_publisher_def List.map_filter_simps split: option.splits)

end
