(* ===== verification/Blocks.thy ===== *)
theory Blocks
  imports RingBuffer Channels "HOL-Library.AList"
begin

text \<open>
  The block monitor (\<open>monitor/blocks/blocks.go\<close>): it follows the node's chain, publishes each new
  block, rewinds over reorganisations with the ring buffer and records the last block number
  (\<open>block_recorder.go\<close>). The node, the publisher and the recorder are the operations of the record
  \<open>node\<close> over an abstract world; the mocks of \<open>mock_get_header.go\<close> and \<open>block_recorder.go\<close> are an
  instance.
\<close>

section \<open>Headers and the interfaces of the monitor\<close>

record header =
  h_Parent :: bytes
  h_Number :: int
  h_Bloom :: bytes
  h_Extra :: bytes

datatype hg_err = NotFound | OtherErr err

record 'w node =
  header_hash :: "header \<Rightarrow> bytes"
  HeaderByNumber :: "int option \<Rightarrow> 'w \<Rightarrow> (header option \<times> hg_err option) \<times> 'w"
  HeaderByHash :: "bytes \<Rightarrow> 'w \<Rightarrow> (header option \<times> hg_err option) \<times> 'w"
  Publisher :: "'w publisher"
  Recorder_Record :: "int \<Rightarrow> 'w \<Rightarrow> err option \<times> 'w"
  Recorder_Get :: "'w \<Rightarrow> (int option \<times> err option) \<times> 'w"
  block_text :: "mini_block \<Rightarrow> string"
  quit_signal :: "'w \<Rightarrow> bool \<times> 'w"

text \<open>\<open>big.Int.Int64()\<close>: the low 64 bits, signed.\<close>

definition int64_of :: "int \<Rightarrow> int" where
  "int64_of n = (n + 2 ^ 63) mod 2 ^ 64 - 2 ^ 63"

lemma int64_of_small: "- (2 ^ 63) \<le> n \<Longrightarrow> n < 2 ^ 63 \<Longrightarrow> int64_of n = n"
  by (simp add: int64_of_def)

text \<open>\<open>redisBlockRecorder\<close>.\<close>

definition redis_Record :: "'r redis \<Rightarrow> string \<Rightarrow> int \<Rightarrow> 'r \<Rightarrow> err option \<times> 'r" where
  "redis_Record R key blockNumber w =
     (case KSet R key (big_String blockNumber) w of (r, w') \<Rightarrow> (reply_err r, w'))"

definition redis_Get :: "'r redis \<Rightarrow> string \<Rightarrow> 'r \<Rightarrow> (int option \<times> err option) \<times> 'r" where
  "redis_Get R key w =
     (case KGet R key w of (result, w') \<Rightarrow>
        (case reply_err result of
           Some e \<Rightarrow> ((None, Some e), w')
         | None \<Rightarrow>
             (case Atoi (reply_str result) of
                Inl e \<Rightarrow> ((None, Some e), w')
              | Inr n \<Rightarrow> ((Some n, None), w'))))"

text \<open>A recorded block number is what a restarted monitor gets back.\<close>

lemma redis_recorder_roundtrip:
  assumes R: "redis_kv_ok R kv" and n: "- (2 ^ 63) \<le> n" "n < 2 ^ 63"
  shows "\<exists>w'. redis_Record R key n w = (None, w') \<and>
    fst (redis_Get R key w') = (Some n, None)"
proof -
  obtain s' where s: "KSet R key (big_String n) w = (RStr ''OK'', s')" "kv s' = (kv w)(key \<mapsto> big_String n)"
    using R unfolding redis_kv_ok_def by blast
  obtain t where "KGet R key s' = (case kv s' key of None \<Rightarrow> RNil | Some v \<Rightarrow> RStr v, t)"
    using R unfolding redis_kv_ok_def by blast
  with s have "KGet R key s' = (RStr (big_String n), t)" by simp
  with s n show ?thesis
    by (simp add: redis_Record_def redis_Get_def reply_err_def reply_str_def Atoi_big_String)
qed

section \<open>The monitor\<close>

datatype process_err = HeaderError hg_err | PublishError | RecordError err

definition mini_of :: "'w node \<Rightarrow> header \<Rightarrow> mini_block" where
  "mini_of env h =
     \<lparr>mb_Hash = header_hash env h, mb_Number = h_Number h, mb_Bloom = h_Bloom h\<rparr>"

definition bm_publish :: "'w node \<Rightarrow> mini_block \<Rightarrow> 'w \<Rightarrow> process_err option \<times> 'w" where
  "bm_publish env block w =
     (case Publisher env (block_text env block) w of (result, w1) \<Rightarrow>
        if result then
          (case Recorder_Record env (mb_Number block) w1 of (e, w2) \<Rightarrow> (map_option RecordError e, w2))
        else (Some PublishError, w1))"

definition deref_block :: "mini_block option \<Rightarrow> mini_block go" where
  "deref_block b = (case b of None \<Rightarrow> Panic NilDereference | Some x \<Rightarrow> Ret x)"

text \<open>The state after a round of the main loop, or the value \<open>Process\<close> returns.\<close>

datatype 'w outcome = Again ring 'w | Returned "process_err option" 'w

definition add_and_publish :: "'w node \<Rightarrow> header \<Rightarrow> ring \<Rightarrow> 'w \<Rightarrow> 'w outcome go" where
  "add_and_publish env h brb w =
     go_bind (rb_Add (mini_of env h) brb) (\<lambda>brb'.
     go_bind (rb_Get 0 brb') (\<lambda>latest.
     go_bind (deref_block latest) (\<lambda>block.
     case bm_publish env block w of
       (Some e, w') \<Rightarrow> Ret (Returned (Some e) w')
     | (None, w') \<Rightarrow> Ret (Again brb' w'))))"

text \<open>What \<open>Process\<close> does before its loop: the last recorded block (the latest one of the chain when
  there is none) enters the buffer, and is published only if it is block 0.\<close>

definition Process_start :: "'w node \<Rightarrow> ring \<Rightarrow> 'w \<Rightarrow> 'w outcome go" where
  "Process_start env brb w =
     (case Recorder_Get env w of ((blockNumber, e), w1) \<Rightarrow>
        case HeaderByNumber env blockNumber w1 of
          ((hdr, Some e'), w2) \<Rightarrow> Ret (Returned (Some (HeaderError e')) w2)
        | ((None, None), w2) \<Rightarrow> Panic NilDereference
        | ((Some h, None), w2) \<Rightarrow>
            if int64_of (h_Number h) = 0 then add_and_publish env h brb w2
            else go_map (\<lambda>brb'. Again brb' w2) (rb_Add (mini_of env h) brb))"

text \<open>The inner loop, with the rounds it has left: back along the parents until one is known, block
  0 is reached, or the buffer's size is exhausted. When the node does not know a parent, the code
  logs a field of the header it did not get.\<close>

datatype 'w wound = Found header 'w | Retry 'w | WindError hg_err 'w

fun wind_back :: "'w node \<Rightarrow> ring \<Rightarrow> nat \<Rightarrow> header \<Rightarrow> 'w \<Rightarrow> 'w wound go" where
  "wind_back env brb 0 h w = go_map (\<lambda>i. Found h w) (rb_HashIndex (h_Parent h) brb)"
| "wind_back env brb (Suc n) h w =
     go_bind (rb_HashIndex (h_Parent h) brb) (\<lambda>i.
       if i = - 1 then
         if int64_of (h_Number h) = 0 then Ret (Found h w)
         else (case HeaderByHash env (h_Parent h) w of
                 ((None, Some NotFound), w') \<Rightarrow> Panic NilDereference
               | ((Some _, Some NotFound), w') \<Rightarrow> Ret (Retry w')
               | ((_, Some e), w') \<Rightarrow> Ret (WindError e w')
               | ((None, None), w') \<Rightarrow> Panic NilDereference
               | ((Some h', None), w') \<Rightarrow> wind_back env brb n h' w')
       else Ret (Found h w))"

definition Process_round :: "'w node \<Rightarrow> ring \<Rightarrow> 'w \<Rightarrow> 'w outcome go" where
  "Process_round env brb w0 =
     (case quit_signal env w0 of
        (True, w) \<Rightarrow> Ret (Returned None w)
      | (False, w) \<Rightarrow>
          go_bind (rb_Get 0 brb) (\<lambda>latest.
          go_bind (deref_block latest) (\<lambda>last_block.
          case HeaderByNumber env (Some (mb_Number last_block + 1)) w of
            ((_, Some NotFound), w1) \<Rightarrow> Ret (Again brb w1)
          | ((_, Some e), w1) \<Rightarrow> Ret (Returned (Some (HeaderError e)) w1)
          | ((None, None), w1) \<Rightarrow> Panic NilDereference
          | ((Some h, None), w1) \<Rightarrow>
              go_bind (wind_back env brb (rb_size brb) h w1) (\<lambda>r.
              case r of
                Retry w2 \<Rightarrow> Ret (Again brb w2)
              | WindError e w2 \<Rightarrow> Ret (Returned (Some (HeaderError e)) w2)
              | Found h' w2 \<Rightarrow>
                  go_bind (rb_HashIndex (header_hash env h') brb) (\<lambda>i.
                  if i \<noteq> - 1
                  then Panic (Exited ''No parents found, but current block already exists.'')
                  else add_and_publish env h' brb w2)))))"

fun Process_rounds :: "'w node \<Rightarrow> nat \<Rightarrow> ring \<Rightarrow> 'w \<Rightarrow> 'w outcome go" where
  "Process_rounds env 0 brb w = Ret (Again brb w)"
| "Process_rounds env (Suc n) brb w =
     go_bind (Process_round env brb w) (\<lambda>r.
       case r of
         Again brb' w' \<Rightarrow> Process_rounds env n brb' w'
       | Returned e w' \<Rightarrow> Ret (Returned e w'))"

text \<open>\<open>Process\<close> with \<open>n\<close> rounds of its loop.\<close>

definition Process :: "'w node \<Rightarrow> nat \<Rightarrow> nat \<Rightarrow> 'w \<Rightarrow> 'w outcome go" where
  "Process env sz n w =
     go_bind (Process_start env (newBlockRingBuffer sz) w) (\<lambda>r.
       case r of
         Again brb w' \<Rightarrow> Process_rounds env n brb w'
       | Returned e w' \<Rightarrow> Ret (Returned e w'))"

section \<open>What a round publishes\<close>

text \<open>A node that answers a request by hash with the header of that hash.\<close>

definition node_ok :: "'w node \<Rightarrow> bool" where
  "node_ok env \<longleftrightarrow>
     (\<forall>p w hdr w'. HeaderByHash env p w = ((Some hdr, None), w') \<longrightarrow> header_hash env hdr = p)"

fun parent_chain :: "'w node \<Rightarrow> header list \<Rightarrow> bool" where
  "parent_chain env (h # h' # hs) =
     (h_Parent h = header_hash env h' \<and> parent_chain env (h' # hs))"
| "parent_chain env hs = True"

definition known :: "bytes \<Rightarrow> ring \<Rightarrow> bool" where
  "known hash brb = (\<exists>b \<in> set (ring_hist brb). mb_Hash b = hash)"

lemma HashIndex_known:
  assumes "ring_ok brb"
  obtains i where "rb_HashIndex hash brb = Ret i" and "i \<noteq> - 1 \<longleftrightarrow> known hash brb"
  using rb.hash_index_known [OF assms, of hash] by (auto simp: known_def)

lemma wind_back_chain:
  assumes ok: "ring_ok brb" and env: "node_ok env"
  shows "wind_back env brb n h w = Ret (Found h' w') \<Longrightarrow>
    \<exists>hs. parent_chain env (h # hs) \<and> last (h # hs) = h' \<and> length hs \<le> n \<and>
      (\<forall>x \<in> set (butlast (h # hs)). \<not> known (h_Parent x) brb) \<and>
      (known (h_Parent h') brb \<or> int64_of (h_Number h') = 0 \<or> length hs = n)"
proof (induction n arbitrary: h w)
  case 0
  then show ?case by (intro exI [of _ "[]"]) (auto simp: go_simps)
next
  case (Suc n)
  obtain i where i: "rb_HashIndex (h_Parent h) brb = Ret i" "i \<noteq> - 1 \<longleftrightarrow> known (h_Parent h) brb"
    using HashIndex_known [OF ok] by blast
  show ?case
  proof (cases "i \<noteq> - 1 \<or> int64_of (h_Number h) = 0")
    case True
    with Suc.prems i show ?thesis by (intro exI [of _ "[]"]) (auto split: if_splits)
  next
    case False
    with Suc.prems i obtain h1 w1 where h1: "HeaderByHash env (h_Parent h) w = ((Some h1, None), w1)"
      and r: "wind_back env brb n h1 w1 = Ret (Found h' w')"
      by (auto split: prod.splits option.splits hg_err.splits)
    from Suc.IH [OF r] obtain hs where hs: "parent_chain env (h1 # hs)" "last (h1 # hs) = h'"
      "length hs \<le> n" "\<forall>x \<in> set (butlast (h1 # hs)). \<not> known (h_Parent x) brb"
      "known (h_Parent h') brb \<or> int64_of (h_Number h') = 0 \<or> length hs = n" by blast
    have "header_hash env h1 = h_Parent h" using env h1 unfolding node_ok_def by blast
    with hs False i show ?thesis by (intro exI [of _ "h1 # hs"]) auto
  qed
qed

lemma add_and_publish_Again:
  assumes ok: "ring_ok brb" and r: "add_and_publish env h brb w = Ret (Again brb' w')"
  shows "ring_ok brb' \<and> rb_size brb' = rb_size brb \<and>
    ring_hist brb' = take (rb_size brb) (mini_of env h # ring_hist brb) \<and>
    bm_publish env (mini_of env h) w = (None, w')"
proof -
  obtain t where t: "rb_Add (mini_of env h) brb = Ret t" "ring_ok t" "rb_size t = rb_size brb"
    "ring_hist t = take (rb_size brb) (mini_of env h # ring_hist brb)"
    using rb.add_ok [OF ok] by blast
  moreover have "rb_Get 0 t = Ret (Some (mini_of env h))" by (rule rb.add_get_0 [OF ok t(1)])
  ultimately show ?thesis using r
    by (auto simp: add_and_publish_def deref_block_def split: prod.splits option.splits)
qed

lemma Process_round_adds:
  assumes ok: "ring_ok brb" and r: "Process_round env brb w = Ret (Again brb' w')"
    and new: "brb' \<noteq> brb"
  obtains h h' w1 w2 where "wind_back env brb (rb_size brb) h w1 = Ret (Found h' w2)"
    and "\<not> known (header_hash env h') brb" and "add_and_publish env h' brb w2 = Ret (Again brb' w')"
proof -
  obtain qb wq where q: "quit_signal env w = (qb, wq)" by (cases "quit_signal env w")
  with r have qb: "\<not> qb" by (auto simp: Process_round_def split: bool.splits)
  with r q obtain last_block where g: "rb_Get 0 brb = Ret (Some last_block)"
    by (auto simp: Process_round_def go_simps deref_block_def split: option.splits)
  let ?number = "HeaderByNumber env (Some (mb_Number last_block + 1)) wq"
  obtain hdr e w1 where n: "?number = ((hdr, e), w1)" by (cases ?number) auto
  have e: "e = None"
    using r q qb g n new
    by (cases e; cases hdr) (auto simp: Process_round_def deref_block_def split: hg_err.splits)
  obtain h where h: "hdr = Some h"
    using r q qb g n e by (cases hdr) (auto simp: Process_round_def deref_block_def)
  obtain u where u: "wind_back env brb (rb_size brb) h w1 = Ret u"
    using r q qb g n e h by (auto simp: Process_round_def deref_block_def go_simps)
  obtain h' w2 where f: "u = Found h' w2"
    using r q qb g n e h u new by (cases u) (auto simp: Process_round_def deref_block_def)
  note wind = u [unfolded f]
  obtain i where i: "rb_HashIndex (header_hash env h') brb = Ret i" "i = - 1"
    and a: "add_and_publish env h' brb w2 = Ret (Again brb' w')"
    using r q qb g n e h u f
    by (auto simp: Process_round_def deref_block_def go_simps split: if_splits)
  have "\<not> known (header_hash env h') brb"
    using HashIndex_known [OF ok, of "header_hash env h'"] i by (metis go.inject(1))
  with wind a show ?thesis using that by blast
qed


section \<open>The mocks\<close>

record mock_world =
  mock_headers :: "(int \<times> header) list"
  mock_published :: "string list"
  mock_number :: "int option"

definition mock_HeaderByNumber ::
  "int option \<Rightarrow> mock_world \<Rightarrow> (header option \<times> hg_err option) \<times> mock_world"
where
  "mock_HeaderByNumber bigIdx w =
     (let n = int (length (mock_headers w));
          index = (case bigIdx of None \<Rightarrow> n - 1 | Some i \<Rightarrow> int64_of i)
      in if index \<ge> n then ((None, Some NotFound), w)
         else ((map_of (mock_headers w) index, None), w))"

text \<open>The walk over the map has no fixed order; the list's order stands for it.\<close>

definition mock_HeaderByHash ::
  "(header \<Rightarrow> bytes) \<Rightarrow> bytes \<Rightarrow> mock_world \<Rightarrow> (header option \<times> hg_err option) \<times> mock_world"
where
  "mock_HeaderByHash hash p w =
     (case find (\<lambda>(k, hdr). hash hdr = p) (mock_headers w) of
        Some (k, hdr) \<Rightarrow> ((Some hdr, None), w)
      | None \<Rightarrow> ((None, Some NotFound), w))"

definition AddHeader :: "header \<Rightarrow> mock_world \<Rightarrow> mock_world" where
  "AddHeader hdr w = w\<lparr>mock_headers := AList.update (int64_of (h_Number hdr)) hdr (mock_headers w)\<rparr>"

definition mock_Record :: "int \<Rightarrow> mock_world \<Rightarrow> err option \<times> mock_world" where
  "mock_Record n w = (None, w\<lparr>mock_number := Some n\<rparr>)"

definition mock_Get :: "mock_world \<Rightarrow> (int option \<times> err option) \<times> mock_world" where
  "mock_Get w =
     (case mock_number w of
        Some n \<Rightarrow> ((Some n, None), w)
      | None \<Rightarrow> ((None, Some ''No block set''), w))"

definition mock_publish :: "mock_world publisher" where
  "mock_publish payload w = (True, w\<lparr>mock_published := mock_published w @ [payload]\<rparr>)"

definition mock_node :: "(header \<Rightarrow> bytes) \<Rightarrow> mock_world node" where
  "mock_node hash =
     \<lparr>header_hash = hash, HeaderByNumber = mock_HeaderByNumber, HeaderByHash = mock_HeaderByHash hash,
      Publisher = mock_publish, Recorder_Record = mock_Record, Recorder_Get = mock_Get,
      block_text = (\<lambda>b. string_of_bytes (mb_Hash b)), quit_signal = Pair False\<rparr>"

lemma mock_node_ok: "node_ok (mock_node hash)"
  by (auto simp: node_ok_def mock_node_def mock_HeaderByHash_def find_Some_iff case_prod_beta
      split: option.splits) (metis snd_conv)

text \<open>A header's hash in the samples: its number and extra data.\<close>

definition sample_hash :: "header \<Rightarrow> bytes" where
  "sample_hash h = word_of_int (h_Number h) # h_Extra h"

definition sample_header :: "int \<Rightarrow> header" where
  "sample_header k = \<lparr>h_Parent = [word_of_int (k - 1)], h_Number = k, h_Bloom = [], h_Extra = []\<rparr>"

definition sample_world :: mock_world where
  "sample_world = \<lparr>mock_headers = [(4, sample_header 4), (5, sample_header 5)] @
      map (\<lambda>k. (k, sample_header k)) [0, 1, 2, 3], mock_published = [], mock_number = Some 4\<rparr>"

definition sample_ring :: ring where
  "sample_ring = \<lparr>blocks = [None, Some (mini_of (mock_node sample_hash) (sample_header 4))],
     rb_size = 2, rb_head = 1\<rparr>"

lemma sample_ring_added:
  "rb_add_all [mini_of (mock_node sample_hash) (sample_header 4)] (newBlockRingBuffer 2) = Ret sample_ring"
  by (simp add: newBlockRingBuffer_def rb_Add_def sample_ring_def numeral_2_eq_2)

lemma sample_ring_ok: "ring_ok sample_ring"
  using rb.add_all_hist [of "newBlockRingBuffer 2"] new_ring_ok [of 2] sample_ring_added
  by (metis go.inject(1) length_ring_hist rb_add_all_eq zero_less_numeral)

lemma sample_round:
  "\<exists>brb w. Process_round (mock_node sample_hash) sample_ring sample_world = Ret (Again brb w) \<and>
     brb \<noteq> sample_ring \<and> mock_published w = [string_of_bytes [5]]"
  by (simp add: Process_round_def sample_ring_def sample_world_def mock_node_def rb_Get_def
      go_index_def deref_block_def mini_of_def sample_header_def sample_hash_def
      mock_HeaderByNumber_def int64_of_def rb_HashIndex_def numeral_2_eq_2 rb_Add_def
      add_and_publish_def bm_publish_def mock_publish_def mock_Record_def Let_def)


text \<open>The buffer's state over a whole run: never two blocks of one hash, and never empty, so that the
  last block is always there to count on from.\<close>

definition monitor_inv :: "ring \<Rightarrow> bool" where
  "monitor_inv brb \<longleftrightarrow>
     ring_ok brb \<and> distinct (map mb_Hash (ring_hist brb)) \<and> ring_hist brb \<noteq> []"

lemma monitor_inv_add:
  assumes inv: "ring_ok brb" "distinct (map mb_Hash (ring_hist brb))"
    and new: "\<not> known (mb_Hash b) brb"
    and brb': "ring_ok brb'" "rb_size brb' = rb_size brb"
      "ring_hist brb' = take (rb_size brb) (b # ring_hist brb)"
  shows "monitor_inv brb'"
proof -
  have "distinct (map mb_Hash (b # ring_hist brb))" using inv new by (auto simp: known_def)
  then have "distinct (map mb_Hash (ring_hist brb'))"
    by (simp only: brb'(3) take_map [symmetric] distinct_take)
  moreover have "0 < rb_size brb" using inv(1) by (auto simp: ring_ok_def)
  ultimately show ?thesis using brb' by (auto simp: monitor_inv_def)
qed

lemma Process_round_inv:
  assumes "monitor_inv brb" and "node_ok env" and r: "Process_round env brb w = Ret (Again brb' w')"
  shows "monitor_inv brb' \<and> rb_size brb' = rb_size brb"
proof -
  obtain qb wq where q: "quit_signal env w = (qb, wq)" by (cases "quit_signal env w")
  have ok: "ring_ok brb" using assms(1) by (simp add: monitor_inv_def)
  show ?thesis
  proof (cases "brb' = brb")
    case False
    obtain h' w2 where h: "\<not> known (header_hash env h') brb"
      and a: "add_and_publish env h' brb w2 = Ret (Again brb' w')"
      by (rule Process_round_adds [OF ok r False]) blast
    then show ?thesis
      using monitor_inv_add [OF ok _ _, of "mini_of env h'" brb'] assms(1)
        add_and_publish_Again [OF ok a]
      by (auto simp: monitor_inv_def mini_of_def)
  qed (use assms in simp)
qed

lemma Process_rounds_inv:
  "monitor_inv brb \<Longrightarrow> node_ok env \<Longrightarrow> Process_rounds env n brb w = Ret (Again brb' w') \<Longrightarrow>
     monitor_inv brb' \<and> rb_size brb' = rb_size brb"
proof (induction n arbitrary: brb w)
  case (Suc n)
  then obtain x where x: "Process_round env brb w = Ret x" by (auto simp: go_simps)
  with Suc.prems obtain b u where "Process_round env brb w = Ret (Again b u)"
    and "Process_rounds env n b u = Ret (Again brb' w')"
    by (cases x) auto
  with Suc Process_round_inv show ?case by metis
qed simp

lemma Process_start_inv:
  assumes ok: "ring_ok brb" and e: "ring_hist brb = []"
    and r: "Process_start env brb w = Ret (Again brb' w')"
  shows "monitor_inv brb' \<and> rb_size brb' = rb_size brb"
proof -
  have n: "\<not> known h brb" for h using e by (simp add: known_def)
  obtain x e1 w1 where g: "Recorder_Get env w = ((x, e1), w1)" by (cases "Recorder_Get env w") auto
  obtain hdr e2 w2 where q: "HeaderByNumber env x w1 = ((hdr, e2), w2)"
    by (cases "HeaderByNumber env x w1") auto
  obtain h where h: "hdr = Some h" "e2 = None"
    using r g q by (cases hdr; cases e2) (auto simp: Process_start_def)
  have "ring_ok brb' \<and> rb_size brb' = rb_size brb \<and>
      ring_hist brb' = take (rb_size brb) (mini_of env h # ring_hist brb)"
  proof (cases "int64_of (h_Number h) = 0")
    case True
    with r g q h have "add_and_publish env h brb w2 = Ret (Again brb' w')"
      by (simp add: Process_start_def)
    from add_and_publish_Again [OF ok this] show ?thesis by blast
  next
    case False
    with r g q h have "rb_Add (mini_of env h) brb = Ret brb'"
      by (auto simp: Process_start_def go_simps)
    then show ?thesis using rb.add_ok [OF ok, of "mini_of env h"] by auto
  qed
  then show ?thesis using monitor_inv_add [OF ok _ n, where brb' = brb' and b = "mini_of env h"] e by auto
qed

text \<open>C38: however many rounds the block monitor runs, its buffer keeps its size, never holds two
  blocks of one hash (no block is published twice while it remembers it) and always holds the
  block to count on from.\<close>

theorem Process_invariant:
  assumes "0 < sz" and env: "node_ok env" and r: "Process env sz n w = Ret (Again brb w')"
  shows "ring_ok brb \<and> rb_size brb = sz \<and> distinct (map mb_Hash (ring_hist brb)) \<and>
    ring_hist brb \<noteq> []"
proof -
  have new: "ring_ok (newBlockRingBuffer sz)" "ring_hist (newBlockRingBuffer sz) = []"
    "rb_size (newBlockRingBuffer sz) = sz"
    using new_ring_ok [OF assms(1)] by (simp_all add: newBlockRingBuffer_def)
  from r obtain x where "Process_start env (newBlockRingBuffer sz) w = Ret x"
    by (auto simp: Process_def go_simps)
  with r obtain b u where "Process_start env (newBlockRingBuffer sz) w = Ret (Again b u)"
    and "Process_rounds env n b u = Ret (Again brb w')"
    by (cases x) (auto simp: Process_def)
  with Process_start_inv [OF new(1,2)] Process_rounds_inv [OF _ env] new(3)
  show ?thesis unfolding monitor_inv_def by metis
qed

theorem Process_invariant_witness:
  "\<exists>brb w. Process (mock_node sample_hash) 2 0 sample_world = Ret (Again brb w) \<and>
     rb_size brb = 2 \<and> ring_hist brb \<noteq> []"
proof -
  have "\<exists>brb w. Process (mock_node sample_hash) 2 0 sample_world = Ret (Again brb w)"
    by (simp add: Process_def Process_start_def mock_node_def mock_Get_def sample_world_def
        mock_HeaderByNumber_def int64_of_def sample_header_def newBlockRingBuffer_def rb_Add_def
        Let_def numeral_2_eq_2)
  with Process_invariant [OF _ mock_node_ok, of 2] show ?thesis by (metis zero_less_numeral)
qed

end
