(* ===== verification/Config.thy ===== *)
theory Config
  imports Orders Channels
begin

text \<open>
  The helpers of \<open>common/util.go\<close>, the settings the checks look up (\<open>config/\<close>: base fee, fee token
  and token proxy of an exchange) and the accounts and affiliates kept in Redis (\<open>accounts/\<close>,
  \<open>affiliates/\<close>). The exchange contract is a parameter, its state is the world \<open>'w\<close>.
\<close>

section \<open>common/util.go\<close>

definition HexToBytes :: "string \<Rightarrow> err + bytes" where
  "HexToBytes hexString =
     try_bind (hex_DecodeString (trim_prefix hexString ''0x'')) (\<lambda>slice.
       Inr (go_copy (zero_bytes 20) slice))"

definition HexToAddress :: "string \<Rightarrow> err + address" where
  "HexToAddress addressHex =
     try_bind (HexToBytes addressHex) (\<lambda>addressBytes. Inr (go_copy zero_address addressBytes))"

definition HexToAssetData :: "string \<Rightarrow> err + asset_data" where
  "HexToAssetData assetDataHex =
     try_bind (hex_DecodeString (trim_prefix assetDataHex ''0x'')) (\<lambda>assetDataBytes.
       Inr (go_copy (zero_bytes (length assetDataBytes)) assetDataBytes))"

definition BigToUint256 :: "int \<Rightarrow> uint256" where
  "BigToUint256 number = go_copy zero_uint256 (abi_U256 number)"

definition BytesToUint256 :: "bytes \<Rightarrow> uint256" where
  "BytesToUint256 data = go_copy zero_uint256 data"

definition BytesToOrAddress :: "bytes \<Rightarrow> address" where
  "BytesToOrAddress data = go_copy zero_address data"

text \<open>\<open>copy(dst[lo:hi], src)\<close>.\<close>

definition copy_at :: "nat \<Rightarrow> nat \<Rightarrow> bytes \<Rightarrow> bytes \<Rightarrow> bytes" where
  "copy_at lo hi src dst =
     take lo dst @ go_copy (take (hi - lo) (drop lo dst)) src @ drop hi dst"

definition ToERC20AssetData :: "address \<Rightarrow> asset_data go" where
  "ToERC20AssetData address =
     go_map (\<lambda>a. copy_at 16 36 a (copy_at 0 4 ERC20ProxyID (zero_bytes 36))) (deref address)"

definition ToERC721AssetData :: "address \<Rightarrow> uint256 \<Rightarrow> asset_data go" where
  "ToERC721AssetData address tokenID =
     go_bind (deref address) (\<lambda>a.
     go_bind (deref tokenID) (\<lambda>t.
       Ret (copy_at 36 68 t (copy_at 16 36 a (copy_at 0 4 ERC721ProxyID (zero_bytes 68))))))"

text \<open>\<open>GetSecret\<close>: the file system, the environment and the parameter store are parameters.\<close>

definition GetSecret ::
  "(string \<Rightarrow> err + string) \<Rightarrow> (string \<Rightarrow> string) \<Rightarrow> (string \<Rightarrow> string) \<Rightarrow> string \<Rightarrow> string"
where
  "GetSecret read_file getenv get_parameter uri =
     (let from_param =
            (if has_prefix uri ''ssm-param://''
             then (let secret = get_parameter (trim_prefix uri ''ssm-param://'')
                   in if secret \<noteq> [] then secret else uri)
             else uri);
          from_env =
            (if has_prefix uri ''env://''
             then (let secret = getenv (trim_prefix uri ''env://'')
                   in if secret \<noteq> [] then secret else from_param)
             else from_param)
      in if has_prefix uri ''file://''
         then (case read_file (trim_prefix uri ''file://'') of Inr s \<Rightarrow> s | Inl e \<Rightarrow> from_env)
         else from_env)"

lemma copy_at_append:
  "length a = lo \<Longrightarrow> length b = hi - lo \<Longrightarrow> lo \<le> hi \<Longrightarrow> length src = length b \<Longrightarrow>
     copy_at lo hi src (a @ b @ c) = a @ src @ c"
  by (simp add: copy_at_def)

lemma zero_bytes_split: "zero_bytes (m + n) = zero_bytes m @ zero_bytes n"
  by (simp add: zero_bytes_def replicate_add)

lemma ToERC20AssetData_eq:
  "length a = 20 \<Longrightarrow> ToERC20AssetData a = Ret (ERC20ProxyID @ zero_bytes 12 @ a)"
proof -
  assume a: "length a = 20"
  have "copy_at 0 4 ERC20ProxyID (zero_bytes 36) = ERC20ProxyID @ zero_bytes 32"
    using copy_at_append [of "[]" 0 "zero_bytes 4" 4 ERC20ProxyID "zero_bytes 32"]
      zero_bytes_split [of 4 32] by (simp add: ERC20ProxyID_def)
  moreover have "copy_at 16 36 a ((ERC20ProxyID @ zero_bytes 12) @ zero_bytes 20 @ []) =
      (ERC20ProxyID @ zero_bytes 12) @ a @ []"
    using a by (intro copy_at_append) (simp_all add: ERC20ProxyID_def)
  ultimately show ?thesis using a zero_bytes_split [of 12 20] by (simp add: ToERC20AssetData_def)
qed

lemma ToERC721AssetData_eq:
  assumes "length a = 20" and "length t = 32"
  shows "ToERC721AssetData a t = Ret (ERC721ProxyID @ zero_bytes 12 @ a @ t)"
proof -
  have "copy_at 0 4 ERC721ProxyID (zero_bytes 68) = ERC721ProxyID @ zero_bytes 64"
    using copy_at_append [of "[]" 0 "zero_bytes 4" 4 ERC721ProxyID "zero_bytes 64"]
      zero_bytes_split [of 4 64] by (simp add: ERC721ProxyID_def)
  moreover have "copy_at 16 36 a ((ERC721ProxyID @ zero_bytes 12) @ zero_bytes 20 @ zero_bytes 32) =
      (ERC721ProxyID @ zero_bytes 12) @ a @ zero_bytes 32"
    using assms by (intro copy_at_append) (simp_all add: ERC721ProxyID_def)
  moreover have "copy_at 36 68 t ((ERC721ProxyID @ zero_bytes 12 @ a) @ zero_bytes 32 @ []) =
      (ERC721ProxyID @ zero_bytes 12 @ a) @ t @ []"
    using assms by (intro copy_at_append) (simp_all add: ERC721ProxyID_def)
  moreover have "zero_bytes 64 = zero_bytes 12 @ zero_bytes 20 @ zero_bytes 32"
    using zero_bytes_split [of 12 52] zero_bytes_split [of 20 32] by simp
  ultimately show ?thesis using assms by (simp add: ToERC721AssetData_def)
qed

text \<open>Asset data is built so that it is read back: the proxy id, the token's address and, for
  ERC721, the token id of what \<open>ToERC20AssetData\<close> and \<open>ToERC721AssetData\<close> build are those given.\<close>

lemma asset_data_roundtrip:
  assumes "length a = 20" and "length t = 32"
  shows "\<exists>d20 d721. ToERC20AssetData a = Ret d20 \<and> ToERC721AssetData a t = Ret d721 \<and>
    ProxyId d20 = Ret ERC20ProxyID \<and> AssetData_Address d20 = Ret a \<and> length d20 = 36 \<and>
    ProxyId d721 = Ret ERC721ProxyID \<and> AssetData_Address d721 = Ret a \<and> TokenID d721 = Ret t \<and>
    length d721 = 68"
  using assms
  by (simp add: ToERC20AssetData_eq ToERC721AssetData_eq ProxyId_def AssetData_Address_eq TokenID_def
      IsType_eq go_slice_def ERC20ProxyID_def ERC721ProxyID_def RoboDexProxyID_def)

section \<open>The base fee\<close>

record base_fee =
  cachedValue :: "int option"
  cacheExpiration :: int

definition NewBaseFee :: base_fee where
  "NewBaseFee = \<lparr>cachedValue = None, cacheExpiration = 0\<rparr>"

text \<open>The value, which is the nil pointer when it comes from an empty cache; and the error.\<close>

definition BaseFee_Get ::
  "'r redis \<Rightarrow> int \<Rightarrow> base_fee \<Rightarrow> 'r \<Rightarrow> (err + int option) \<times> 'r"
where
  "BaseFee_Get R now baseFee w =
     (if cacheExpiration baseFee > now then (Inr (cachedValue baseFee), w)
      else (case KGet R ''baseFee'' w of (result, w') \<Rightarrow>
              (case reply_err result of
                 Some e \<Rightarrow> (Inl e, w')
               | None \<Rightarrow> (Inr (Some (int (be_nat (bytes_of_string (reply_str result))))), w'))))"

definition BaseFee_Set :: "'r redis \<Rightarrow> int \<Rightarrow> 'r \<Rightarrow> err option \<times> 'r" where
  "BaseFee_Set R value w =
     (case KSet R ''baseFee'' (string_of_bytes (min_bytes (nat \<bar>value\<bar>))) w of
        (result, w') \<Rightarrow> (reply_err result, w'))"

text \<open>Nothing fills the cache, so every call of \<open>Get\<close> after 1970 asks the server.\<close>

lemma BaseFee_Set_Get:
  assumes R: "redis_kv_ok R kv" and now: "0 \<le> now"
  shows "\<exists>w'. BaseFee_Set R value w = (None, w') \<and>
    fst (BaseFee_Get R now NewBaseFee w') = Inr (Some \<bar>value\<bar>)"
proof -
  let ?v = "string_of_bytes (min_bytes (nat \<bar>value\<bar>))"
  obtain s' where s: "KSet R ''baseFee'' ?v w = (RStr ''OK'', s')" "kv s' = (kv w)(''baseFee'' \<mapsto> ?v)"
    using R unfolding redis_kv_ok_def by blast
  obtain t where "KGet R ''baseFee'' s' = (case kv s' ''baseFee'' of None \<Rightarrow> RNil | Some v \<Rightarrow> RStr v, t)"
    using R unfolding redis_kv_ok_def by blast
  with s have "KGet R ''baseFee'' s' = (RStr ?v, t)" by simp
  with s now show ?thesis
    by (simp add: BaseFee_Set_def BaseFee_Get_def NewBaseFee_def reply_err_def reply_str_def)
qed

section \<open>Fee token and token proxy of an exchange\<close>

record 'w exchange_rpc =
  NewExchange :: "address \<Rightarrow> 'w \<Rightarrow> err option"
  ZRX_ASSET_DATA :: "address \<Rightarrow> 'w \<Rightarrow> err + bytes"
  GetAssetProxy :: "address \<Rightarrow> bytes \<Rightarrow> 'w \<Rightarrow> err + address"
  ExchangeCancelled :: "address \<Rightarrow> bytes \<Rightarrow> 'w \<Rightarrow> err + bool"
  ExchangeFilled :: "address \<Rightarrow> bytes \<Rightarrow> 'w \<Rightarrow> err + int"

definition staticFeeToken_Get :: "asset_data \<Rightarrow> order \<Rightarrow> (err + asset_data) go" where
  "staticFeeToken_Get val ord = Ret (Inr val)"

text \<open>\<open>rpcFeeToken.Get\<close>: the fee token asset data of the order's exchange, remembered by exchange.\<close>

definition rpcFeeToken_Get ::
  "'w exchange_rpc \<Rightarrow> order \<Rightarrow> 'w \<Rightarrow> (address \<rightharpoonup> asset_data)
     \<Rightarrow> ((err + asset_data) \<times> (address \<rightharpoonup> asset_data)) go"
where
  "rpcFeeToken_Get rpc ord w tokenMap =
     go_bind (deref (ExchangeAddress ord)) (\<lambda>exchange.
       case tokenMap exchange of
         Some d \<Rightarrow> Ret (Inr d, tokenMap)
       | None \<Rightarrow>
           (case NewExchange rpc exchange w of
              Some e \<Rightarrow> Ret (Inl e, tokenMap)
            | None \<Rightarrow>
                (case ZRX_ASSET_DATA rpc exchange w of
                   Inl e \<Rightarrow> Ret (Inl e, tokenMap)
                 | Inr bs \<Rightarrow>
                     let d = go_copy (zero_bytes (length bs)) bs
                     in Ret (Inr d, tokenMap(exchange \<mapsto> d)))))"

definition staticTokenProxy_Get :: "address \<Rightarrow> order \<Rightarrow> (err + address) go" where
  "staticTokenProxy_Get val ord = Ret (Inr val)"

text \<open>\<open>Set\<close> replaces a static setting; those looked up from the node ignore it.\<close>

definition staticFeeToken_Set :: "asset_data \<Rightarrow> asset_data \<Rightarrow> err option \<times> asset_data" where
  "staticFeeToken_Set assetData val = (None, assetData)"

definition staticTokenProxy_Set :: "address \<Rightarrow> address \<Rightarrow> err option \<times> address" where
  "staticTokenProxy_Set address val = (None, address)"

definition rpcFeeToken_Set :: "asset_data \<Rightarrow> (address \<rightharpoonup> asset_data) \<Rightarrow> err option \<times> (address \<rightharpoonup> asset_data)" where
  "rpcFeeToken_Set val tokenMap = (None, tokenMap)"

type_synonym proxy_map = "address \<rightharpoonup> (bytes \<rightharpoonup> address)"

definition rpcTokenProxy_Set :: "address \<Rightarrow> proxy_map \<Rightarrow> err option \<times> proxy_map" where
  "rpcTokenProxy_Set val proxies = (None, proxies)"

definition rpcTokenProxy_GetById ::
  "'w exchange_rpc \<Rightarrow> order \<Rightarrow> bytes \<Rightarrow> 'w \<Rightarrow> proxy_map \<Rightarrow> ((err + address) \<times> proxy_map) go"
where
  "rpcTokenProxy_GetById rpc ord proxyID w proxies =
     go_bind (deref (ExchangeAddress ord)) (\<lambda>exchange.
       let inner = (case proxies exchange of None \<Rightarrow> Map.empty | Some m \<Rightarrow> m) in
       case inner proxyID of
         Some a \<Rightarrow> Ret (Inr a, proxies)
       | None \<Rightarrow>
           (case NewExchange rpc exchange w of
              Some e \<Rightarrow> Ret (Inl e, proxies)
            | None \<Rightarrow>
                (case GetAssetProxy rpc exchange proxyID w of
                   Inl e \<Rightarrow> Ret (Inl e, proxies)
                 | Inr a \<Rightarrow>
                     let addr = go_copy zero_address a
                     in Ret (Inr addr, proxies(exchange \<mapsto> inner(proxyID \<mapsto> addr))))))"

definition rpcTokenProxy_Get ::
  "'w exchange_rpc \<Rightarrow> order \<Rightarrow> 'w \<Rightarrow> proxy_map \<Rightarrow> ((err + address) \<times> proxy_map) go"
where
  "rpcTokenProxy_Get rpc ord w proxies =
     go_bind (ProxyId (MakerAssetData ord)) (\<lambda>p. rpcTokenProxy_GetById rpc ord p w proxies)"

section \<open>Accounts and affiliates\<close>

record account =
  Bl :: bool
  acct_BaseFee :: "int option"
  Dp :: int
  Expiration :: int

definition Blacklisted :: "account \<Rightarrow> bool" where
  "Blacklisted acct = Bl acct"

definition deref_int :: "int option \<Rightarrow> int go" where
  "deref_int p = (case p of None \<Rightarrow> Panic NilDereference | Some i \<Rightarrow> Ret i)"

text \<open>\<open>Div\<close> of \<open>big.Int\<close> is Euclidean; by 100 it is HOL's \<open>div\<close>.\<close>

definition Discount :: "int \<Rightarrow> account \<Rightarrow> int go" where
  "Discount now acct =
     (if Expiration acct < now then Ret 0
      else go_map (\<lambda>fee. (fee * Dp acct) div 100) (deref_int (acct_BaseFee acct)))"

definition default_account :: account where
  "default_account = \<lparr>Bl = False, acct_BaseFee = Some 0, Dp = 0, Expiration = 0\<rparr>"

definition account_key :: "string \<Rightarrow> address \<Rightarrow> string" where
  "account_key kind address = kind @ ''::'' @ hex_encode address"

text \<open>The JSON form of an account is the codec \<open>dec\<close>, which updates the account it is given with what
  the text holds; its error is ignored.\<close>

definition AccountService_Get ::
  "'r redis \<Rightarrow> (string \<Rightarrow> account \<Rightarrow> account) \<Rightarrow> int \<Rightarrow> base_fee \<Rightarrow> address \<Rightarrow> 'r \<Rightarrow> (account \<times> 'r) go"
where
  "AccountService_Get R dec now baseFee address w =
     go_bind (deref address) (\<lambda>a.
       case KGet R (account_key ''account'' a) w of (result, w1) \<Rightarrow>
         (case reply_err result of
            Some e \<Rightarrow> Ret (default_account, w1)
          | None \<Rightarrow>
              (case BaseFee_Get R now baseFee w1 of
                 (Inl e, w2) \<Rightarrow> Ret (default_account, w2)
               | (Inr fee, w2) \<Rightarrow>
                   Ret ((dec (reply_str result) default_account)\<lparr>acct_BaseFee := fee\<rparr>, w2))))"

definition AccountService_Set ::
  "'r redis \<Rightarrow> (account \<Rightarrow> string) \<Rightarrow> address \<Rightarrow> account \<Rightarrow> 'r \<Rightarrow> (err option \<times> 'r) go"
where
  "AccountService_Set R enc address acct w =
     go_map (\<lambda>a. case KSet R (account_key ''account'' a) (enc acct) w of
                   (result, w') \<Rightarrow> (reply_err result, w')) (deref address)"

record affiliate =
  aff_BaseFee :: "int option"
  FeePercent :: int

definition Affiliate_Fee :: "affiliate \<Rightarrow> int go" where
  "Affiliate_Fee acct = go_map (\<lambda>fee. (fee * FeePercent acct) div 100) (deref_int (aff_BaseFee acct))"

definition AffiliateService_Get ::
  "'r redis \<Rightarrow> (string \<Rightarrow> affiliate \<Rightarrow> affiliate) \<Rightarrow> int \<Rightarrow> base_fee \<Rightarrow> address \<Rightarrow> 'r
     \<Rightarrow> ((err + affiliate) \<times> 'r) go"
where
  "AffiliateService_Get R dec now baseFee address w =
     go_bind (deref address) (\<lambda>a.
       case KGet R (account_key ''affiliate'' a) w of (result, w1) \<Rightarrow>
         (case reply_err result of
            Some e \<Rightarrow> Ret (Inl e, w1)
          | None \<Rightarrow>
              (case BaseFee_Get R now baseFee w1 of
                 (Inl e, w2) \<Rightarrow> Ret (Inl e, w2)
               | (Inr fee, w2) \<Rightarrow>
                   Ret (Inr ((dec (reply_str result) \<lparr>aff_BaseFee = Some 0, FeePercent = 100\<rparr>)
                     \<lparr>aff_BaseFee := fee\<rparr>), w2))))"

definition AffiliateService_Set ::
  "'r redis \<Rightarrow> (affiliate \<Rightarrow> string) \<Rightarrow> address \<Rightarrow> affiliate \<Rightarrow> 'r \<Rightarrow> (err option \<times> 'r) go"
where
  "AffiliateService_Set R enc address acct w =
     go_map (\<lambda>a. case KSet R (account_key ''affiliate'' a) (enc acct) w of
                   (result, w') \<Rightarrow> (reply_err result, w')) (deref address)"

text \<open>\<open>List\<close>: the keys that the server reports for the pattern, those that are not addresses left
  out.\<close>

definition AffiliateService_List :: "(string \<Rightarrow> err + string list) \<Rightarrow> err + address list" where
  "AffiliateService_List Keys =
     try_bind (Keys ''affiliate::*'') (\<lambda>addressesHex.
       Inr (List.map_filter (\<lambda>h. case HexToAddress (trim_prefix h ''affiliate::'') of
                                   Inr a \<Rightarrow> Some a | Inl e \<Rightarrow> None) addressesHex))"

lemma HexToAddress_hex_encode: "length a = 20 \<Longrightarrow> HexToAddress (hex_encode a) = Inr a"
proof -
  assume a: "length a = 20"
  have x: "hex_digit n \<noteq> CHR ''x''" if "n < 16" for n
    using from_hex_hex_digit [OF that] by (auto simp: from_hex_char_def of_char_def)
  obtain b bs where b: "a = b # bs" using a by (cases a) auto
  have "hex_digit (unat b mod 16) \<noteq> CHR ''x''" by (rule x) simp
  then have "trim_prefix (hex_encode a) ''0x'' = hex_encode a"
    by (simp add: trim_prefix_def has_prefix_def b numeral_2_eq_2)
  with a show ?thesis by (simp add: HexToAddress_def HexToBytes_def)
qed

text \<open>The affiliates that were set are listed.\<close>

lemma AffiliateService_List_keys:
  assumes "list_all wf_address addrs"
    and "Keys ''affiliate::*'' = Inr (map (account_key ''affiliate'') addrs)"
  shows "AffiliateService_List Keys = Inr addrs"
proof -
  have "List.map_filter (\<lambda>h. case HexToAddress (trim_prefix h ''affiliate::'') of
      Inr a \<Rightarrow> Some a | Inl e \<Rightarrow> None) (map (account_key ''affiliate'') addrs) = addrs"
    using assms(1)
  proof (induction addrs)
    case (Cons a as)
    have "trim_prefix (account_key ''affiliate'' a) ''affiliate::'' = hex_encode a"
      using trim_prefix_append [of "''affiliate::''" "hex_encode a"]
      by (simp add: account_key_def)
    with Cons show ?case by (simp add: HexToAddress_hex_encode wf_address_def)
  qed simp
  with assms(2) show ?thesis by (simp add: AffiliateService_List_def)
qed

lemma share_parts:
  fixes x fee :: int
  assumes "0 \<le> x" and "x \<le> fee * 100"
  shows "0 \<le> x div 100" and "x div 100 \<le> fee" and "fee - 1 \<le> x div 100 + (fee * 100 - x) div 100"
    and "x div 100 + (fee * 100 - x) div 100 \<le> fee"
  using assms by linarith+


definition sample_account :: account where
  "sample_account = \<lparr>Bl = False, acct_BaseFee = Some 999, Dp = 25, Expiration = 100\<rparr>"


end
