(* ===== verification/OrderIndex.thy ===== *)
theory OrderIndex
  imports Signatures Config
begin

text \<open>
  The order table (\<open>db/order.go\<close>, \<open>db/indexer.go\<close>, \<open>db/cancellations.go\<close>): what \<open>Populate\<close>
  derives from an order, how \<open>Save\<close> stores it, and how fills, spends and cancellations change the
  stored orders. The tables are lists of rows and the queries are row predicates, as their SQL
  text says; a \<open>bytea\<close> column is compared lexicographically. Failures of the connection are not
  modelled. The floating point columns are given by the quotient \<open>quo\<close> of two integers.
\<close>

definition StatusOpen :: int where "StatusOpen = 0"
definition StatusFilled :: int where "StatusFilled = 1"
definition StatusUnfunded :: int where "StatusUnfunded = 2"
definition StatusCancelled :: int where "StatusCancelled = 3"

definition DefaultSha3 :: bytes where
  "DefaultSha3 = [167, 216, 239, 244, 2, 111, 37, 45, 181, 185, 12, 120, 228, 61, 209, 145, 223, 230,
     229, 95, 203, 152, 84, 138, 95, 56, 250, 240, 212, 227, 235, 57]"

record 'f db_order =
  types_Order :: order
  OrderHash :: bytes
  Status :: int
  Price :: 'f
  FeeRate :: 'f
  MakerAssetRemaining :: uint256
  MakerFeeRemaining :: uint256

text \<open>\<open>Populate\<close>: the amount from which an order counts as filled is 99 percent of it above 100 base
  units.\<close>

definition threshold_of :: "int \<Rightarrow> int" where
  "threshold_of amount = (if amount > 100 then (amount * 99) div 100 else amount)"

definition big_Div :: "int \<Rightarrow> int \<Rightarrow> int go" where
  "big_Div a b = (if b = 0 then Panic DivisionByZero else Ret (if b > 0 then a div b else - (a div - b)))"

definition Populate :: "crypto \<Rightarrow> (int \<Rightarrow> int \<Rightarrow> 'f go) \<Rightarrow> 'f db_order \<Rightarrow> 'f db_order go" where
  "Populate C quo ord =
     (let base = types_Order ord in
      go_bind (Order_Hash C base) (\<lambda>hash.
      go_bind (Uint256_Big (TakerAssetAmount base)) (\<lambda>takerAmount.
      go_bind (Uint256_Big (TakerAssetAmountFilled base)) (\<lambda>filled.
      let remaining = takerAmount - filled;
          threshold = threshold_of takerAmount - filled in
      go_bind (Uint256_Big (MakerAssetAmount base)) (\<lambda>makerAmount.
      go_bind (big_Div (makerAmount * remaining) takerAmount) (\<lambda>makerRemaining.
      go_bind (Uint256_Big (MakerFee base)) (\<lambda>makerFee.
      go_bind (big_Div (makerFee * remaining) takerAmount) (\<lambda>makerFeeRemaining.
      go_bind (Uint256_Big (TakerFee base)) (\<lambda>takerFee.
      go_bind (quo takerAmount makerAmount) (\<lambda>price.
      go_bind (quo takerFee takerAmount) (\<lambda>feeRate.
      Ret (ord\<lparr>OrderHash := hash,
               MakerAssetRemaining := abi_U256 makerRemaining,
               MakerFeeRemaining := abi_U256 makerFeeRemaining,
               Price := price, FeeRate := feeRate,
               Status := (if threshold \<le> 0 then StatusFilled
                          else if Cancelled base then StatusCancelled else Status ord),
               types_Order := (if PoolID base = [] then base\<lparr>PoolID := DefaultSha3\<rparr> else base)\<rparr>))))))))))))"

definition share_left :: "order \<Rightarrow> uint256 \<Rightarrow> uint256" where
  "share_left base amount =
     abi_U256 (int (be_nat amount) * (int (be_nat (TakerAssetAmount base)) -
       int (be_nat (TakerAssetAmountFilled base))) div int (be_nat (TakerAssetAmount base)))"

definition filled_up :: "order \<Rightarrow> bool" where
  "filled_up base =
     (threshold_of (int (be_nat (TakerAssetAmount base))) \<le> int (be_nat (TakerAssetAmountFilled base)))"

lemma Populate_Ret:
  assumes p: "Populate C quo ord = Ret pop" and wf: "wf_order (types_Order ord)"
  shows "be_nat (TakerAssetAmount (types_Order ord)) \<noteq> 0 \<and>
    Order_Hash C (types_Order ord) = Ret (OrderHash pop) \<and>
    MakerAssetRemaining pop = share_left (types_Order ord) (MakerAssetAmount (types_Order ord)) \<and>
    MakerFeeRemaining pop = share_left (types_Order ord) (MakerFee (types_Order ord)) \<and>
    Status pop = (if filled_up (types_Order ord) then StatusFilled
      else if Cancelled (types_Order ord) then StatusCancelled else Status ord) \<and>
    (\<exists>pool. pool \<noteq> [] \<and> types_Order pop = (types_Order ord)\<lparr>PoolID := pool\<rparr>)"
proof -
  have big: "Uint256_Big u = Ret (int (be_nat u))" if "length u = 32" for u
    using that by (simp add: Uint256_Big_def)
  have lens: "length (TakerAssetAmount (types_Order ord)) = 32"
    "length (TakerAssetAmountFilled (types_Order ord)) = 32"
    "length (MakerAssetAmount (types_Order ord)) = 32" "length (MakerFee (types_Order ord)) = 32"
    "length (TakerFee (types_Order ord)) = 32"
    using wf by (simp_all add: wf_order_def wf_uint256_def)
  have pos: "be_nat (TakerAssetAmount (types_Order ord)) \<noteq> 0"
  proof
    assume "be_nat (TakerAssetAmount (types_Order ord)) = 0"
    with p lens show False by (simp add: Populate_def Let_def go_simps big big_Div_def)
  qed
  define base where "base = types_Order ord"
  obtain h where h: "Order_Hash C base = Ret h" using Order_Hash_wf [OF wf] by (simp add: base_def)
  obtain x y where q: "quo (int (be_nat (TakerAssetAmount base))) (int (be_nat (MakerAssetAmount base))) = Ret x"
    "quo (int (be_nat (TakerFee base))) (int (be_nat (TakerAssetAmount base))) = Ret y"
    using p pos lens
    by (simp add: Populate_def Let_def go_simps big big_Div_def base_def) blast
  have e: "pop = ord\<lparr>OrderHash := h, MakerAssetRemaining := share_left base (MakerAssetAmount base),
      MakerFeeRemaining := share_left base (MakerFee base), Price := x, FeeRate := y,
      Status := (if filled_up base then StatusFilled else if Cancelled base then StatusCancelled else Status ord),
      types_Order := (if PoolID base = [] then base\<lparr>PoolID := DefaultSha3\<rparr> else base)\<rparr>"
    using p pos lens h q
    by (simp add: Populate_def Let_def big big_Div_def share_left_def filled_up_def flip: base_def)
  have "\<exists>pool. pool \<noteq> [] \<and> types_Order pop = base\<lparr>PoolID := pool\<rparr>"
  proof (cases "PoolID base = []")
    case True
    then show ?thesis by (intro exI [of _ DefaultSha3]) (simp add: e DefaultSha3_def)
  next
    case False
    then show ?thesis by (intro exI [of _ "PoolID base"]) (simp add: e)
  qed
  with pos h e show ?thesis by (simp add: base_def)
qed

lemma Populate_returns:
  assumes "wf_order (types_Order ord)" and "be_nat (TakerAssetAmount (types_Order ord)) \<noteq> 0"
    and "\<forall>a b. returns (quo a b)"
  shows "\<exists>pop. Populate C quo ord = Ret pop"
proof -
  obtain p f where
    "quo (int (be_nat (TakerAssetAmount (types_Order ord)))) (int (be_nat (MakerAssetAmount (types_Order ord)))) = Ret p"
    "quo (int (be_nat (TakerFee (types_Order ord)))) (int (be_nat (TakerAssetAmount (types_Order ord)))) = Ret f"
    using assms(3) by (meson returns_iff)
  with assms(1,2) show ?thesis
    by (simp add: Populate_def Order_Hash_wf wf_order_def wf_uint256_def Let_def Uint256_Big_def big_Div_def)
qed

text \<open>While an order is not overfilled, its remaining amounts are shares of the whole, and the
  threshold is a comparison of naturals.\<close>

lemma share_left_value:
  assumes l: "length amount = 32" and taker: "taker = be_nat (TakerAssetAmount base)"
    and filled: "filled = be_nat (TakerAssetAmountFilled base)" and pos: "0 < taker" and le: "filled \<le> taker"
  shows "be_nat (share_left base amount) = be_nat amount * (taker - filled) div taker"
proof -
  have "be_nat amount * (taker - filled) div taker \<le> be_nat amount * taker div taker"
    by (intro div_le_mono mult_left_mono) simp_all
  also have "\<dots> < 2 ^ 256" using be_nat_less [of amount] l pos by simp
  finally have "nat (int (be_nat amount * (taker - filled) div taker) mod 2 ^ 256) =
      be_nat amount * (taker - filled) div taker"
    by (simp add: nat_mod_as_int flip: zdiv_int)
  moreover have "int (be_nat amount) * (int taker - int filled) div int taker =
      int (be_nat amount * (taker - filled) div taker)"
    using le by (simp add: of_nat_diff zdiv_int)
  ultimately show ?thesis
    using be_nat_abi_U256 [of "int (be_nat amount * (taker - filled) div taker)"] taker filled
    by (simp add: share_left_def)
qed

lemma filled_up_iff:
  "filled_up base = ((if 100 < be_nat (TakerAssetAmount base) then be_nat (TakerAssetAmount base) * 99 div 100
     else be_nat (TakerAssetAmount base)) \<le> be_nat (TakerAssetAmountFilled base))"
  by (auto simp: filled_up_def threshold_of_def zdiv_int [symmetric])

text \<open>What the index derives from an order: its hash is the key; a share of the maker amount
  and of the maker fee proportional to what the taker can still fill remains; it counts as filled
  from its threshold on, else as cancelled when it is, and else its status stands.\<close>

lemma Populate_correct:
  assumes wf: "wf_order (types_Order ord)" and taker: "taker = be_nat (TakerAssetAmount (types_Order ord))"
    and filled: "filled = be_nat (TakerAssetAmountFilled (types_Order ord))"
    and pos: "0 < taker" and le: "filled \<le> taker"
    and quo: "\<forall>a b. returns (quo a b)"
  shows "\<exists>ord'. Populate C quo ord = Ret ord' \<and>
    Order_Hash C (types_Order ord) = Ret (OrderHash ord') \<and>
    be_nat (MakerAssetRemaining ord') =
      be_nat (MakerAssetAmount (types_Order ord)) * (taker - filled) div taker \<and>
    be_nat (MakerFeeRemaining ord') = be_nat (MakerFee (types_Order ord)) * (taker - filled) div taker \<and>
    Status ord' = (if (if 100 < taker then taker * 99 div 100 else taker) \<le> filled then StatusFilled
      else if Cancelled (types_Order ord) then StatusCancelled else Status ord)"
proof -
  obtain ord' where p: "Populate C quo ord = Ret ord'"
    using Populate_returns [OF wf _ quo] taker pos by blast
  note P = Populate_Ret [OF p wf]
  have l: "length (MakerAssetAmount (types_Order ord)) = 32" "length (MakerFee (types_Order ord)) = 32"
    using wf by (simp_all add: wf_order_def wf_uint256_def)
  show ?thesis
    using p P share_left_value [OF l(1) taker filled pos le] share_left_value [OF l(2) taker filled pos le]
      filled_up_iff [of "types_Order ord"] taker filled by simp
qed

definition sample_taker_order :: order where
  "sample_taker_order = sample_order\<lparr>TakerAssetAmount := zero_bytes 31 @ [200],
     MakerAssetAmount := zero_bytes 31 @ [100], TakerAssetAmountFilled := zero_bytes 31 @ [50]\<rparr>"

definition sample_row :: "unit db_order" where
  "sample_row = \<lparr>types_Order = sample_taker_order, OrderHash = [], Status = StatusOpen, Price = (),
     FeeRate = (), MakerAssetRemaining = [], MakerFeeRemaining = []\<rparr>"

lemma wf_sample_taker_order: "wf_order sample_taker_order"
  using wf_sample_order by (simp add: sample_taker_order_def wf_order_def wf_uint256_def)

section \<open>Saving\<close>

type_synonym 'f orders_table = "'f db_order list"

text \<open>\<open>Updates\<close> on the rows of a hash, and the number of rows; the columns are those of the map
  \<open>updates\<close>.\<close>

definition update_row :: "'f db_order \<Rightarrow> 'f db_order \<Rightarrow> 'f db_order" where
  "update_row new row = row
     \<lparr>types_Order := (types_Order row)\<lparr>TakerAssetAmountFilled := TakerAssetAmountFilled (types_Order new)\<rparr>,
      MakerAssetRemaining := MakerAssetRemaining new,
      MakerFeeRemaining := MakerFeeRemaining new,
      Status := Status new\<rparr>"

definition update_where ::
  "('f db_order \<Rightarrow> bool) \<Rightarrow> ('f db_order \<Rightarrow> 'f db_order) \<Rightarrow> 'f orders_table \<Rightarrow> nat \<times> 'f orders_table"
where
  "update_where p f table =
     (length (filter p table), map (\<lambda>row. if p row then f row else row) table)"

definition sig_error :: err where "sig_error = ''Failed to verify signature''"

definition Order_Save ::
  "crypto \<Rightarrow> (int \<Rightarrow> int \<Rightarrow> 'f go) \<Rightarrow> 'f db_order \<Rightarrow> int \<Rightarrow> 'f orders_table
     \<Rightarrow> (err option \<times> 'f orders_table) go"
where
  "Order_Save C quo ord status table =
     (let base = types_Order ord in
      go_bind (Order_Hash C base) (\<lambda>hash.
      go_bind (Signature_Verify C (Signature base) (Maker base) hash) (\<lambda>valid.
      if \<not> valid then Ret (Some sig_error, table)
      else go_bind (Populate C quo ord) (\<lambda>pop.
        let new = (if Status pop = StatusOpen then pop\<lparr>Status := status\<rparr> else pop) in
        case update_where (\<lambda>row. OrderHash row = OrderHash new) (update_row new) table of
          (rows, table') \<Rightarrow>
            if rows > 0 then Ret (None, table') else Ret (None, table @ [new])))))"

definition Indexer_Index ::
  "crypto \<Rightarrow> (int \<Rightarrow> int \<Rightarrow> 'f go) \<Rightarrow> 'f \<Rightarrow> int \<Rightarrow> order \<Rightarrow> 'f orders_table
     \<Rightarrow> (err option \<times> 'f orders_table) go"
where
  "Indexer_Index C quo zero status ord table =
     Order_Save C quo \<lparr>types_Order = ord, OrderHash = [], Status = 0, Price = zero, FeeRate = zero,
       MakerAssetRemaining = [], MakerFeeRemaining = []\<rparr> status table"

section \<open>Fills\<close>

record fill_record =
  fr_OrderHash :: string
  fr_FilledTakerAssetAmount :: string
  fr_Cancel :: bool

definition amount_error :: "string \<Rightarrow> err" where
  "amount_error s = ''FilledTakerAssetAmount could not be parsed as intger: '' @ quoted s"

definition RecordFill ::
  "crypto \<Rightarrow> (int \<Rightarrow> int \<Rightarrow> 'f go) \<Rightarrow> fill_record \<Rightarrow> 'f orders_table
     \<Rightarrow> (err option \<times> 'f orders_table) go"
where
  "RecordFill C quo fillRecord table =
     (case hex_DecodeString (trim_prefix (fr_OrderHash fillRecord) ''0x'') of
        Inl e \<Rightarrow> Ret (Some e, table)
      | Inr hashBytes \<Rightarrow>
          (let amount = (if fr_FilledTakerAssetAmount fillRecord = [] then ''0''
                         else fr_FilledTakerAssetAmount fillRecord) in
           case big_SetString amount of
             None \<Rightarrow> Ret (Some (amount_error amount), table)
           | Some amountFilled \<Rightarrow>
               (case find (\<lambda>row. OrderHash row = hashBytes) table of
                  None \<Rightarrow> Ret (None, table)
                | Some dbOrder \<Rightarrow>
                    (let base = types_Order dbOrder in
                     go_bind (Uint256_Big (TakerAssetAmountFilled base)) (\<lambda>totalFilled.
                       Order_Save C quo
                         (dbOrder\<lparr>types_Order := base
                            \<lparr>TakerAssetAmountFilled :=
                               go_copy (TakerAssetAmountFilled base) (abi_U256 (totalFilled + amountFilled)),
                             Cancelled := Cancelled base \<or> fr_Cancel fillRecord\<rparr>\<rparr>)
                         (Status dbOrder) table)))))"

section \<open>Spends\<close>

text \<open>\<open>? < column\<close> on byte columns.\<close>

definition sql_less :: "bytes \<Rightarrow> bytes \<Rightarrow> bool" where
  "sql_less a b = (bytes_compare a b < 0)"

definition spend_condition ::
  "address \<Rightarrow> address \<Rightarrow> asset_data \<Rightarrow> uint256 \<Rightarrow> 'f db_order \<Rightarrow> bool"
where
  "spend_condition maker token assetData balance row =
     (let base = types_Order row in
      if assetData = []
      then Status row = StatusOpen \<and> MakerAssetAddress base = token \<and> Maker base = maker \<and>
           sql_less balance (MakerAssetRemaining row)
      else Status row = StatusOpen \<and> MakerAssetData base = assetData \<and> Maker base = maker \<and>
           sql_less balance (MakerAssetRemaining row))"

definition fee_condition :: "address \<Rightarrow> uint256 \<Rightarrow> 'f db_order \<Rightarrow> bool" where
  "fee_condition maker balance row =
     (Maker (types_Order row) = maker \<and> sql_less balance (MakerFeeRemaining row))"

text \<open>\<open>Where(a).Or(b)\<close> is \<open>a OR b\<close>: the second condition stands alone, without the status.\<close>

definition RecordSpend ::
  "int \<Rightarrow> address \<Rightarrow> address \<Rightarrow> address \<Rightarrow> asset_data \<Rightarrow> uint256 \<Rightarrow> 'f orders_table
     \<Rightarrow> (err option \<times> 'f orders_table) go"
where
  "RecordSpend status makerAddress tokenAddress zrxAddress assetData balance table =
     go_bind (deref makerAddress) (\<lambda>maker.
     go_bind (deref tokenAddress) (\<lambda>token.
     go_bind (deref zrxAddress) (\<lambda>zrx.
     go_bind (deref balance) (\<lambda>bal.
       let cond = (if token = zrx
                   then (\<lambda>row. spend_condition maker token assetData bal row \<or> fee_condition maker bal row)
                   else spend_condition maker token assetData bal)
       in Ret (None, snd (update_where cond (\<lambda>row. row\<lparr>Status := status\<rparr>) table))))))"

section \<open>Cancellations\<close>

record cancellation_row =
  cr_Maker :: address
  cr_Sender :: address
  cr_Epoch :: uint256

text \<open>A struct condition leaves out the fields that are nil. \<open>FirstOrCreate\<close> takes the first row
  that fits, with the epoch assigned, or inserts the value; it leaves the row's values in the
  struct. The table is in the order of its primary key.\<close>

definition same_owner :: "cancellation_row \<Rightarrow> cancellation_row \<Rightarrow> bool" where
  "same_owner c row =
     ((cr_Maker c = [] \<or> cr_Maker row = cr_Maker c) \<and>
      (cr_Sender c = [] \<or> cr_Sender row = cr_Sender c))"

fun update_first :: "('a \<Rightarrow> bool) \<Rightarrow> ('a \<Rightarrow> 'a) \<Rightarrow> 'a list \<Rightarrow> ('a \<times> 'a list) option" where
  "update_first p f [] = None"
| "update_first p f (x # xs) =
     (if p x then Some (f x, f x # xs)
      else map_option (\<lambda>(y, ys). (y, x # ys)) (update_first p f xs))"

definition Cancellation_Save ::
  "cancellation_row \<Rightarrow> cancellation_row list \<Rightarrow> (cancellation_row \<times> cancellation_row list) go"
where
  "Cancellation_Save c table =
     (case update_first (same_owner c)
             (\<lambda>row. if cr_Epoch c = [] then row else row\<lparr>cr_Epoch := cr_Epoch c\<rparr>) table of
        Some r \<Rightarrow> Ret r
      | None \<Rightarrow>
          go_bind (deref (cr_Maker c)) (\<lambda>_. go_bind (deref (cr_Sender c)) (\<lambda>_.
          go_bind (deref (cr_Epoch c)) (\<lambda>_. Ret (c, table @ [c])))))"

definition GetCancellationEpoch :: "address \<Rightarrow> address \<Rightarrow> cancellation_row list \<Rightarrow> uint256" where
  "GetCancellationEpoch maker sender table =
     (case find (\<lambda>row. cr_Maker row = maker \<and> cr_Sender row = sender) table of
        None \<Rightarrow> zero_uint256
      | Some c \<Rightarrow> cr_Epoch c)"

definition cancel_condition :: "cancellation_row \<Rightarrow> 'f db_order \<Rightarrow> bool" where
  "cancel_condition c row =
     (Status row = StatusOpen \<and> Maker (types_Order row) = cr_Maker c \<and>
      SenderAddress (types_Order row) = cr_Sender c \<and> sql_less (Salt (types_Order row)) (cr_Epoch c))"

definition RecordCancellation ::
  "int \<Rightarrow> cancellation_row \<Rightarrow> cancellation_row list \<times> 'f orders_table
     \<Rightarrow> (err option \<times> cancellation_row list \<times> 'f orders_table) go"
where
  "RecordCancellation status cancellation db =
     go_map (\<lambda>(c, cancellations').
        (None, cancellations', snd (update_where (cancel_condition c) (\<lambda>row. row\<lparr>Status := status\<rparr>) (snd db))))
       (Cancellation_Save cancellation (fst db))"

section \<open>The order table's invariant\<close>

text \<open>A row is keyed by the hash of its order, which its maker signed; what remains of it is what
  its filled amount leaves; it always has a pool; and when its fills reach the threshold it is not
  listed as open.\<close>

definition row_ok :: "crypto \<Rightarrow> 'f db_order \<Rightarrow> bool" where
  "row_ok C row =
     (let base = types_Order row in
      wf_order base \<and> Order_Hash C base = Ret (OrderHash row) \<and>
      Signature_Verify C (Signature base) (Maker base) (OrderHash row) = Ret True \<and>
      be_nat (TakerAssetAmount base) \<noteq> 0 \<and> PoolID base \<noteq> [] \<and>
      MakerAssetRemaining row = share_left base (MakerAssetAmount base) \<and>
      MakerFeeRemaining row = share_left base (MakerFee base) \<and>
      (filled_up base \<longrightarrow> Status row \<noteq> StatusOpen))"

definition table_ok :: "crypto \<Rightarrow> 'f orders_table \<Rightarrow> bool" where
  "table_ok C table = (distinct (map OrderHash table) \<and> list_all (row_ok C) table)"

text \<open>Saving either refuses the order, or it updates the rows of its hash, or it appends a row.\<close>

lemma Order_Save_cases:
  assumes s: "Order_Save C quo ord status table = Ret (e, table')" and wf: "wf_order (types_Order ord)"
  obtains (refused) "e = Some sig_error" "table' = table"
  | (saved) new where "e = None" "row_ok C (new\<lparr>Status := StatusFilled\<rparr>)"
      "Status new = (if filled_up (types_Order ord) then StatusFilled
         else if Cancelled (types_Order ord) then StatusCancelled
         else if Status ord = StatusOpen then status else Status ord)"
      "\<exists>pool. types_Order new = (types_Order ord)\<lparr>PoolID := pool\<rparr>"
      "table' = (if OrderHash new \<in> OrderHash ` set table
         then map (\<lambda>row. if OrderHash row = OrderHash new then update_row new row else row) table
         else table @ [new])"
proof -
  obtain h where h: "Order_Hash C (types_Order ord) = Ret h" using Order_Hash_wf [OF wf] by blast
  obtain v where v: "Signature_Verify C (Signature (types_Order ord)) (Maker (types_Order ord)) h = Ret v"
    using s h by (auto simp: Order_Save_def Let_def go_simps)
  show thesis
  proof (cases v)
    case False
    with s h v show thesis by (intro refused) (simp_all add: Order_Save_def Let_def)
  next
    case True
    with s h v obtain pop where p: "Populate C quo ord = Ret pop"
      by (auto simp: Order_Save_def Let_def go_simps)
    note P = Populate_Ret [OF p wf]
    then obtain pool where pool: "pool \<noteq> []" "types_Order pop = (types_Order ord)\<lparr>PoolID := pool\<rparr>" by blast
    define new where "new = (if Status pop = StatusOpen then pop\<lparr>Status := status\<rparr> else pop)"
    have t: "types_Order new = (types_Order ord)\<lparr>PoolID := pool\<rparr>" "OrderHash new = h"
      "MakerAssetRemaining new = MakerAssetRemaining pop" "MakerFeeRemaining new = MakerFeeRemaining pop"
      using P h pool by (auto simp: new_def)
    have n: "(0 < length (filter (\<lambda>row. OrderHash row = OrderHash new) table)) =
        (OrderHash new \<in> OrderHash ` set table)"
      by (auto simp: filter_empty_conv image_iff) metis
    have wf': "wf_order ((types_Order ord)\<lparr>PoolID := pool\<rparr>)" using wf by (simp add: wf_order_def)
    have hash': "Order_Hash C ((types_Order ord)\<lparr>PoolID := pool\<rparr>) = Order_Hash C (types_Order ord)"
      using wf wf' by (simp add: Order_Hash_wf hash_preimage_def order_preimage_def domain_preimage_def)
    have S: "Status new = (if filled_up (types_Order ord) then StatusFilled
         else if Cancelled (types_Order ord) then StatusCancelled
         else if Status ord = StatusOpen then status else Status ord)"
      using P by (auto simp: new_def StatusOpen_def StatusFilled_def StatusCancelled_def)
    have ok: "row_ok C (new\<lparr>Status := StatusFilled\<rparr>)"
      using t P pool wf' hash' h v True
      by (simp add: row_ok_def Let_def share_left_def StatusFilled_def StatusOpen_def)
    have "Order_Save C quo ord status table =
        (case update_where (\<lambda>row. OrderHash row = OrderHash new) (update_row new) table of
          (rows, table') \<Rightarrow> if rows > 0 then Ret (None, table') else Ret (None, table @ [new]))"
      unfolding Order_Save_def Let_def h go_bind.simps v p new_def [symmetric] using True by simp
    then have tab: "e = None \<and> table' = (if OrderHash new \<in> OrderHash ` set table
         then map (\<lambda>row. if OrderHash row = OrderHash new then update_row new row else row) table
         else table @ [new])"
      unfolding s update_where_def n [symmetric] by (simp split: if_splits)
    show thesis using tab ok S t(1) by (intro saved [of new]) auto
  qed
qed

lemma wf_order_bookkeeping [simp]:
  "wf_order (b\<lparr>Cancelled := c\<rparr>) = wf_order b"
  "wf_order (b\<lparr>PoolID := p\<rparr>) = wf_order b"
  "wf_order b \<Longrightarrow> length u = 32 \<Longrightarrow> wf_order (b\<lparr>TakerAssetAmountFilled := u\<rparr>)"
  by (simp_all add: wf_order_def wf_uint256_def)

lemma Order_Hash_bookkeeping [simp]:
  "Order_Hash C (b\<lparr>Cancelled := c\<rparr>) = Order_Hash C b"
  "Order_Hash C (b\<lparr>PoolID := p\<rparr>) = Order_Hash C b"
  "Order_Hash C (b\<lparr>TakerAssetAmountFilled := u\<rparr>) = Order_Hash C b"
  "Order_Hash C (b\<lparr>TakerAssetAmountFilled := u, Cancelled := c\<rparr>) = Order_Hash C b"
  by (simp_all add: Order_Hash_def hash_preimage_def domain_preimage_def order_preimage_def)

lemma collision_self [simp]:
  "\<not> digest_collision C b (b\<lparr>PoolID := p\<rparr>)"
  "\<not> digest_collision C b (b\<lparr>TakerAssetAmountFilled := u, Cancelled := c, PoolID := p\<rparr>)"
  by (simp_all add: digest_collision_def hash_inputs_def hash_preimage_def domain_preimage_def order_preimage_def)

text \<open>Updating a row that has the hash of the new one keeps the row in order, provided the two orders
  are not a collision of the digest.\<close>

lemma update_row_ok:
  assumes C: "\<forall>x. length (keccak256 C x) = 32"
    and r: "row_ok C row" and n: "row_ok C (new\<lparr>Status := StatusFilled\<rparr>)" and h: "OrderHash row = OrderHash new"
    and s: "filled_up (types_Order new) \<longrightarrow> Status new \<noteq> StatusOpen"
    and no: "\<not> digest_collision C (types_Order row) (types_Order new)"
  shows "row_ok C (update_row new row)"
proof -
  have w: "wf_order (types_Order row)" "wf_order (types_Order new)"
    "Order_Hash C (types_Order row) = Order_Hash C (types_Order new)"
    using r n h by (simp_all add: row_ok_def Let_def)
  with Order_Hash_same [OF w(1,2) C] no have same: "signed_part (types_Order row) = signed_part (types_Order new)"
    by blast
  let ?b = "(types_Order row)\<lparr>TakerAssetAmountFilled := TakerAssetAmountFilled (types_Order new)\<rparr>"
  have "wf_order ?b" using w by (simp add: wf_order_def)
  moreover have "Order_Hash C ?b = Order_Hash C (types_Order row)"
    using w(1) calculation
    by (simp add: Order_Hash_wf hash_preimage_def order_preimage_def domain_preimage_def)
  moreover have "share_left (types_Order new) = share_left ?b" "filled_up ?b = filled_up (types_Order new)"
    using same by (simp_all add: share_left_def filled_up_def signed_part_def fun_eq_iff)
  ultimately show ?thesis
    using r n s same by (simp add: row_ok_def update_row_def Let_def signed_part_def)
qed

lemma Order_Save_ok:
  assumes C: "\<forall>x. length (keccak256 C x) = 32" and ok: "table_ok C table"
    and wf: "wf_order (types_Order ord)"
    and s: "Order_Save C quo ord status table = Ret (e, table')"
    and no: "\<forall>row \<in> set table. \<forall>pool. Order_Hash C (types_Order ord) = Ret (OrderHash row) \<longrightarrow>
      \<not> digest_collision C (types_Order row) ((types_Order ord)\<lparr>PoolID := pool\<rparr>)"
  shows "table_ok C table'"
  using s wf
proof (cases rule: Order_Save_cases)
  case refused
  with ok show ?thesis by simp
next
  case (saved new)
  obtain pool where pool: "types_Order new = (types_Order ord)\<lparr>PoolID := pool\<rparr>" using saved by blast
  have "hash_preimage C (types_Order new) = hash_preimage C (types_Order ord)"
    unfolding pool by (simp add: hash_preimage_def order_preimage_def domain_preimage_def)
  then have hash: "Order_Hash C (types_Order ord) = Ret (OrderHash new)"
    using saved(2) wf pool by (simp add: row_ok_def Let_def Order_Hash_wf)
  have f: "filled_up (types_Order new) \<longrightarrow> Status new \<noteq> StatusOpen"
    unfolding saved(3) pool by (simp add: filled_up_def StatusFilled_def StatusOpen_def)
  show ?thesis
  proof (cases "OrderHash new \<in> OrderHash ` set table")
    case True
    have keep: "OrderHash (update_row new row) = OrderHash row" for row by (simp add: update_row_def)
    have d: "map OrderHash table' = map OrderHash table"
      using saved(5) True by (simp add: keep cong: map_cong)
    have "row_ok C (update_row new row)" if "row \<in> set table" "OrderHash row = OrderHash new" for row
      using that ok no pool hash by (intro update_row_ok [OF C _ saved(2) _ f]) (auto simp: table_ok_def list_all_iff)
    then have "list_all (row_ok C) table'" using ok saved(5) True by (auto simp: table_ok_def list_all_iff)
    then show ?thesis using ok by (simp add: table_ok_def d)
  next
    case False
    have "row_ok C new" using saved(2) f by (simp add: row_ok_def Let_def)
    then show ?thesis using ok saved(5) False by (auto simp: table_ok_def list_all_iff)
  qed
qed

lemma set_status_ok:
  assumes "table_ok C table" and "status \<noteq> StatusOpen"
  shows "table_ok C (snd (update_where cond (\<lambda>row. row\<lparr>Status := status\<rparr>) table))"
proof -
  have "map OrderHash (snd (update_where cond (\<lambda>row. row\<lparr>Status := status\<rparr>) table)) = map OrderHash table"
    by (simp add: update_where_def)
  moreover have "row_ok C (row\<lparr>Status := status\<rparr>)" if "row_ok C row" for row :: "'a db_order"
    using that assms(2) by (simp add: row_ok_def Let_def)
  ultimately show ?thesis using assms(1)
    by (auto simp: table_ok_def list_all_iff) (auto simp: update_where_def)
qed

text \<open>The writers of the table: indexers (of open or of unfunded orders), and the recorders of fills,
  spends and cancellations, in any order.\<close>

inductive index_step ::
  "crypto \<Rightarrow> (int \<Rightarrow> int \<Rightarrow> 'f go) \<Rightarrow> 'f orders_table \<Rightarrow> 'f orders_table \<Rightarrow> bool"
  for C :: crypto and quo :: "int \<Rightarrow> int \<Rightarrow> 'f go"
where
  indexed: "index_step C quo table table'"
    if "wf_order ord" "status \<in> {StatusOpen, StatusUnfunded}"
      "Indexer_Index C quo zero status ord table = Ret (e, table')"
      "\<forall>row \<in> set table. \<forall>pool. \<not> digest_collision C (types_Order row) (ord\<lparr>PoolID := pool\<rparr>)"
| recorded_fill: "index_step C quo table table'" if "RecordFill C quo fill table = Ret (e, table')"
| recorded_spend: "index_step C quo table table'"
    if "RecordSpend StatusUnfunded maker token zrx assetData balance table = Ret (e, table')"
| recorded_cancellation: "index_step C quo table table'"
    if "RecordCancellation StatusCancelled c (cancellations, table) = Ret (e, cancellations', table')"

inductive index_reachable ::
  "crypto \<Rightarrow> (int \<Rightarrow> int \<Rightarrow> 'f go) \<Rightarrow> 'f orders_table \<Rightarrow> bool"
  for C :: crypto and quo :: "int \<Rightarrow> int \<Rightarrow> 'f go"
where
  empty_index: "index_reachable C quo []"
| step_index: "index_reachable C quo table \<Longrightarrow> index_step C quo table table' \<Longrightarrow> index_reachable C quo table'"


lemma RecordFill_found:
  assumes "table_ok C table" and "RecordFill C quo fill table = Ret (e, table')"
  obtains "table' = table"
  | row amount where "row \<in> set table" "row_ok C row"
      "Order_Save C quo (row\<lparr>types_Order := (types_Order row)
         \<lparr>TakerAssetAmountFilled := abi_U256 (int (be_nat (TakerAssetAmountFilled (types_Order row))) + amount),
          Cancelled := Cancelled (types_Order row) \<or> fr_Cancel fill\<rparr>\<rparr>) (Status row) table = Ret (e, table')"
proof (cases "hex_DecodeString (trim_prefix (fr_OrderHash fill) ''0x'')")
  case (Inl x)
  with assms that show thesis by (simp add: RecordFill_def)
next
  case (Inr h)
  let ?s = "if fr_FilledTakerAssetAmount fill = [] then ''0'' else fr_FilledTakerAssetAmount fill"
  show thesis
  proof (cases "big_SetString ?s")
    case None
    with Inr assms that show thesis by (simp add: RecordFill_def Let_def)
  next
    case (Some n)
    show thesis
    proof (cases "find (\<lambda>row. OrderHash row = h) table")
      case None
      with Inr Some assms that show thesis by (simp add: RecordFill_def Let_def)
    next
      case (Some row)
      then have row: "row \<in> set table" by (metis find_Some_iff nth_mem)
      then have ok: "row_ok C row" using assms(1) by (simp add: table_ok_def list_all_iff)
      then have "length (TakerAssetAmountFilled (types_Order row)) = 32"
        by (simp add: row_ok_def Let_def wf_order_def wf_uint256_def)
      with that(2) [OF row ok, of n] Inr Some \<open>big_SetString ?s = Some n\<close> assms(2) show thesis
        by (simp add: RecordFill_def Let_def Uint256_Big_def)
    qed
  qed
qed

lemma RecordFill_ok:
  assumes C: "\<forall>x. length (keccak256 C x) = 32" and ok: "table_ok C table"
    and f: "RecordFill C quo fill table = Ret (e, table')"
  shows "table_ok C table'"
  using ok f
proof (cases rule: RecordFill_found)
  case 1
  with ok show ?thesis by simp
next
  case (2 row amount)
  let ?b = "(types_Order row)\<lparr>TakerAssetAmountFilled :=
      abi_U256 (int (be_nat (TakerAssetAmountFilled (types_Order row))) + amount),
      Cancelled := Cancelled (types_Order row) \<or> fr_Cancel fill\<rparr>"
  have w: "wf_order ?b" using 2(2) by (simp add: row_ok_def Let_def)
  have h: "Order_Hash C ?b = Ret (OrderHash row)" using 2(2) by (simp add: row_ok_def Let_def)
  have u: "r = row" if "r \<in> set table" "OrderHash r = OrderHash row" for r
    using ok 2(1) that by (auto simp: table_ok_def distinct_map inj_on_def)
  show ?thesis
  proof (rule Order_Save_ok [OF C ok _ 2(3)])
    show "wf_order (types_Order (row\<lparr>types_Order := ?b\<rparr>))" using w by simp
    show "\<forall>r \<in> set table. \<forall>pool. Order_Hash C (types_Order (row\<lparr>types_Order := ?b\<rparr>)) = Ret (OrderHash r) \<longrightarrow>
        \<not> digest_collision C (types_Order r) ((types_Order (row\<lparr>types_Order := ?b\<rparr>))\<lparr>PoolID := pool\<rparr>)"
      using h u by (auto simp del: digest_collision_def)
  qed
qed

lemma index_step_ok:
  assumes C: "\<forall>x. length (keccak256 C x) = 32" and s: "index_step C quo table table'" and ok: "table_ok C table"
  shows "table_ok C table'"
  using s
proof cases
  case (indexed ord status zero e)
  show ?thesis
    by (rule Order_Save_ok [OF C ok _ indexed(3) [unfolded Indexer_Index_def]]) (use indexed in auto)
next
  case (recorded_fill fill e)
  then show ?thesis using RecordFill_ok [OF C ok] by blast
next
  case (recorded_spend maker token zrx assetData balance e)
  then obtain cond where "table' = snd (update_where cond (\<lambda>row. row\<lparr>Status := StatusUnfunded\<rparr>) table)"
    by (auto simp: RecordSpend_def go_simps Let_def)
  then show ?thesis using set_status_ok [OF ok] by (simp add: StatusUnfunded_def StatusOpen_def)
next
  case (recorded_cancellation c cs e cs')
  then obtain c' where "table' = snd (update_where (cancel_condition c') (\<lambda>row. row\<lparr>Status := StatusCancelled\<rparr>) table)"
    by (auto simp: RecordCancellation_def go_simps split: prod.splits)
  then show ?thesis using set_status_ok [OF ok] by (simp add: StatusCancelled_def StatusOpen_def)
qed

lemma reachable_table_ok:
  "index_reachable C quo table \<Longrightarrow> \<forall>x. length (keccak256 C x) = 32 \<Longrightarrow> table_ok C table"
proof (induction rule: index_reachable.induct)
  case empty_index
  then show ?case by (simp add: table_ok_def)
next
  case (step_index table table')
  then show ?case using index_step_ok by blast
qed

text \<open>C6: whatever the indexers and recorders did to the table, its rows have distinct keys, each the
  hash of its own well-formed order, carrying the maker's valid signature; the maker amount and fee
  that remain are those its fills leave; and an order whose fills reach its threshold is not open.\<close>

theorem index_invariant:
  assumes "index_reachable C quo table" and "\<forall>x. length (keccak256 C x) = 32"
  shows "distinct (map OrderHash table) \<and> (\<forall>row \<in> set table. row_ok C row)"
  using reachable_table_ok [OF assms] by (simp add: table_ok_def list_all_iff)

lemma Order_Save_returns:
  assumes "wf_order (types_Order ord)" and "Order_Hash C (types_Order ord) = Ret h"
    and "Signature_Verify C (Signature (types_Order ord)) (Maker (types_Order ord)) h = Ret True"
    and "be_nat (TakerAssetAmount (types_Order ord)) \<noteq> 0" and "\<forall>a b. returns (quo a b)"
  shows "\<exists>table'. Order_Save C quo ord status table = Ret (None, table')"
  using Populate_returns [OF assms(1,4,5), of C] assms(2,3)
  by (auto simp: Order_Save_def Let_def split: prod.splits)

definition sample_signed_order :: order where
  "sample_signed_order = sample_taker_order\<lparr>Maker := sample_signer, Signature := sample_signature\<rparr>"

lemma wf_sample_signed_order: "wf_order sample_signed_order"
  using wf_sample_taker_order
  by (simp add: sample_signed_order_def wf_order_def wf_address_def sample_signer_def)

lemma sample_amounts:
  "be_nat (TakerAssetAmount sample_signed_order) = 200"
  "be_nat (TakerAssetAmountFilled sample_signed_order) = 50"
  "be_nat (MakerAssetAmount sample_signed_order) = 100"
  by (simp_all add: sample_signed_order_def sample_taker_order_def be_nat_append)

lemma sample_signed_simps [simp]:
  "Maker sample_signed_order = sample_signer" "Signature sample_signed_order = sample_signature"
  by (simp_all add: sample_signed_order_def)

lemma sample_indexed:
  "\<exists>table. Indexer_Index sample_crypto (\<lambda>a b. Ret ()) () StatusOpen sample_signed_order [] = Ret (None, table)"
  unfolding Indexer_Index_def
  by (rule Order_Save_returns [OF _ Order_Hash_wf])
    (simp_all add: wf_sample_signed_order sample_amounts sample_signature_valid)

lemma sample_table:
  "\<exists>row pool. index_reachable sample_crypto (\<lambda>a b. Ret ()) [row] \<and>
     types_Order row = sample_signed_order\<lparr>PoolID := pool\<rparr> \<and> Status row = StatusOpen"
proof -
  obtain table where t: "Indexer_Index sample_crypto (\<lambda>a b. Ret ()) () StatusOpen sample_signed_order [] =
      Ret (None, table)" using sample_indexed by blast
  have "index_step sample_crypto (\<lambda>a b. Ret ()) [] table"
    by (rule indexed [OF wf_sample_signed_order _ t]) simp_all
  then have r: "index_reachable sample_crypto (\<lambda>a b. Ret ()) table" by (rule step_index [OF empty_index])
  have f: "\<not> filled_up sample_signed_order" "\<not> Cancelled sample_signed_order"
    by (simp_all add: filled_up_iff sample_amounts)
      (simp add: sample_signed_order_def sample_taker_order_def sample_order_def Initialize_def)
  from t show ?thesis unfolding Indexer_Index_def
  proof (rule Order_Save_cases)
    fix new
    assume "table = (if OrderHash new \<in> OrderHash ` set []
        then map (\<lambda>row. if OrderHash row = OrderHash new then update_row new row else row) [] else [] @ [new])"
      and "\<exists>pool. types_Order new = (types_Order \<lparr>types_Order = sample_signed_order, OrderHash = [],
        Status = 0, Price = (), FeeRate = (), MakerAssetRemaining = [], MakerFeeRemaining = []\<rparr>)\<lparr>PoolID := pool\<rparr>"
      and "Status new = (if filled_up (types_Order \<lparr>types_Order = sample_signed_order, OrderHash = [],
        Status = 0, Price = (), FeeRate = (), MakerAssetRemaining = [], MakerFeeRemaining = []\<rparr>) then StatusFilled
         else if Cancelled (types_Order \<lparr>types_Order = sample_signed_order, OrderHash = [],
        Status = 0, Price = (), FeeRate = (), MakerAssetRemaining = [], MakerFeeRemaining = []\<rparr>) then StatusCancelled
         else if Status \<lparr>types_Order = sample_signed_order, OrderHash = [],
        Status = 0, Price = (), FeeRate = (), MakerAssetRemaining = [], MakerFeeRemaining = []\<rparr> = StatusOpen
          then StatusOpen else Status \<lparr>types_Order = sample_signed_order, OrderHash = [],
        Status = 0, Price = (), FeeRate = (), MakerAssetRemaining = [], MakerFeeRemaining = []\<rparr>)"
    then show ?thesis using r f by (auto simp: StatusOpen_def)
  qed (simp_all add: wf_sample_signed_order)
qed

theorem index_invariant_witness:
  "\<exists>row pool. row_ok sample_crypto row \<and> types_Order row = sample_signed_order\<lparr>PoolID := pool\<rparr> \<and>
     index_reachable sample_crypto (\<lambda>a b. Ret ()) [row]"
proof -
  obtain row pool where r: "index_reachable sample_crypto (\<lambda>a b. Ret ()) [row]"
    "types_Order row = sample_signed_order\<lparr>PoolID := pool\<rparr>" using sample_table by blast
  with index_invariant [OF r(1) sample_keccak_length] show ?thesis by auto
qed

lemma table_row_unique:
  assumes "table_ok C table" and "row \<in> set table"
  shows "find (\<lambda>r. OrderHash r = OrderHash row) table = Some row"
    and "r \<in> set table \<Longrightarrow> OrderHash r = OrderHash row \<Longrightarrow> r = row"
proof -
  show u: "r = row" if "r \<in> set table" "OrderHash r = OrderHash row" for r
    using assms that by (auto simp: table_ok_def distinct_map inj_on_def)
  show "find (\<lambda>r. OrderHash r = OrderHash row) table = Some row"
  proof (cases "find (\<lambda>r. OrderHash r = OrderHash row) table")
    case None
    with assms(2) show ?thesis by (auto simp: find_None_iff)
  next
    case (Some r)
    then have "r \<in> set table" "OrderHash r = OrderHash row" by (auto simp: find_Some_iff)
    with u Some show ?thesis by blast
  qed
qed

text \<open>Saving an order with the hash of an indexed row replaces that row.\<close>

lemma Order_Save_updates:
  assumes ok: "table_ok C table" and row: "row \<in> set table" and base: "base = types_Order ord" and st: "st = Status ord"
    and b: "wf_order base" "Order_Hash C base = Ret (OrderHash row)" "Signature base = Signature (types_Order row)"
      "Maker base = Maker (types_Order row)" "TakerAssetAmount base = TakerAssetAmount (types_Order row)"
    and quo: "\<forall>a b. returns (quo a b)"
  obtains new pool where "Order_Save C quo ord st table =
      Ret (None, map (\<lambda>r. if OrderHash r = OrderHash row then update_row new row else r) table)"
    "types_Order new = base\<lparr>PoolID := pool\<rparr>" "MakerAssetRemaining new = share_left base (MakerAssetAmount base)"
    "Status new = (if filled_up base then StatusFilled else if Cancelled base then StatusCancelled else st)"
proof -
  have rok: "row_ok C row" using ok row by (simp add: table_ok_def list_all_iff)
  obtain table' where s: "Order_Save C quo ord st table = Ret (None, table')"
    using Order_Save_returns [of ord C "OrderHash row" quo st table] b rok quo base
    by (auto simp: row_ok_def Let_def)
  from s show thesis
  proof (rule Order_Save_cases)
    show "wf_order (types_Order ord)" using b base by simp
  next
    assume "None = Some sig_error"
    then show thesis by simp
  next
    fix new
    assume new: "row_ok C (new\<lparr>Status := StatusFilled\<rparr>)"
      "Status new = (if filled_up (types_Order ord) then StatusFilled
         else if Cancelled (types_Order ord) then StatusCancelled
         else if Status ord = StatusOpen then st else Status ord)"
      "\<exists>pool. types_Order new = (types_Order ord)\<lparr>PoolID := pool\<rparr>"
      "table' = (if OrderHash new \<in> OrderHash ` set table
         then map (\<lambda>r. if OrderHash r = OrderHash new then update_row new r else r) table
         else table @ [new])"
    obtain pool where pool: "types_Order new = base\<lparr>PoolID := pool\<rparr>" using new(3) base by auto
    have "OrderHash new = OrderHash row" using new(1) b(2) pool by (simp add: row_ok_def Let_def)
    then have "table' = map (\<lambda>r. if OrderHash r = OrderHash row then update_row new row else r) table"
      using new(4) row table_row_unique(2) [OF ok row] by (auto intro!: map_cong)
    moreover have "MakerAssetRemaining new = share_left base (MakerAssetAmount base)"
      using new(1) pool by (simp add: row_ok_def Let_def share_left_def)
    ultimately show thesis using that [of new pool] s pool new(2) base st by simp
  qed
qed

text \<open>C7: recording a fill of an indexed order adds it to the filled amount, recomputes what remains
  of the maker's side, marks the order filled from its threshold on and otherwise cancelled when the
  record or the order says so, and leaves every other row as it is.\<close>

theorem RecordFill_accumulates:
  assumes ok: "table_ok C table" and row: "row \<in> set table"
    and h: "hex_DecodeString (trim_prefix (fr_OrderHash fill) ''0x'') = Inr (OrderHash row)"
    and n: "big_SetString (fr_FilledTakerAssetAmount fill) = Some (int n)"
    and base: "base = types_Order row" and newly: "newly = be_nat (TakerAssetAmountFilled base) + n"
    and taker: "taker = be_nat (TakerAssetAmount base)" "newly \<le> taker"
    and quo: "\<forall>a b. returns (quo a b)"
  shows "\<exists>row'. RecordFill C quo fill table =
      Ret (None, map (\<lambda>r. if OrderHash r = OrderHash row then row' else r) table) \<and>
    be_nat (TakerAssetAmountFilled (types_Order row')) = newly \<and>
    be_nat (MakerAssetRemaining row') = be_nat (MakerAssetAmount base) * (taker - newly) div taker \<and>
    Status row' = (if (if 100 < taker then taker * 99 div 100 else taker) \<le> newly then StatusFilled
      else if Cancelled base \<or> fr_Cancel fill then StatusCancelled else Status row)"
proof -
  have rok: "row_ok C row" using ok row by (simp add: table_ok_def list_all_iff)
  have wf: "wf_order base" "length (TakerAssetAmountFilled base) = 32" "length (MakerAssetAmount base) = 32"
    "taker \<noteq> 0" "length (TakerAssetAmount base) = 32"
    using rok base taker by (simp_all add: row_ok_def Let_def wf_order_def wf_uint256_def)
  define u' where "u' = abi_U256 (int newly)"
  define b' where "b' = base\<lparr>TakerAssetAmountFilled := u', Cancelled := Cancelled base \<or> fr_Cancel fill\<rparr>"
  have "fr_FilledTakerAssetAmount fill \<noteq> []" using n by (auto simp: big_SetString_def dec_parse_nat_def)
  then have f: "RecordFill C quo fill table = Order_Save C quo (row\<lparr>types_Order := b'\<rparr>) (Status row) table"
    using h n wf base newly table_row_unique(1) [OF ok row]
    by (simp add: RecordFill_def Let_def Uint256_Big_def u'_def b'_def)
  have "taker < 2 ^ 256" using be_nat_less [of "TakerAssetAmount base"] wf taker by simp
  then have val: "be_nat u' = newly" using taker(2) be_nat_abi_U256 [of "int newly"] by (simp add: u'_def)
  have b: "wf_order b'" "Order_Hash C b' = Ret (OrderHash row)" "Signature b' = Signature (types_Order row)"
    "Maker b' = Maker (types_Order row)" "TakerAssetAmount b' = TakerAssetAmount (types_Order row)"
    using wf rok base by (simp_all add: b'_def u'_def row_ok_def Let_def)
  have ord: "b' = types_Order (row\<lparr>types_Order := b'\<rparr>)" "Status row = Status (row\<lparr>types_Order := b'\<rparr>)" by simp_all
  obtain new pool where new: "Order_Save C quo (row\<lparr>types_Order := b'\<rparr>) (Status row) table =
      Ret (None, map (\<lambda>r. if OrderHash r = OrderHash row then update_row new row else r) table)"
    "types_Order new = b'\<lparr>PoolID := pool\<rparr>" "MakerAssetRemaining new = share_left b' (MakerAssetAmount b')"
    "Status new = (if filled_up b' then StatusFilled else if Cancelled b' then StatusCancelled else Status row)"
    by (rule Order_Save_updates [OF ok row ord b quo])
  have "be_nat (share_left b' (MakerAssetAmount base)) = be_nat (MakerAssetAmount base) * (taker - newly) div taker"
    using wf taker val by (intro share_left_value) (simp_all add: b'_def)
  moreover have "MakerAssetAmount b' = MakerAssetAmount base" by (simp add: b'_def)
  moreover have "Status new = (if (if 100 < taker then taker * 99 div 100 else taker) \<le> newly then StatusFilled
      else if Cancelled base \<or> fr_Cancel fill then StatusCancelled else Status row)"
    using new(4) val taker by (simp add: filled_up_iff b'_def)
  moreover have "TakerAssetAmountFilled (types_Order new) = u'" using new(2) by (simp add: b'_def)
  ultimately show ?thesis using f new(1,3) val
    by (intro exI [of _ "update_row new row"]) (simp add: update_row_def)
qed

theorem RecordFill_accumulates_witness:
  "\<exists>row row' pool. types_Order row = sample_signed_order\<lparr>PoolID := pool\<rparr> \<and>
     RecordFill sample_crypto (\<lambda>a b. Ret ()) \<lparr>fr_OrderHash = ''0x'' @ hex_encode (OrderHash row),
       fr_FilledTakerAssetAmount = ''100'', fr_Cancel = True\<rparr> [row] = Ret (None, [row']) \<and>
     be_nat (TakerAssetAmountFilled (types_Order row')) = 150 \<and>
     be_nat (MakerAssetRemaining row') = 25 \<and> Status row' = StatusCancelled"
proof -
  obtain row pool where r: "index_reachable sample_crypto (\<lambda>a b. Ret ()) [row]"
    "types_Order row = sample_signed_order\<lparr>PoolID := pool\<rparr>" using sample_table by blast
  have "table_ok sample_crypto [row]" by (rule reachable_table_ok [OF r(1) sample_keccak_length])
  moreover have "big_SetString ''100'' = Some (int 100)"
    by (simp add: big_SetString_def dec_parse_nat_def from_dec_char_def)
  ultimately show ?thesis
    using RecordFill_accumulates [of sample_crypto "[row]" row "\<lparr>fr_OrderHash = ''0x'' @ hex_encode (OrderHash row),
       fr_FilledTakerAssetAmount = ''100'', fr_Cancel = True\<rparr>" 100 "types_Order row" 150 200 "\<lambda>a b. Ret ()"]
      r(2) trim_prefix_append [of "''0x''"]
    by (simp add: sample_amounts) blast
qed

lemma update_first_None: "update_first p f xs = None \<longleftrightarrow> list_all (\<lambda>x. \<not> p x) xs"
  by (induction xs) auto

lemma update_first_Some:
  "update_first p f xs = Some (y, ys) \<Longrightarrow> \<exists>us x vs. xs = us @ x # vs \<and> list_all (\<lambda>x. \<not> p x) us \<and> p x \<and>
     y = f x \<and> ys = us @ f x # vs"
proof (induction xs arbitrary: ys)
  case (Cons x xs)
  show ?case
  proof (cases "p x")
    case True
    with Cons.prems show ?thesis by (intro exI [of _ "[]"] exI [of _ x] exI [of _ xs]) auto
  next
    case False
    with Cons.prems obtain zs where z: "update_first p f xs = Some (y, zs)" "ys = x # zs" by auto
    from Cons.IH [OF z(1)] obtain us x' vs where "xs = us @ x' # vs" "list_all (\<lambda>x. \<not> p x) us" "p x'"
      "y = f x'" "zs = us @ f x' # vs" by blast
    with False z(2) show ?thesis by (intro exI [of _ "x # us"]) simp
  qed
qed simp

lemma find_append: "find p (xs @ ys) = (case find p xs of Some x \<Rightarrow> Some x | None \<Rightarrow> find p ys)"
  by (induction xs) auto

lemma Cancellation_Save_complete:
  assumes c: "cr_Maker c \<noteq> []" "cr_Sender c \<noteq> []" "cr_Epoch c \<noteq> []"
  obtains table' where "Cancellation_Save c table = Ret (c, table')"
    "\<And>m s. GetCancellationEpoch m s table' =
       (if m = cr_Maker c \<and> s = cr_Sender c then cr_Epoch c else GetCancellationEpoch m s table)"
proof (cases "update_first (same_owner c)
    (\<lambda>row. if cr_Epoch c = [] then row else row\<lparr>cr_Epoch := cr_Epoch c\<rparr>) table")
  case None
  then have "\<forall>r \<in> set table. \<not> (cr_Maker r = cr_Maker c \<and> cr_Sender r = cr_Sender c)"
    using c by (auto simp: update_first_None list_all_iff same_owner_def)
  then have n: "find (\<lambda>r. cr_Maker r = cr_Maker c \<and> cr_Sender r = cr_Sender c) table = None"
    by (auto simp: find_None_iff)
  show thesis
    using None c n by (intro that [of "table @ [c]"])
      (auto simp: Cancellation_Save_def GetCancellationEpoch_def find_append deref_def split: option.splits)
next
  case (Some r)
  obtain y ys where r: "r = (y, ys)" by (cases r)
  from update_first_Some [OF Some [unfolded r]] obtain us x vs where u: "table = us @ x # vs"
    "list_all (\<lambda>x. \<not> same_owner c x) us" "same_owner c x" "y = x\<lparr>cr_Epoch := cr_Epoch c\<rparr>" "ys = us @ y # vs"
    using c by auto
  have y: "y = c" using u(3,4) c by (simp add: same_owner_def)
  have n: "find (\<lambda>r. cr_Maker r = cr_Maker c \<and> cr_Sender r = cr_Sender c) us = None"
    using u(2) c by (auto simp: find_None_iff list_all_iff same_owner_def)
  show thesis
  proof (rule that [of ys])
    show "Cancellation_Save c table = Ret (c, ys)" using Some r y by (simp add: Cancellation_Save_def)
    show "GetCancellationEpoch m s ys =
       (if m = cr_Maker c \<and> s = cr_Sender c then cr_Epoch c else GetCancellationEpoch m s table)" for m s
      using u y n c by (auto simp: GetCancellationEpoch_def find_append same_owner_def split: option.splits)
  qed
qed

lemma RecordCancellation_effect:
  assumes c: "length (cr_Maker c) = 20" "length (cr_Sender c) = 20" "length (cr_Epoch c) = 32"
    and ok: "table_ok C orders"
  shows "\<exists>cancellations'. RecordCancellation StatusCancelled c (cancellations, orders) =
      Ret (None, cancellations', map (\<lambda>row.
        if Status row = StatusOpen \<and> Maker (types_Order row) = cr_Maker c \<and>
           SenderAddress (types_Order row) = cr_Sender c \<and>
           be_nat (Salt (types_Order row)) < be_nat (cr_Epoch c)
        then row\<lparr>Status := StatusCancelled\<rparr> else row) orders) \<and>
    (\<forall>maker sender. GetCancellationEpoch maker sender cancellations' =
      (if maker = cr_Maker c \<and> sender = cr_Sender c then cr_Epoch c
       else GetCancellationEpoch maker sender cancellations))"
proof -
  have n: "cr_Maker c \<noteq> []" "cr_Sender c \<noteq> []" "cr_Epoch c \<noteq> []" using c by auto
  obtain cs where cs: "Cancellation_Save c cancellations = Ret (c, cs)"
    "\<And>m s. GetCancellationEpoch m s cs =
       (if m = cr_Maker c \<and> s = cr_Sender c then cr_Epoch c else GetCancellationEpoch m s cancellations)"
    using Cancellation_Save_complete [OF n] by blast
  have less: "sql_less (Salt (types_Order row)) (cr_Epoch c) =
      (be_nat (Salt (types_Order row)) < be_nat (cr_Epoch c))" if "row \<in> set orders" for row
    unfolding sql_less_def using that ok c(3)
    by (intro bytes_compare_less) (auto simp: table_ok_def list_all_iff row_ok_def Let_def wf_order_def wf_uint256_def)
  show ?thesis
    using cs less
    by (intro exI [of _ cs]) (auto simp: RecordCancellation_def update_where_def cancel_condition_def intro!: map_cong)
qed



end
