(* ===== verification/Balances.thy ===== *)
theory Balances
  imports Orders Channels
begin

text \<open>
  Balance lookups (\<open>funds/balance\<close>): the ERC20 and ERC721 checkers over the token contracts, which
  are parameters, the routing checker with its cache, and the mocks. A lookup reads the state
  \<open>'w\<close> of the chain. The interface the order validation relies on is the locale
  \<open>balance_lookup\<close>: a checker with state answers as the chain does, whatever it has remembered;
  the routing checker is an interpretation.
\<close>

section \<open>Contracts\<close>

text \<open>The calls of the token bindings; \<open>nil\<close> addresses cannot be sent.\<close>

record 'w token_rpc =
  BalanceOf :: "address \<Rightarrow> address \<Rightarrow> 'w \<Rightarrow> err + int"
  Allowance :: "address \<Rightarrow> address \<Rightarrow> address \<Rightarrow> 'w \<Rightarrow> err + int"
  OwnerOf :: "address \<Rightarrow> int \<Rightarrow> 'w \<Rightarrow> err + address"
  IsApprovedForAll :: "address \<Rightarrow> address \<Rightarrow> address \<Rightarrow> 'w \<Rightarrow> err + bool"
  GetApproved :: "address \<Rightarrow> int \<Rightarrow> 'w \<Rightarrow> err + address"
  NewToken :: "address \<Rightarrow> 'w \<Rightarrow> err option"

type_synonym 'w balance_fn = "asset_data \<Rightarrow> address \<Rightarrow> 'w \<Rightarrow> (err + int) go"
type_synonym 'w allowance_fn = "asset_data \<Rightarrow> address \<Rightarrow> address \<Rightarrow> 'w \<Rightarrow> (err + int) go"

record 'w checker =
  GetBalance :: "'w balance_fn"
  GetAllowance :: "'w allowance_fn"

definition erc20_GetBalance :: "'w token_rpc \<Rightarrow> 'w balance_fn" where
  "erc20_GetBalance rpc asset user w =
     go_bind (AssetData_Address asset) (\<lambda>token.
       case NewToken rpc token w of
         Some e \<Rightarrow> Ret (Inl e)
       | None \<Rightarrow> go_bind (deref user) (\<lambda>u. Ret (BalanceOf rpc token u w)))"

definition erc20_GetAllowance :: "'w token_rpc \<Rightarrow> 'w allowance_fn" where
  "erc20_GetAllowance rpc asset owner spender w =
     go_bind (AssetData_Address asset) (\<lambda>token.
       case NewToken rpc token w of
         Some e \<Rightarrow> Ret (Inl e)
       | None \<Rightarrow>
           go_bind (deref owner) (\<lambda>ow.
           go_bind (deref spender) (\<lambda>sp. Ret (Allowance rpc token ow sp w))))"

definition erc721_GetBalance :: "'w token_rpc \<Rightarrow> 'w balance_fn" where
  "erc721_GetBalance rpc asset user w =
     go_bind (AssetData_Address asset) (\<lambda>token.
       case NewToken rpc token w of
         Some e \<Rightarrow> Ret (Inl e)
       | None \<Rightarrow>
           go_bind (TokenID asset) (\<lambda>tid.
           case OwnerOf rpc token (int (be_nat tid)) w of
             Inl e \<Rightarrow> Ret (Inl e)
           | Inr owner \<Rightarrow>
               go_bind (deref user) (\<lambda>u. Ret (Inr (if u \<noteq> owner then 0 else 1)))))"

definition revert_message :: err where
  "revert_message = ''VM Exception while processing transaction: revert''"

definition erc721_GetAllowance :: "'w token_rpc \<Rightarrow> 'w allowance_fn" where
  "erc721_GetAllowance rpc asset owner spender w =
     go_bind (AssetData_Address asset) (\<lambda>token.
       case NewToken rpc token w of
         Some e \<Rightarrow> Ret (Inl e)
       | None \<Rightarrow>
           go_bind (deref owner) (\<lambda>ow.
           go_bind (deref spender) (\<lambda>sp.
             let by_operator =
                   go_bind (TokenID asset) (\<lambda>tid.
                     case GetApproved rpc token (int (be_nat tid)) w of
                       Inl e \<Rightarrow> Ret (Inl e)
                     | Inr operator \<Rightarrow> Ret (Inr (if sp = operator then 1 else 0)))
             in case IsApprovedForAll rpc token ow sp w of
                  Inl e \<Rightarrow> if e \<noteq> revert_message then Ret (Inl e) else by_operator
                | Inr True \<Rightarrow> Ret (Inr 1)
                | Inr False \<Rightarrow> by_operator)))"

definition rpc_checkers :: "'w token_rpc \<Rightarrow> string \<rightharpoonup> 'w checker" where
  "rpc_checkers rpc =
     [''0xf47261b0'' \<mapsto> \<lparr>GetBalance = erc20_GetBalance rpc, GetAllowance = erc20_GetAllowance rpc\<rparr>,
      ''0x02571792'' \<mapsto> \<lparr>GetBalance = erc721_GetBalance rpc, GetAllowance = erc721_GetAllowance rpc\<rparr>,
      ''0x0e2042d8'' \<mapsto> \<lparr>GetBalance = erc20_GetBalance rpc, GetAllowance = erc20_GetAllowance rpc\<rparr>]"

section \<open>The routing checker\<close>

record 'w routing =
  lookupCache :: "(string \<rightharpoonup> int) option"
  assetBalanceCheckers :: "string \<rightharpoonup> 'w checker"

definition NewRpcRoutingBalanceChecker :: "'w token_rpc \<Rightarrow> 'w routing" where
  "NewRpcRoutingBalanceChecker rpc = \<lparr>lookupCache = None, assetBalanceCheckers = rpc_checkers rpc\<rparr>"

definition balance_key :: "asset_data \<Rightarrow> address \<Rightarrow> string" where
  "balance_key asset user = ''b-'' @ sprintf_hex asset @ ''-'' @ sprintf_hex user"

definition allowance_key :: "asset_data \<Rightarrow> address \<Rightarrow> address \<Rightarrow> string" where
  "allowance_key asset owner spender =
     ''a-'' @ sprintf_hex asset @ ''-'' @ sprintf_hex owner @ ''-'' @ sprintf_hex spender"

definition no_checker_error :: "bytes \<Rightarrow> err" where
  "no_checker_error p = ''Could not find balance checker for asset type '' @ sprintf_hex p"

text \<open>The lookup of both operations, given the key and the call of the asset's checker. The mutex
  makes each access to the cache atomic.\<close>

definition routed ::
  "asset_data \<Rightarrow> ('w checker \<Rightarrow> (err + int) go) \<Rightarrow> 'w routing \<Rightarrow> (err + int) go"
where
  "routed asset call funds =
     go_bind (ProxyId asset) (\<lambda>p.
       case assetBalanceCheckers funds (sprintf_hex p) of
         None \<Rightarrow> Ret (Inl (no_checker_error p))
       | Some ch \<Rightarrow> call ch)"

definition cached ::
  "string \<Rightarrow> (err + int) go \<Rightarrow> 'w routing \<Rightarrow> ((err + int) \<times> 'w routing) go"
where
  "cached key fetch funds =
     (case lookupCache funds of
        None \<Rightarrow> go_map (\<lambda>r. (r, funds)) fetch
      | Some cache \<Rightarrow>
          (case cache key of
             Some v \<Rightarrow> Ret (Inr v, funds)
           | None \<Rightarrow>
               go_map (\<lambda>r. (r, case r of
                             Inl e \<Rightarrow> funds
                           | Inr v \<Rightarrow> funds\<lparr>lookupCache := Some (cache(key \<mapsto> v))\<rparr>)) fetch))"

definition routing_GetBalance ::
  "asset_data \<Rightarrow> address \<Rightarrow> 'w \<Rightarrow> 'w routing \<Rightarrow> ((err + int) \<times> 'w routing) go"
where
  "routing_GetBalance asset user w funds =
     go_bind (deref user) (\<lambda>u.
       cached (balance_key asset u) (routed asset (\<lambda>ch. GetBalance ch asset u w) funds) funds)"

definition routing_GetAllowance ::
  "asset_data \<Rightarrow> address \<Rightarrow> address \<Rightarrow> 'w \<Rightarrow> 'w routing \<Rightarrow> ((err + int) \<times> 'w routing) go"
where
  "routing_GetAllowance asset owner spender w funds =
     go_bind (deref owner) (\<lambda>ow.
     go_bind (deref spender) (\<lambda>sp.
       cached (allowance_key asset ow sp)
         (routed asset (\<lambda>ch. GetAllowance ch asset ow sp w) funds) funds))"

text \<open>\<open>Consume\<close> on a new block: the cache starts afresh; the message is acknowledged.\<close>

definition routing_Consume :: "'v delivery \<Rightarrow> 'v \<Rightarrow> 'w routing \<Rightarrow> 'v \<times> 'w routing" where
  "routing_Consume msg v funds = (snd (Ack msg v), funds\<lparr>lookupCache := Some Map.empty\<rparr>)"

section \<open>The mocks\<close>

definition mock_balance :: "(bytes \<rightharpoonup> (address \<rightharpoonup> int)) \<Rightarrow> asset_data \<Rightarrow> address \<Rightarrow> (err + int) go" where
  "mock_balance balances asset user =
     (case balances asset of
        None \<Rightarrow> Ret (Inl (''(GetBalance) Token not found: '' @ sprintf_hex asset))
      | Some tokenMap \<Rightarrow>
          go_bind (deref user) (\<lambda>u.
          case tokenMap u of
            Some b \<Rightarrow> Ret (Inr b)
          | None \<Rightarrow> Ret (Inl (''(GetBalance) User address not found: '' @ sprintf_hex u))))"

definition mock_checker :: "(bytes \<rightharpoonup> (address \<rightharpoonup> int)) \<Rightarrow> 'w checker" where
  "mock_checker balances =
     \<lparr>GetBalance = (\<lambda>asset user w. mock_balance balances asset user),
      GetAllowance = (\<lambda>asset user sender w. mock_balance balances asset user)\<rparr>"

definition error_checker :: "err \<Rightarrow> 'w checker" where
  "error_checker e =
     \<lparr>GetBalance = (\<lambda>asset user w. Ret (Inl e)), GetAllowance = (\<lambda>asset user sender w. Ret (Inl e))\<rparr>"

section \<open>Lookups that remember\<close>

datatype query = AskBalance asset_data address | AskAllowance asset_data address address

fun wf_query :: "query \<Rightarrow> bool" where
  "wf_query (AskBalance a u) = wf_address u"
| "wf_query (AskAllowance a ow sp) = (wf_address ow \<and> wf_address sp)"

text \<open>A checker with state: \<open>fresh s w\<close> says that what it remembers is true of the chain state
  \<open>w\<close>, \<open>answer s q w\<close> what the chain answers to a query.\<close>

locale balance_lookup =
  fixes fresh :: "'s \<Rightarrow> 'w \<Rightarrow> bool"
    and answer :: "'s \<Rightarrow> query \<Rightarrow> 'w \<Rightarrow> (err + int) go"
    and ask :: "query \<Rightarrow> 'w \<Rightarrow> 's \<Rightarrow> ((err + int) \<times> 's) go"
  assumes ask_answer: "fresh s w \<Longrightarrow> wf_query q \<Longrightarrow> go_map fst (ask q w s) = answer s q w"
    and ask_fresh: "fresh s w \<Longrightarrow> wf_query q \<Longrightarrow> ask q w s = Ret (r, t) \<Longrightarrow>
      fresh t w \<and> answer t = answer s"
begin

fun ask_all :: "query list \<Rightarrow> 'w \<Rightarrow> 's \<Rightarrow> ((err + int) list \<times> 's) go" where
  "ask_all [] w s = Ret ([], s)"
| "ask_all (q # qs) w s =
     go_bind (ask q w s) (\<lambda>(r, t). go_map (\<lambda>(rs, u). (r # rs, u)) (ask_all qs w t))"

text \<open>Any number of lookups, in any order, are answered as the chain answers each one.\<close>

lemma ask_all_answers:
  "fresh s w \<Longrightarrow> list_all wf_query qs \<Longrightarrow> ask_all qs w s = Ret (rs, t) \<Longrightarrow>
     map Ret rs = map (\<lambda>q. answer s q w) qs \<and> fresh t w \<and> answer t = answer s"
proof (induction qs arbitrary: s rs)
  case Nil
  then show ?case by simp
next
  case (Cons q qs)
  then obtain r u rs' where q: "ask q w s = Ret (r, u)" and qs: "ask_all qs w u = Ret (rs', t)"
    and rs: "rs = r # rs'"
    by (auto simp: go_simps)
  have u: "fresh u w" "answer u = answer s" using ask_fresh [OF Cons.prems(1) _ q] Cons.prems(2) by auto
  moreover have "answer s q w = Ret r"
    using ask_answer [OF Cons.prems(1), of q] q Cons.prems(2) by simp
  ultimately show ?case using Cons.IH [OF u(1) _ qs] Cons.prems(2) rs by simp
qed

end

section \<open>The routing checker is one\<close>

fun routing_ask :: "query \<Rightarrow> 'w \<Rightarrow> 'w routing \<Rightarrow> ((err + int) \<times> 'w routing) go" where
  "routing_ask (AskBalance a u) w funds = routing_GetBalance a u w funds"
| "routing_ask (AskAllowance a ow sp) w funds = routing_GetAllowance a ow sp w funds"

text \<open>The asset's checker, asked without a cache.\<close>

fun uncached :: "'w routing \<Rightarrow> query \<Rightarrow> 'w \<Rightarrow> (err + int) go" where
  "uncached funds (AskBalance a u) w = routed a (\<lambda>ch. GetBalance ch a u w) funds"
| "uncached funds (AskAllowance a ow sp) w = routed a (\<lambda>ch. GetAllowance ch a ow sp w) funds"

fun query_key :: "query \<Rightarrow> string" where
  "query_key (AskBalance a u) = balance_key a u"
| "query_key (AskAllowance a ow sp) = allowance_key a ow sp"

definition cache_fresh :: "'w routing \<Rightarrow> 'w \<Rightarrow> bool" where
  "cache_fresh funds w \<longleftrightarrow>
     (\<forall>cache q v. lookupCache funds = Some cache \<longrightarrow> wf_query q \<longrightarrow> cache (query_key q) = Some v \<longrightarrow>
        uncached funds q w = Ret (Inr v))"

lemma from_hex_dash: "from_hex_char CHR ''-'' = None"
  by (simp add: from_hex_char_def of_char_def)

lemma hex_digit_no_dash: "n < 16 \<Longrightarrow> hex_digit n \<noteq> CHR ''-''"
  using from_hex_hex_digit [of n] from_hex_dash by (metis option.distinct(1))

lemma hex_encode_no_dash: "CHR ''-'' \<notin> set (hex_encode bs)"
  by (induction bs) (auto simp: hex_digit_no_dash [symmetric] hex_digit_no_dash)

lemma sprintf_hex_no_dash: "CHR ''-'' \<notin> set (sprintf_hex bs)"
  using hex_encode_no_dash by (auto simp: sprintf_hex_def)

lemma sprintf_hex_inj: "sprintf_hex a = sprintf_hex b \<longleftrightarrow> a = b"
  by (metis HexStringToBytes_sprintf_hex sum.inject(2))

lemma append_sep_inj:
  "c \<notin> set x \<Longrightarrow> c \<notin> set x' \<Longrightarrow> x @ c # y = x' @ c # y' \<longleftrightarrow> x = x' \<and> y = y'"
proof (induction x arbitrary: x')
  case Nil
  then show ?case by (cases x') auto
next
  case (Cons a x)
  then show ?case by (cases x') auto
qed

lemma query_key_inj: "query_key p = query_key q \<longleftrightarrow> p = q"
  by (cases p; cases q)
     (auto simp: balance_key_def allowance_key_def append_sep_inj sprintf_hex_no_dash sprintf_hex_inj)

lemma uncached_cache [simp]: "uncached (funds\<lparr>lookupCache := c\<rparr>) = uncached funds"
proof (intro ext)
  fix q w
  show "uncached (funds\<lparr>lookupCache := c\<rparr>) q w = uncached funds q w"
    by (cases q) (simp_all add: routed_def)
qed

lemma routing_ask_cached:
  "wf_query q \<Longrightarrow> routing_ask q w funds = cached (query_key q) (uncached funds q w) funds"
  by (cases q) (simp_all add: routing_GetBalance_def routing_GetAllowance_def wf_address_def)

interpretation routing: balance_lookup cache_fresh uncached routing_ask
proof
  fix funds :: "'w routing" and w q r t
  assume f: "cache_fresh funds w" and q: "wf_query q"
  show "go_map fst (routing_ask q w funds) = uncached funds q w"
  proof (cases "lookupCache funds")
    case None
    then show ?thesis
      by (cases "uncached funds q w") (simp_all add: routing_ask_cached [OF q] cached_def)
  next
    case (Some cache)
    show ?thesis
    proof (cases "cache (query_key q)")
      case None
      with Some show ?thesis
        by (cases "uncached funds q w") (simp_all add: routing_ask_cached [OF q] cached_def)
    next
      case (Some v)
      with \<open>lookupCache funds = Some cache\<close> f q have "uncached funds q w = Ret (Inr v)"
        unfolding cache_fresh_def by blast
      with Some \<open>lookupCache funds = Some cache\<close> show ?thesis
        by (simp add: routing_ask_cached [OF q] cached_def)
    qed
  qed
  assume r: "routing_ask q w funds = Ret (r, t)"
  show "cache_fresh t w \<and> uncached t = uncached funds"
  proof (cases "t = funds")
    case True
    with f show ?thesis by simp
  next
    case False
    with r q obtain cache v where c: "lookupCache funds = Some cache"
      and v: "uncached funds q w = Ret (Inr v)"
      and t: "t = funds\<lparr>lookupCache := Some (cache(query_key q \<mapsto> v))\<rparr>"
      by (auto simp: routing_ask_cached [OF q] cached_def go_simps split: option.splits sum.splits)
    have "cache_fresh t w"
      unfolding cache_fresh_def
    proof (intro allI impI)
      fix cache' p x
      assume "lookupCache t = Some cache'" "wf_query p" "cache' (query_key p) = Some x"
      with t c f v show "uncached t p w = Ret (Inr x)"
        by (cases "p = q") (auto simp: query_key_inj cache_fresh_def)
    qed
    with t show ?thesis by simp
  qed
qed


definition sample_rpc :: "nat token_rpc" where
  "sample_rpc =
     \<lparr>BalanceOf = (\<lambda>t u w. Inr (int w)), Allowance = (\<lambda>t ow sp w. Inr (int w)),
      OwnerOf = (\<lambda>t n w. Inl ''none''), IsApprovedForAll = (\<lambda>t ow sp w. Inr True),
      GetApproved = (\<lambda>t n w. Inl ''none''), NewToken = (\<lambda>t w. None)\<rparr>"

definition sample_routing :: "nat routing" where
  "sample_routing = (NewRpcRoutingBalanceChecker sample_rpc)\<lparr>lookupCache := Some Map.empty\<rparr>"

lemma sample_ask:
  "routing_ask (AskBalance (MakerAssetData sample_order) zero_address) 7 sample_routing =
     Ret (Inr 7, sample_routing\<lparr>lookupCache :=
       Some [balance_key (MakerAssetData sample_order) zero_address \<mapsto> 7]\<rparr>)"
proof -
  have "sprintf_hex ERC20ProxyID = ''0xf47261b0''"
    by (simp add: sprintf_hex_def hex_encode_def hex_digit_def ERC20ProxyID_def char_of_def bit_0)
  then have "routed (MakerAssetData sample_order) (\<lambda>ch. GetBalance ch (MakerAssetData sample_order)
      zero_address 7) sample_routing = Ret (Inr 7)"
    using sample_order_assets
    by (simp add: routed_def ProxyId_def sample_order_def ERC20ProxyID_def go_slice_def
        sample_routing_def NewRpcRoutingBalanceChecker_def rpc_checkers_def erc20_GetBalance_def
        sample_rpc_def)
  then show ?thesis
    by (simp add: routing_GetBalance_def cached_def sample_routing_def)
qed


end
