(* ===== verification/FundChecks.thy ===== *)
theory FundChecks
  imports Signatures Balances Config
begin

text \<open>
  The checks of orders against the chain (\<open>funds/\<close>): whether the maker can fill the order
  (\<open>order_validate.go\<close>), whether it was cancelled up to its salt (\<open>cancellation_update.go\<close>), how
  much of it is filled (\<open>filled_update.go\<close>), and the consumers that pass orders on with that
  information (\<open>cancellation_consumer.go\<close>, \<open>filled_consumer.go\<close>).
\<close>

section \<open>Remaining amounts\<close>

definition getRemainingAmount :: "bytes \<Rightarrow> bytes \<Rightarrow> bytes \<Rightarrow> bytes" where
  "getRemainingAmount numerator denominator target =
     (let numInt = int (be_nat numerator);
          denomInt = int (be_nat denominator);
          targetInt = int (be_nat target)
      in if denomInt = 0 then [0]
         else min_bytes (nat \<bar>targetInt - (numInt * targetInt) div denomInt\<bar>))"

text \<open>What remains of an amount of which \<open>num\<close> of \<open>denom\<close> parts are taken: nothing of an order
  whose taker amount is 0; else the amount less its taken share, rounded up: all of it while
  nothing is taken, nothing when all is, in between never more than the amount, and less the more
  is taken.\<close>

lemma getRemainingAmount_bounds:
  assumes "be_nat num \<le> be_nat num'" and "be_nat num' \<le> be_nat denom" and "be_nat denom \<noteq> 0"
  shows "be_nat (getRemainingAmount num' denom target) \<le> be_nat (getRemainingAmount num denom target) \<and>
    be_nat (getRemainingAmount num denom target) \<le> be_nat target \<and>
    be_nat (getRemainingAmount denom denom target) = 0 \<and>
    be_nat (getRemainingAmount [] denom target) = be_nat target \<and>
    be_nat (getRemainingAmount num' denom target) * be_nat denom
      \<ge> (be_nat denom - be_nat num') * be_nat target"
proof -
  let ?n = "be_nat num" and ?n' = "be_nat num'" and ?d = "be_nat denom" and ?t = "be_nat target"
  have r: "be_nat (getRemainingAmount bs denom target) = ?t - be_nat bs * ?t div ?d"
    if "be_nat bs \<le> ?d" for bs
  proof -
    have "be_nat bs * ?t \<le> ?d * ?t" using that by (rule mult_right_mono) simp
    then have "be_nat bs * ?t div ?d \<le> ?t" using assms(3)
      by (metis div_le_mono div_mult_self1_is_m neq0_conv)
    then have "nat \<bar>int ?t - int (be_nat bs) * int ?t div int ?d\<bar> = ?t - be_nat bs * ?t div ?d"
      by (simp flip: of_nat_mult zdiv_int)
    then show ?thesis using assms(3) by (simp add: getRemainingAmount_def Let_def)
  qed
  have "?n * ?t div ?d \<le> ?n' * ?t div ?d" using assms(1) by (intro div_le_mono mult_right_mono) auto
  moreover have "(?d - ?n') * ?t \<le> (?t - ?n' * ?t div ?d) * ?d"
  proof -
    have "?n' * ?t div ?d * ?d \<le> ?n' * ?t" by (simp add: div_times_less_eq_dividend)
    then have "?d * ?t - ?n' * ?t \<le> ?d * ?t - ?n' * ?t div ?d * ?d" by (rule diff_le_mono2)
    then show ?thesis unfolding diff_mult_distrib mult.commute [of ?t ?d] .
  qed
  ultimately show ?thesis using assms by (simp add: r)
qed

text \<open>More taken than there was: the difference is read as an amount again.\<close>

lemma getRemainingAmount_overfilled:
  "be_nat (getRemainingAmount [8] [4] [10]) = 10"
  by (simp add: getRemainingAmount_def)

section \<open>The order validator\<close>

record 'w validator =
  balanceChecker :: "'w checker"
  feeToken :: "order \<Rightarrow> 'w \<Rightarrow> (err + asset_data) go"
  tokenProxy :: "order \<Rightarrow> 'w \<Rightarrow> (err + address) go"
  tokenProxyById :: "order \<Rightarrow> bytes \<Rightarrow> 'w \<Rightarrow> (err + address) go"

type_synonym bool_or_err = "bool \<times> err option"

text \<open>A lookup is skipped when nothing is required; the log line of an error slices the user's
  address.\<close>

definition check_required :: "bytes \<Rightarrow> address \<Rightarrow> (err + int) go \<Rightarrow> bool_or_err go" where
  "check_required required user lookup =
     (let requiredInt = int (be_nat required) in
      if requiredInt = 0 then Ret (True, None)
      else go_bind lookup (\<lambda>r.
             case r of
               Inl e \<Rightarrow> go_map (\<lambda>_. (False, Some e)) (deref user)
             | Inr balance \<Rightarrow> Ret (requiredInt \<le> balance, None)))"

definition checkBalance :: "'w validator \<Rightarrow> 'w \<Rightarrow> asset_data \<Rightarrow> address \<Rightarrow> bytes \<Rightarrow> bool_or_err go" where
  "checkBalance funds w assetData user required =
     check_required required user (GetBalance (balanceChecker funds) assetData user w)"

definition checkAllowance ::
  "'w validator \<Rightarrow> 'w \<Rightarrow> asset_data \<Rightarrow> address \<Rightarrow> address \<Rightarrow> bytes \<Rightarrow> bool_or_err go"
where
  "checkAllowance funds w assetData user proxy required =
     check_required required user (GetAllowance (balanceChecker funds) assetData user proxy w)"

definition no_contract :: err where
  "no_contract = ''no contract code at given address''"

text \<open>The results are received in a fixed order, whatever order the four goroutines end in; an early
  return leaves the later ones unread.\<close>

fun collect_results :: "bool_or_err list \<Rightarrow> bool \<Rightarrow> bool_or_err go" where
  "collect_results [] result = Ret (result, None)"
| "collect_results ((True, e) # rs) result = collect_results rs result"
| "collect_results ((False, None) # rs) result = collect_results rs False"
| "collect_results ((False, Some e) # rs) result =
     (if e = no_contract then Ret (False, Some e)
      else Panic (Panicked (''RPC Communication Failed: '' @ e)))"

definition ValidateOrder :: "'w validator \<Rightarrow> order \<Rightarrow> 'w \<Rightarrow> bool_or_err go" where
  "ValidateOrder funds ord w =
     go_bind (feeToken funds ord w) (\<lambda>ft.
     case ft of Inl e \<Rightarrow> Ret (False, Some e) | Inr fee \<Rightarrow>
     go_bind (tokenProxy funds ord w) (\<lambda>mp.
     case mp of Inl e \<Rightarrow> Ret (False, Some e) | Inr makerProxy \<Rightarrow>
     go_bind (tokenProxyById funds ord ERC20ProxyID w) (\<lambda>fp.
     case fp of Inl e \<Rightarrow> Ret (False, Some e) | Inr feeProxy \<Rightarrow>
     go_bind (Uint256_Big (TakerAssetAmountFilled ord)) (\<lambda>unavailable.
     go_bind (deref (TakerAssetAmount ord)) (\<lambda>taker.
     go_bind (deref (MakerAssetAmount ord)) (\<lambda>maker.
     go_bind (deref (MakerFee ord)) (\<lambda>makerFee.
       let remaining = getRemainingAmount (min_bytes (nat unavailable)) taker in
       go_bind (checkBalance funds w (MakerAssetData ord) (Maker ord) (remaining maker)) (\<lambda>r1.
       go_bind (checkBalance funds w fee (Maker ord) (remaining makerFee)) (\<lambda>r2.
       go_bind (checkAllowance funds w (MakerAssetData ord) (Maker ord) makerProxy (remaining maker))
         (\<lambda>r3.
       go_bind (checkAllowance funds w fee (Maker ord) feeProxy (remaining makerFee)) (\<lambda>r4.
         collect_results [r1, r2, r3, r4] True)))))))))))"

definition remaining_of :: "order \<Rightarrow> uint256 \<Rightarrow> nat" where
  "remaining_of ord amount =
     be_nat (getRemainingAmount (TakerAssetAmountFilled ord) (TakerAssetAmount ord) amount)"

lemma remaining_min_bytes:
  "getRemainingAmount (min_bytes (be_nat num)) = getRemainingAmount num"
  by (intro ext) (simp add: getRemainingAmount_def)

text \<open>What the chain holds for the maker of an order, when every lookup has an answer.\<close>

definition maker_funds ::
  "'w validator \<Rightarrow> order \<Rightarrow> 'w \<Rightarrow> asset_data \<Rightarrow> address \<Rightarrow> address
     \<Rightarrow> int \<Rightarrow> int \<Rightarrow> int \<Rightarrow> int \<Rightarrow> bool"
where
  "maker_funds funds ord w fee makerProxy feeProxy b1 b2 a1 a2 \<longleftrightarrow>
     feeToken funds ord w = Ret (Inr fee) \<and>
     tokenProxy funds ord w = Ret (Inr makerProxy) \<and>
     tokenProxyById funds ord ERC20ProxyID w = Ret (Inr feeProxy) \<and>
     GetBalance (balanceChecker funds) (MakerAssetData ord) (Maker ord) w = Ret (Inr b1) \<and>
     GetBalance (balanceChecker funds) fee (Maker ord) w = Ret (Inr b2) \<and>
     GetAllowance (balanceChecker funds) (MakerAssetData ord) (Maker ord) makerProxy w = Ret (Inr a1) \<and>
     GetAllowance (balanceChecker funds) fee (Maker ord) feeProxy w = Ret (Inr a2)"

lemma check_required_Inr:
  "lookup = Ret (Inr b) \<Longrightarrow> 0 \<le> b \<Longrightarrow>
     check_required required user lookup = Ret (int (be_nat required) \<le> b, None)"
  by (simp add: check_required_def)

lemma collect_results_no_err:
  "\<forall>r \<in> set rs. snd r = None \<Longrightarrow>
     collect_results rs result = Ret (result \<and> list_all fst rs, None)"
  by (induction rs result rule: collect_results.induct) auto

lemma ValidateOrder_funds:
  assumes wf: "wf_order ord"
    and f: "maker_funds funds ord w fee makerProxy feeProxy b1 b2 a1 a2"
    and nn: "0 \<le> b1" "0 \<le> b2" "0 \<le> a1" "0 \<le> a2"
  shows "ValidateOrder funds ord w = Ret (
    int (remaining_of ord (MakerAssetAmount ord)) \<le> b1 \<and>
    int (remaining_of ord (MakerFee ord)) \<le> b2 \<and>
    int (remaining_of ord (MakerAssetAmount ord)) \<le> a1 \<and>
    int (remaining_of ord (MakerFee ord)) \<le> a2, None)"
proof -
  have "deref (TakerAssetAmountFilled ord) = Ret (TakerAssetAmountFilled ord)"
    "deref (TakerAssetAmount ord) = Ret (TakerAssetAmount ord)"
    "deref (MakerAssetAmount ord) = Ret (MakerAssetAmount ord)"
    "deref (MakerFee ord) = Ret (MakerFee ord)"
    using wf by (simp_all add: wf_order_def wf_uint256_def)
  then show ?thesis
    using f nn
    by (simp add: ValidateOrder_def maker_funds_def Uint256_Big_def remaining_min_bytes
        checkBalance_def checkAllowance_def check_required_Inr Let_def collect_results_no_err
        remaining_of_def)
qed


definition sample_validator :: "nat validator" where
  "sample_validator =
     \<lparr>balanceChecker = \<lparr>GetBalance = (\<lambda>a u w. Ret (Inr (int w))),
        GetAllowance = (\<lambda>a u p w. Ret (Inr (int w)))\<rparr>,
      feeToken = (\<lambda>ord w. Ret (Inr (MakerAssetData ord))),
      tokenProxy = (\<lambda>ord w. Ret (Inr zero_address)),
      tokenProxyById = (\<lambda>ord p w. Ret (Inr zero_address))\<rparr>"


end
