(* ===== verification/FundConsumers.thy ===== *)
theory FundConsumers
  imports FundChecks Deliveries OrderIndex
begin

text \<open>
  The lookups of an order's cancellation and filled amount and the consumers that attach them to
  the orders passing through (\<open>funds/cancellation_update.go\<close>, \<open>filled_update.go\<close>,
  \<open>cancellation_consumer.go\<close>, \<open>filled_consumer.go\<close>). A lookup reads the state \<open>'v\<close> of the database
  or the chain at that moment.
\<close>

section \<open>Lookups\<close>

type_synonym 'v cancelled_fn = "order \<Rightarrow> 'v \<Rightarrow> (bool \<times> err option) go"
type_synonym 'v filled_fn = "order \<Rightarrow> 'v \<Rightarrow> (uint256 \<times> err option) go"

text \<open>The first cancellation row of a maker and sender, or the error of the query.\<close>

type_synonym 'v cancellation_query = "address \<Rightarrow> address \<Rightarrow> 'v \<Rightarrow> err + cancellation_row"

definition record_not_found :: err where "record_not_found = ''record not found''"

definition db_GetCancelled :: "'v cancellation_query \<Rightarrow> 'v cancelled_fn" where
  "db_GetCancelled First ord v =
     (if Cancelled ord then Ret (True, None)
      else go_bind (deref (Maker ord)) (\<lambda>maker.
           go_bind (deref (SenderAddress ord)) (\<lambda>sender.
           case First maker sender v of
             Inl e \<Rightarrow> if e = record_not_found then Ret (False, None) else Ret (True, Some e)
           | Inr c \<Rightarrow>
               if cr_Epoch c = [] then Ret (False, None)
               else go_map (\<lambda>salt. (bytes_compare salt (cr_Epoch c) < 0, None)) (deref (Salt ord)))))"

definition mock_GetCancelled :: "bool \<Rightarrow> 'v cancelled_fn" where
  "mock_GetCancelled cancelled ord v = Ret (cancelled, None)"

text \<open>An order is cancelled exactly when it was marked so, or the maker has cancelled up to an
  epoch for this sender and the order's salt, as a number, is below it.\<close>

lemma db_GetCancelled_iff:
  assumes wf: "wf_order ord" and q: "First (Maker ord) (SenderAddress ord) v = Inr c"
    and e: "length (cr_Epoch c) = 32"
  shows "db_GetCancelled First ord v =
    Ret (Cancelled ord \<or> be_nat (Salt ord) < be_nat (cr_Epoch c), None)"
proof -
  have l: "deref (Maker ord) = Ret (Maker ord)" "deref (SenderAddress ord) = Ret (SenderAddress ord)"
    "deref (Salt ord) = Ret (Salt ord)" "length (Salt ord) = 32"
    using wf by (simp_all add: wf_order_def wf_address_def wf_uint256_def)
  have "bytes_compare (Salt ord) (cr_Epoch c) < 0 \<longleftrightarrow> be_nat (Salt ord) < be_nat (cr_Epoch c)"
    using l e by (intro bytes_compare_less) simp
  with l q e show ?thesis by (auto simp: db_GetCancelled_def)
qed

definition sample_epoch :: cancellation_row where
  "sample_epoch = \<lparr>cr_Maker = Maker sample_order, cr_Sender = zero_address, cr_Epoch = zero_bytes 31 @ [6]\<rparr>"

text \<open>The bloom filter of the filled orders: absent until it is initialised.\<close>

type_synonym bloom_test = "(bytes \<Rightarrow> bool) option"

definition rpc_GetCancelled :: "crypto \<Rightarrow> 'v exchange_rpc \<Rightarrow> bloom_test \<Rightarrow> 'v cancelled_fn" where
  "rpc_GetCancelled C rpc bloom ord v =
     go_bind (case bloom of None \<Rightarrow> Ret True | Some test \<Rightarrow> go_map test (Order_Hash C ord)) (\<lambda>maybe.
       if \<not> maybe then Ret (False, None)
       else go_bind (deref (ExchangeAddress ord)) (\<lambda>exchange.
         case NewExchange rpc exchange v of
           Some e \<Rightarrow> Ret (False, Some e)
         | None \<Rightarrow>
             go_bind (Order_Hash C ord) (\<lambda>h.
             case ExchangeCancelled rpc exchange (go_copy (zero_bytes 32) h) v of
               Inl e \<Rightarrow> Ret (False, Some e)
             | Inr b \<Rightarrow> Ret (b, None))))"

definition LeftPadBytes :: "bytes \<Rightarrow> nat \<Rightarrow> bytes" where
  "LeftPadBytes b l = (if l \<le> length b then b else zero_bytes (l - length b) @ b)"

definition rpc_GetAmountFilled :: "crypto \<Rightarrow> 'v exchange_rpc \<Rightarrow> bloom_test \<Rightarrow> 'v filled_fn" where
  "rpc_GetAmountFilled C rpc bloom ord v =
     go_bind (case bloom of None \<Rightarrow> Ret True | Some test \<Rightarrow> go_map test (Order_Hash C ord)) (\<lambda>maybe.
       if \<not> maybe then Ret (zero_uint256, None)
       else go_bind (deref (ExchangeAddress ord)) (\<lambda>exchange.
         case NewExchange rpc exchange v of
           Some e \<Rightarrow> Ret (zero_uint256, Some e)
         | None \<Rightarrow>
             go_bind (Order_Hash C ord) (\<lambda>h.
             case ExchangeFilled rpc exchange (go_copy (zero_bytes 32) h) v of
               Inl e \<Rightarrow> Ret (zero_uint256, Some e)
             | Inr amount \<Rightarrow>
                 Ret (go_copy zero_uint256 (LeftPadBytes (min_bytes (nat \<bar>amount\<bar>)) 32), None))))"

definition mock_GetAmountFilled :: "int \<Rightarrow> err option \<Rightarrow> 'v filled_fn" where
  "mock_GetAmountFilled filled e ord v =
     (case e of
        Some x \<Rightarrow> Ret (zero_uint256, Some x)
      | None \<Rightarrow> Ret (go_copy zero_uint256 (LeftPadBytes (min_bytes (nat \<bar>filled\<bar>)) 32), None))"

lemma LeftPad_be_nat: "be_nat (LeftPadBytes b l) = be_nat b"
proof -
  have "be_nat (zero_bytes n @ b) = be_nat b" for n
    by (induction n) (simp_all add: zero_bytes_def be_nat_Cons)
  then show ?thesis by (simp add: LeftPadBytes_def)
qed

lemma LeftPad_amount:
  assumes "0 \<le> n" and "n < 2 ^ 256"
  shows "be_nat (go_copy zero_uint256 (LeftPadBytes (min_bytes (nat \<bar>n\<bar>)) 32)) = nat n"
proof -
  have "nat \<bar>n\<bar> < 256 ^ 32" using assms by (simp add: nat_less_iff)
  then have "length (min_bytes (nat \<bar>n\<bar>)) \<le> 32" by (rule length_min_bytes_le)
  then have "length (LeftPadBytes (min_bytes (nat \<bar>n\<bar>)) 32) = 32"
    by (auto simp: LeftPadBytes_def)
  then show ?thesis using assms by (simp add: LeftPad_be_nat)
qed

text \<open>The filled amount of an order is the number the exchange holds for its hash, as a 256-bit
  word, unless the bloom filter of fills rules the order out, when it is zero without asking.\<close>

lemma rpc_GetAmountFilled_value:
  assumes wf: "wf_order ord" and h: "Order_Hash C ord = Ret h" "length h = 32"
    and x: "NewExchange rpc (ExchangeAddress ord) v = None"
    and f: "ExchangeFilled rpc (ExchangeAddress ord) h v = Inr n" "0 \<le> n" "n < 2 ^ 256"
  shows "\<exists>val. rpc_GetAmountFilled C rpc bloom ord v = Ret (val, None) \<and> length val = 32 \<and>
    be_nat val = (case bloom of None \<Rightarrow> nat n | Some test \<Rightarrow> if test h then nat n else 0)"
proof -
  have d: "deref (ExchangeAddress ord) = Ret (ExchangeAddress ord)"
    using wf by (simp add: wf_order_def wf_address_def)
  have z: "be_nat zero_uint256 = 0"
    by (simp add: zero_uint256_def zero_bytes_def be_nat_def numeral_eq_Suc)
  show ?thesis
    using d h x f LeftPad_amount [OF f(2,3)]
    by (auto simp: rpc_GetAmountFilled_def z split: option.splits)
qed

definition sample_exchange :: "nat exchange_rpc" where
  "sample_exchange =
     \<lparr>NewExchange = (\<lambda>x v. None), ZRX_ASSET_DATA = (\<lambda>x v. Inr []), GetAssetProxy = (\<lambda>x p v. Inr zero_address),
      ExchangeCancelled = (\<lambda>x h v. Inr False), ExchangeFilled = (\<lambda>x h v. Inr (int v))\<rparr>"

section \<open>The consumers\<close>

text \<open>A consumer's publishers, deliveries and lookups share the world \<open>'v\<close>. \<open>nil\<close> stands for no
  change publisher.\<close>

definition publish_opt :: "'v publisher option \<Rightarrow> string \<Rightarrow> 'v \<Rightarrow> 'v" where
  "publish_opt p payload v = (case p of None \<Rightarrow> v | Some f \<Rightarrow> snd (f payload v))"

definition order_payload :: "order \<Rightarrow> string" where
  "order_payload ord = string_of_bytes (Order_Bytes ord)"

definition order_of_payload :: "string \<Rightarrow> order \<times> rlp_err option" where
  "order_of_payload payload = OrderFromBytes (bytes_of_string payload)"

lemma order_of_order_payload: "sized_order ord \<Longrightarrow> order_of_payload (order_payload ord) = (ord, None)"
  by (simp add: order_of_payload_def order_payload_def OrderFromBytes_Bytes)

lemma order_of_payload_wf: "order_of_payload p = (ord, None) \<Longrightarrow> wf_order ord"
  by (simp add: order_of_payload_def OrderFromBytes_wf)

definition CancellationConsumer_Consume ::
  "crypto \<Rightarrow> 'v publisher \<Rightarrow> 'v publisher option \<Rightarrow> 'v cancelled_fn \<Rightarrow> 'v delivery \<Rightarrow> 'v \<Rightarrow> 'v go"
where
  "CancellationConsumer_Consume C allPublisher changePublisher lookup msg v =
     (case order_of_payload (Payload msg) of
        (ord, Some e) \<Rightarrow> Ret (snd (Reject msg v))
      | (ord, None) \<Rightarrow>
          go_bind (lookup ord v) (\<lambda>(cancelled, e).
            case e of
              Some x \<Rightarrow> Ret (snd (Reject msg v))
            | None \<Rightarrow>
                let new = ord\<lparr>Cancelled := cancelled\<rparr> in
                go_bind (Order_Hash C new) (\<lambda>_.
                  let payload = order_payload new;
                      v1 = (if Cancelled ord \<noteq> cancelled then publish_opt changePublisher payload v else v);
                      v2 = snd (allPublisher payload v1)
                  in Ret (snd (Ack msg v2)))))"

text \<open>\<open>doLookup\<close> and \<open>doLookupBoolean\<close>: the value and whether it changed; the old value when the
  lookup failed.\<close>

definition doLookup :: "'a \<Rightarrow> ('a \<times> err option) go \<Rightarrow> ('a \<times> bool) go" where
  "doLookup oldValue lookup =
     go_map (\<lambda>(value, e). let value = (if e = None then value else oldValue)
                           in (value, value \<noteq> oldValue)) lookup"

text \<open>Both lookups run at once and are received in turn; the changes are two booleans of which the
  order does not matter. A payload that does not parse is rejected, but the function goes on with
  what was parsed.\<close>

definition FillConsumer_Consume ::
  "'v publisher \<Rightarrow> 'v publisher option \<Rightarrow> 'v cancelled_fn \<Rightarrow> 'v filled_fn \<Rightarrow> 'v delivery \<Rightarrow> 'v \<Rightarrow> 'v go"
where
  "FillConsumer_Consume allPublisher changePublisher GetCancelled GetAmountFilled msg v =
     (case order_of_payload (Payload msg) of (ord, e) \<Rightarrow>
        let v0 = (if e = None then v else snd (Reject msg v)) in
        go_bind (doLookup (Cancelled ord) (GetCancelled ord v0)) (\<lambda>(cancelled, change1).
        go_bind (doLookup (TakerAssetAmountFilled ord) (GetAmountFilled ord v0)) (\<lambda>(filled, change2).
          let new = ord\<lparr>Cancelled := cancelled \<or> Cancelled ord, TakerAssetAmountFilled := filled\<rparr>;
              payload = order_payload new;
              v1 = (if change1 \<or> change2 then publish_opt changePublisher payload v0 else v0);
              v2 = snd (allPublisher payload v1)
          in Ret (snd (Ack msg v2)))))"

section \<open>What they do to a delivery\<close>

lemma sized_order_cancelled [simp]: "sized_order (ord\<lparr>Cancelled := b\<rparr>) = sized_order ord"
  by (simp add: sized_order_def wf_order_def)

definition watched_cancellation ::
  "crypto \<Rightarrow> trace cancellation_query \<Rightarrow> trace delivery \<Rightarrow> trace \<Rightarrow> trace go"
where
  "watched_cancellation C First =
     CancellationConsumer_Consume C (trace_publisher 0) (Some (trace_publisher 1)) (db_GetCancelled First)"

lemma db_GetCancelled_returns:
  "wf_order ord \<Longrightarrow> \<exists>b e. db_GetCancelled First ord v = Ret (b, e)"
  by (auto simp: db_GetCancelled_def wf_order_def wf_address_def wf_uint256_def split: sum.splits)

interpretation cancellation: settling_consumer "watched_cancellation C First"
  for C First
proof
  fix p t
  obtain ord e where o: "order_of_payload p = (ord, e)" by (cases "order_of_payload p")
  show "\<exists>es. watched_cancellation C First (trace_delivery p) t = Ret (t @ es) \<and> settle_count es = 1"
  proof (cases e)
    case (Some x)
    with o show ?thesis by (simp add: watched_cancellation_def CancellationConsumer_Consume_def)
  next
    case None
    with o have wf: "wf_order ord" by (simp add: order_of_payload_wf)
    obtain b e' where l: "db_GetCancelled First ord t = Ret (b, e')"
      using db_GetCancelled_returns [OF wf, of First t] by auto
    have "wf_order (ord\<lparr>Cancelled := b\<rparr>)" using wf by (simp add: wf_order_def)
    then show ?thesis using o None l
      by (cases e') (auto simp: watched_cancellation_def CancellationConsumer_Consume_def Order_Hash_wf
          Let_def publish_opt_def trace_publisher_def)
  qed
qed

text \<open>Whatever messages reach it, the cancellation consumer over the database never panics and
  settles each delivery exactly once.\<close>

lemma cancellation_consumer_settles:
  "\<exists>es. consume_batch (watched_cancellation C First) payloads t = Ret (t @ es) \<and>
     settle_count es = length payloads"
  by (rule cancellation.batch_settles)

text \<open>An order that reaches the cancellation consumer is passed on with the flag of the lookup,
  and to the change publisher exactly when the flag changed, before it is acknowledged; when the
  lookup fails it is rejected and nothing is published.\<close>

lemma cancellation_consumer_passes_on:
  assumes "sized_order ord" and "db_GetCancelled First ord t = Ret (b, e)"
  shows "watched_cancellation C First (trace_delivery (order_payload ord)) t = Ret (t @
    (if e \<noteq> None then [Rejected]
     else (if b \<noteq> Cancelled ord then [Published 1 (order_payload (ord\<lparr>Cancelled := b\<rparr>))] else []) @
       [Published 0 (order_payload (ord\<lparr>Cancelled := b\<rparr>)), Acked]))"
proof -
  have "wf_order (ord\<lparr>Cancelled := b\<rparr>)" using assms(1) by (simp add: sized_order_def wf_order_def)
  then show ?thesis using assms
    by (cases e) (auto simp: watched_cancellation_def CancellationConsumer_Consume_def
        order_of_order_payload Order_Hash_wf Let_def publish_opt_def trace_publisher_def)
qed

text \<open>An order that reaches the fill consumer is passed on with the filled amount found (the old
  one when that lookup fails) and stays cancelled once it was; the change publisher gets it
  exactly when one of the two values found differs from the order's.\<close>

lemma fill_consumer_passes_on:
  assumes "sized_order ord" and c: "GetCancelled ord t = Ret (b, e1)"
    and f: "GetAmountFilled ord t = Ret (n, e2)"
    and new: "new = ord\<lparr>Cancelled := (e1 = None \<and> b) \<or> Cancelled ord,
      TakerAssetAmountFilled := if e2 = None then n else TakerAssetAmountFilled ord\<rparr>"
  shows "FillConsumer_Consume (trace_publisher 0) (Some (trace_publisher 1)) GetCancelled GetAmountFilled
      (trace_delivery (order_payload ord)) t = Ret (t @
    (if e1 = None \<and> b \<noteq> Cancelled ord \<or> e2 = None \<and> n \<noteq> TakerAssetAmountFilled ord
     then [Published 1 (order_payload new)] else []) @ [Published 0 (order_payload new), Acked])"
proof (cases "e1 = None")
  case True
  then show ?thesis using assms
    by (auto simp: FillConsumer_Consume_def order_of_order_payload doLookup_def Let_def
        publish_opt_def trace_publisher_def)
next
  case False
  then show ?thesis using assms
    by (auto simp: FillConsumer_Consume_def order_of_order_payload doLookup_def Let_def
        publish_opt_def trace_publisher_def)
qed

text \<open>The fill consumer does not keep the contract: a payload that does not parse is rejected and
  then, with lookups that answer, also published and acknowledged.\<close>

lemma fill_consumer_settles_twice:
  assumes "order_of_payload p = (ord, Some x)"
  shows "\<exists>es. FillConsumer_Consume (trace_publisher 0) None (mock_GetCancelled False)
      (mock_GetAmountFilled 0 None) (trace_delivery p) t = Ret (t @ es) \<and> settle_count es = 2"
  using assms
  by (simp add: FillConsumer_Consume_def doLookup_def Let_def publish_opt_def trace_publisher_def
      mock_GetCancelled_def mock_GetAmountFilled_def)

end
