(* ===== verification/IndexConsumers.thy ===== *)
theory IndexConsumers
  imports OrderIndex FundConsumers
begin

text \<open>
  The consumers that feed the order table (\<open>db/index_consumer.go\<close>, \<open>record_fill_consumer.go\<close>,
  \<open>record_spend_consumer.go\<close>, \<open>cancellation_consumer.go\<close>) and the exchange lookup
  (\<open>db/exchange.go\<close>). The operations of the indexer act on the world \<open>'v\<close> the deliveries act on. The
  bodies run in goroutines of their own, outside the function with the \<open>recover\<close>, so a panic in one
  of them is one of the process.
\<close>

section \<open>Records as JSON\<close>

text \<open>The text of a token that is handed to a custom decoder; strings are those without escapes, and
  of arrays and objects only the opening bracket matters, which no decoder here takes.\<close>

definition json_raw :: "json \<Rightarrow> string" where
  "json_raw j =
     (case j of
        JNull \<Rightarrow> ''null''
      | JBool b \<Rightarrow> if b then ''true'' else ''false''
      | JNumber t \<Rightarrow> t
      | JString s \<Rightarrow> quoted s
      | JArray _ \<Rightarrow> ''[]''
      | JObject _ \<Rightarrow> ''{}'')"

definition fill_record_of_json :: "json \<Rightarrow> fill_record \<times> err option" where
  "fill_record_of_json j =
     (case json_struct [(''orderHash'', is_jstring), (''filledTakerAssetAmount'', is_jstring),
                        (''cancel'', is_jbool)] j of
        (st, e) \<Rightarrow>
          (\<lparr>fr_OrderHash = jstring (st ''orderHash''),
            fr_FilledTakerAssetAmount = jstring (st ''filledTakerAssetAmount''),
            fr_Cancel = jbool (st ''cancel'')\<rparr>, e))"

definition spend_record_keys :: "string list" where
  "spend_record_keys = [''tokenAddress'', ''assetData'', ''spenderAddress'', ''zrxToken'', ''balance'']"

text \<open>A cancellation: null makes a field nil, another value is decoded into a fresh array; the first
  error ends the decoding.\<close>

definition cancellation_member ::
  "string \<times> json \<Rightarrow> cancellation_row \<times> err option \<Rightarrow> (cancellation_row \<times> err option) go"
where
  "cancellation_member m s =
     (case s of
        (c, Some e) \<Rightarrow> Ret (c, Some e)
      | (c, None) \<Rightarrow>
          (case json_field [''Maker'', ''Sender'', ''Epoch''] (fst m) of
             None \<Rightarrow> Ret (c, None)
           | Some f \<Rightarrow>
               let v = snd m in
               if f = ''Epoch''
               then (if v = JNull then Ret (c\<lparr>cr_Epoch := []\<rparr>, None)
                     else (case Uint256_UnmarshalJSON (json_raw v) zero_uint256 of
                             Inl e \<Rightarrow> Ret (c, Some e)
                           | Inr n \<Rightarrow> Ret (c\<lparr>cr_Epoch := n\<rparr>, None)))
               else (let set = (\<lambda>a. if f = ''Maker'' then c\<lparr>cr_Maker := a\<rparr> else c\<lparr>cr_Sender := a\<rparr>) in
                     if v = JNull then Ret (set [], None)
                     else go_map (\<lambda>(a, e). (set a, e)) (Address_UnmarshalJSON (json_raw v) zero_address))))"

definition cancellation_of_json :: "json \<Rightarrow> (cancellation_row \<times> err option) go" where
  "cancellation_of_json j =
     (let c = \<lparr>cr_Maker = [], cr_Sender = [], cr_Epoch = []\<rparr> in
      case j of
        JNull \<Rightarrow> Ret (c, None)
      | JObject ms \<Rightarrow> go_fold cancellation_member ms (c, None)
      | _ \<Rightarrow> Ret (c, Some json_err_type))"

text \<open>What \<open>json.Marshal\<close> makes of one: a nil pointer is null.\<close>

definition json_of_cancellation :: "cancellation_row \<Rightarrow> json" where
  "json_of_cancellation c =
     (let addr = (\<lambda>a. if a = [] then JNull else JString (sprintf_hex a)) in
      JObject [(''Maker'', addr (cr_Maker c)), (''Sender'', addr (cr_Sender c)),
               (''Epoch'', if cr_Epoch c = [] then JNull else JString (big_String (int (be_nat (cr_Epoch c)))))])"

section \<open>The consumers\<close>

text \<open>\<open>parse\<close> is the text layer: the JSON value of a payload, or its syntax error.\<close>

type_synonym json_parse = "string \<Rightarrow> err + json"

definition settle :: "'v delivery \<Rightarrow> err option \<times> 'v \<Rightarrow> 'v" where
  "settle msg r = (case r of (None, v) \<Rightarrow> snd (Ack msg v) | (Some e, v) \<Rightarrow> snd (Reject msg v))"

definition IndexConsumer_Consume ::
  "crypto \<Rightarrow> (order \<Rightarrow> 'v \<Rightarrow> (err option \<times> 'v) go) \<Rightarrow> 'v delivery \<Rightarrow> 'v \<Rightarrow> 'v go"
where
  "IndexConsumer_Consume C index msg v =
     (case order_of_payload (Payload msg) of
        (ord, Some e) \<Rightarrow> Ret (snd (Reject msg v))
      | (ord, None) \<Rightarrow>
          go_bind (index ord v) (\<lambda>(e, v').
            case e of
              None \<Rightarrow> Ret (snd (Ack msg v'))
            | Some x \<Rightarrow> go_bind (Order_Hash C ord) (\<lambda>_. Ret (snd (Reject msg v')))))"

text \<open>The fill recorder does not look at the decoding error.\<close>

definition RecordFillConsumer_Consume ::
  "json_parse \<Rightarrow> (fill_record \<Rightarrow> 'v \<Rightarrow> (err option \<times> 'v) go) \<Rightarrow> 'v delivery \<Rightarrow> 'v \<Rightarrow> 'v go"
where
  "RecordFillConsumer_Consume parse record msg v =
     (let fillRecord = (case parse (Payload msg) of
                          Inl e \<Rightarrow> fst (fill_record_of_json JNull)
                        | Inr j \<Rightarrow> fst (fill_record_of_json j))
      in go_map (settle msg) (record fillRecord v))"

definition RecordSpendConsumer_Consume ::
  "json_parse \<Rightarrow> (address \<Rightarrow> address \<Rightarrow> address \<Rightarrow> asset_data \<Rightarrow> uint256 \<Rightarrow> 'v \<Rightarrow> (err option \<times> 'v) go)
     \<Rightarrow> 'v delivery \<Rightarrow> 'v \<Rightarrow> 'v go"
where
  "RecordSpendConsumer_Consume parse record msg v =
     (let parsed =
        try_bind (parse (Payload msg)) (\<lambda>j.
        try_bind (json_strings spend_record_keys j) (\<lambda>st.
        try_bind (HexToAddress (st ''spenderAddress'')) (\<lambda>spender.
        try_bind (HexToAddress (st ''tokenAddress'')) (\<lambda>token.
        try_bind (HexToAssetData (st ''assetData'')) (\<lambda>assetData.
        try_bind (HexToAddress (st ''zrxToken'')) (\<lambda>zrx.
          Inr (spender, token, zrx, assetData,
               (case IntStringToUint256 (st ''balance'') of Inl e \<Rightarrow> [] | Inr n \<Rightarrow> n))))))))
      in case parsed of
           Inl e \<Rightarrow> Ret (snd (Reject msg v))
         | Inr (spender, token, zrx, assetData, balance) \<Rightarrow>
             go_map (settle msg) (record spender token zrx assetData balance v))"

definition db_CancellationConsumer_Consume ::
  "json_parse \<Rightarrow> (cancellation_row \<Rightarrow> 'v \<Rightarrow> (err option \<times> 'v) go) \<Rightarrow> 'v delivery \<Rightarrow> 'v \<Rightarrow> 'v go"
where
  "db_CancellationConsumer_Consume parse record msg v =
     (case parse (Payload msg) of
        Inl e \<Rightarrow> Ret (snd (Reject msg v))
      | Inr j \<Rightarrow>
          go_bind (cancellation_of_json j) (\<lambda>(c, e).
            case e of
              Some x \<Rightarrow> Ret (snd (Reject msg v))
            | None \<Rightarrow> go_map (settle msg) (record c v)))"

section \<open>What they do\<close>

definition index_into ::
  "crypto \<Rightarrow> (int \<Rightarrow> int \<Rightarrow> 'f go) \<Rightarrow> 'f \<Rightarrow> int \<Rightarrow> order \<Rightarrow> trace \<times> 'f orders_table
     \<Rightarrow> (err option \<times> trace \<times> 'f orders_table) go"
where
  "index_into C quo zero status ord = on_db (Indexer_Index C quo zero status ord)"

lemma Order_Save_refuses:
  assumes "Order_Hash C (types_Order ord) = Ret h"
    and "Signature_Verify C (Signature (types_Order ord)) (Maker (types_Order ord)) h = Ret False"
  shows "Order_Save C quo ord status table = Ret (Some sig_error, table)"
  using assms by (simp add: Order_Save_def Let_def)

lemma Order_Save_zero:
  assumes "wf_order (types_Order ord)" and "Order_Hash C (types_Order ord) = Ret h"
    and "Signature_Verify C (Signature (types_Order ord)) (Maker (types_Order ord)) h = Ret True"
    and "be_nat (TakerAssetAmount (types_Order ord)) = 0"
  shows "Order_Save C quo ord status table = Panic DivisionByZero"
  using assms
  by (simp add: Order_Save_def Let_def Populate_def Uint256_Big_def big_Div_def wf_order_def wf_uint256_def)

text \<open>The row of an order that was saved.\<close>

lemma Order_Save_stored:
  assumes s: "Order_Save C quo ord status table = Ret (None, table')" and wf: "wf_order (types_Order ord)"
    and h: "Order_Hash C (types_Order ord) = Ret h"
  shows "\<exists>row \<in> set table'. OrderHash row = h \<and>
    TakerAssetAmountFilled (types_Order row) = TakerAssetAmountFilled (types_Order ord) \<and>
    Status row = (if filled_up (types_Order ord) then StatusFilled
      else if Cancelled (types_Order ord) then StatusCancelled
      else if Status ord = StatusOpen then status else Status ord)"
  using s wf
proof (cases rule: Order_Save_cases)
  case (saved new)
  then have n: "OrderHash new = h" using h by (auto simp: row_ok_def Let_def)
  show ?thesis
  proof (cases "h \<in> OrderHash ` set table")
    case True
    then obtain r where "r \<in> set table" "OrderHash r = h" by auto
    then have "update_row new r \<in> set table'" using saved(5) n by auto
    then show ?thesis
      using saved(3,4) n \<open>OrderHash r = h\<close> by (intro bexI [of _ "update_row new r"]) (auto simp: update_row_def)
  next
    case False
    then show ?thesis using saved n by auto
  qed
qed simp

text \<open>A signed order with an amount to fill is stored and acknowledged.\<close>

lemma IndexConsumer_stores:
  assumes C: "crypto_ok C" and quo: "\<forall>a b. returns (quo a b)"
    and p: "order_of_payload payload = (ord, None)" and h: "Order_Hash C ord = Ret h"
    and v: "Signature_Verify C (Signature ord) (Maker ord) h = Ret True"
    and a: "be_nat (TakerAssetAmount ord) \<noteq> 0"
  shows "\<exists>table' row. IndexConsumer_Consume C (index_into C quo zero status) (db_delivery payload) (t, table) =
      Ret (t @ [Acked], table') \<and> row \<in> set table' \<and> OrderHash row = h \<and>
      TakerAssetAmountFilled (types_Order row) = TakerAssetAmountFilled ord"
proof -
  let ?row = "\<lparr>types_Order = ord, OrderHash = [], Status = 0, Price = zero, FeeRate = zero,
       MakerAssetRemaining = [], MakerFeeRemaining = []\<rparr>"
  have wf: "wf_order ord" using p by (rule order_of_payload_wf)
  have i: "index_into C quo zero status ord (t, table) =
      go_map (\<lambda>(r, d). (r, t, d)) (Order_Save C quo ?row status table)"
    by (simp add: index_into_def on_db_def Indexer_Index_def)
  obtain table' where s: "Order_Save C quo ?row status table = Ret (None, table')"
    using Order_Save_returns [of ?row C h quo status table] wf h v a quo by auto
  from Order_Save_stored [OF s, of h] wf h obtain row where "row \<in> set table'" "OrderHash row = h"
    "TakerAssetAmountFilled (types_Order row) = TakerAssetAmountFilled ord" by auto
  with p i s show ?thesis by (auto simp: IndexConsumer_Consume_def)
qed

text \<open>C30: an order message is rejected, with the table untouched, when it does not parse or its
  maker did not sign it; otherwise the order is stored under its hash with its filled amount and the
  message acknowledged; but a signed order for none of the taker's asset kills the process.\<close>

theorem IndexConsumer_outcome:
  assumes C: "crypto_ok C" and quo: "\<forall>a b. returns (quo a b)"
    and p: "order_of_payload payload = (ord, e)"
  shows "\<exists>h. (e = None \<longrightarrow> Order_Hash C ord = Ret h) \<and>
    (let outcome = IndexConsumer_Consume C (index_into C quo zero status) (db_delivery payload) (t, table)
     in if e \<noteq> None \<or> Signature_Verify C (Signature ord) (Maker ord) h \<noteq> Ret True
        then outcome = Ret (t @ [Rejected], table)
        else if be_nat (TakerAssetAmount ord) = 0 then outcome = Panic DivisionByZero
        else \<exists>table' row. outcome = Ret (t @ [Acked], table') \<and> row \<in> set table' \<and> OrderHash row = h \<and>
          TakerAssetAmountFilled (types_Order row) = TakerAssetAmountFilled ord)"
proof (cases e)
  case (Some x)
  with p show ?thesis by (simp add: IndexConsumer_Consume_def Let_def)
next
  case None
  with p have wf: "wf_order ord" by (simp add: order_of_payload_wf)
  then obtain h where h: "Order_Hash C ord = Ret h" using Order_Hash_wf by blast
  have "length (Maker ord) = 20" using wf by (simp add: wf_order_def wf_address_def)
  then obtain b where b: "Signature_Verify C (Signature ord) (Maker ord) h = Ret b"
    using Signature_Verify_returns [OF C] by blast
  let ?row = "\<lparr>types_Order = ord, OrderHash = [], Status = 0, Price = zero, FeeRate = zero,
       MakerAssetRemaining = [], MakerFeeRemaining = []\<rparr>"
  have i: "index_into C quo zero status ord (t, table) =
      go_map (\<lambda>(r, d). (r, t, d)) (Order_Save C quo ?row status table)"
    by (simp add: index_into_def on_db_def Indexer_Index_def)
  consider "\<not> b" | "b" "be_nat (TakerAssetAmount ord) = 0" | "b" "be_nat (TakerAssetAmount ord) \<noteq> 0" by blast
  then show ?thesis
  proof cases
    case 1
    then have "Order_Save C quo ?row status table = Ret (Some sig_error, table)"
      using h b by (intro Order_Save_refuses) auto
    with p None h b 1 i show ?thesis by (simp add: IndexConsumer_Consume_def Let_def)
  next
    case 2
    then have "Order_Save C quo ?row status table = Panic DivisionByZero"
      using wf h b by (intro Order_Save_zero) auto
    with p None h b 2 i show ?thesis by (simp add: IndexConsumer_Consume_def Let_def)
  next
    case 3
    with IndexConsumer_stores [OF C quo, of payload ord h] p None h b show ?thesis by (auto simp: Let_def)
  qed
qed

lemma sized_sample_signed_order: "sized_order sample_signed_order"
  using sized_sample_order wf_sample_signed_order
  by (simp add: sized_order_def sample_signed_order_def sample_taker_order_def sample_signature_def)

theorem IndexConsumer_outcome_witness:
  "\<exists>table. IndexConsumer_Consume sample_crypto (index_into sample_crypto (\<lambda>a b. Ret ()) () StatusOpen)
     (db_delivery (order_payload sample_signed_order)) ([], []) = Ret ([Acked], table) \<and> table \<noteq> []"
  using IndexConsumer_outcome [OF sample_crypto_ok, of "\<lambda>a b. Ret ()",
      OF _ order_of_order_payload [OF sized_sample_signed_order], of "()" StatusOpen "[]" "[]"]
  by (fastforce simp: sample_amounts sample_signature_valid Let_def)

lemma trim_quoted_hex:
  assumes "a \<noteq> []"
  shows "trim_chars quote_set (quoted (sprintf_hex a)) = sprintf_hex a"
proof -
  have s: "sprintf_hex a = ''0x'' @ hex_encode a" using assms by (auto simp: sprintf_hex_def)
  have q: "CHR 0x22 \<notin> set (hex_encode a)" for a
  proof (induction a)
    case (Cons b a)
    have "hex_digit n \<noteq> CHR 0x22" if "n < 16" for n
      using from_hex_hex_digit [OF that] by (auto simp: from_hex_char_def)
    with Cons show ?case by (auto dest: sym)
  qed simp
  show ?thesis
    unfolding quoted_def
  proof (rule trim_chars_quoted)
    have "last (''0x'' @ hex_encode a) \<in> set (hex_encode a)" using assms by (cases a) auto
    then show "last (sprintf_hex a) \<notin> quote_set" using q [of a] s by (auto simp: quote_set_def)
  qed (simp_all add: s quote_set_def)
qed

lemma address_text:
  assumes "length a = 20" and "length buf = 20"
  shows "Address_UnmarshalJSON (quoted (sprintf_hex a)) buf = Ret (a, None)"
proof -
  have n: "a \<noteq> []" using assms by auto
  then have s: "sprintf_hex a = ''0x'' @ hex_encode a" by (simp add: sprintf_hex_def)
  show ?thesis
    using trim_quoted_hex [OF n] assms hex_Decode_encode [of buf a] trim_prefix_append [of "''0x''" "hex_encode a"]
    by (simp add: Address_UnmarshalJSON_def s)
qed

lemma signature_text:
  assumes "length a = length buf" and "a \<noteq> []"
  shows "Signature_UnmarshalJSON (quoted (sprintf_hex a)) buf = Inr a"
  using assms by (simp add: Signature_UnmarshalJSON_def trim_quoted_hex)

lemma uint256_text:
  "length u = 32 \<Longrightarrow> length buf = 32 \<Longrightarrow>
   Uint256_UnmarshalJSON (quoted (big_String (int (be_nat u)))) buf = Inr u"
proof -
  assume l: "length u = 32" "length buf = 32"
  let ?s = "big_String (int (be_nat u))"
  have s: "?s = dec_string (be_nat u)" by (simp add: big_String_def)
  have q: "c \<notin> quote_set" if "c \<in> set ?s" for c using dec_string_chars [of c "be_nat u"] that by (auto simp: s quote_set_def)
  have "trim_chars quote_set (quoted ?s) = ?s"
    unfolding quoted_def using q
    by (intro trim_chars_quoted) (auto simp: s quote_set_def)
  then show ?thesis using l by (simp add: Uint256_UnmarshalJSON_def abi_U256_of_be_nat)
qed

text \<open>A cancellation survives its way from the monitor's JSON to the recorder.\<close>

lemma cancellation_json_roundtrip:
  assumes "length (cr_Maker c) = 20" and "length (cr_Sender c) = 20" and "length (cr_Epoch c) = 32"
  shows "cancellation_of_json (json_of_cancellation c) = Ret (c, None)"
proof -
  have n: "cr_Maker c \<noteq> []" "cr_Sender c \<noteq> []" "cr_Epoch c \<noteq> []" using assms by auto
  show ?thesis
    using n assms address_text [of _ zero_address] uint256_text [of _ zero_uint256]
    by (simp add: cancellation_of_json_def json_of_cancellation_def cancellation_member_def json_raw_def
        zero_uint256_def)
qed

end
