(* ===== verification/FillBloom.thy ===== *)
theory FillBloom
  imports EventLogs Blocks IndexConsumers
begin

text \<open>
  The bloom filter of the order hashes that have fills (\<open>fillbloom/fillbloom.go\<close>), on the vendored
  filter (\<open>github.com/willf/bloom\<close>): how it is populated from the chain in chunks of blocks, loaded,
  saved and kept up to date. The four base hashes (murmur3) are a parameter \<open>H\<close>; the interface
  \<open>approximate_set\<close> says what the fill lookups need of a filter.
\<close>

section \<open>The vendored filter\<close>

type_synonym base_hashes = "bytes \<Rightarrow> 64 word list"

record bloom_filter =
  bf_m :: nat
  bf_k :: nat
  bf_b :: "nat set"

definition bloom_New :: "nat \<Rightarrow> nat \<Rightarrow> bloom_filter" where
  "bloom_New m k = \<lparr>bf_m = max 1 m, bf_k = max 1 k, bf_b = {}\<rparr>"

definition bloom_location :: "64 word list \<Rightarrow> nat \<Rightarrow> 64 word" where
  "bloom_location h i = h ! (i mod 2) + of_nat i * h ! (2 + ((i + i mod 2) mod 4) div 2)"

definition filter_location :: "bloom_filter \<Rightarrow> 64 word list \<Rightarrow> nat \<Rightarrow> nat" where
  "filter_location f h i = unat (bloom_location h i) mod bf_m f"

definition bloom_Add :: "base_hashes \<Rightarrow> bytes \<Rightarrow> bloom_filter \<Rightarrow> bloom_filter" where
  "bloom_Add H data f =
     fold (\<lambda>i f. f\<lparr>bf_b := insert (filter_location f (H data) i) (bf_b f)\<rparr>) [0..<bf_k f] f"

definition bloom_Test :: "base_hashes \<Rightarrow> bytes \<Rightarrow> bloom_filter \<Rightarrow> bool" where
  "bloom_Test H data f = list_all (\<lambda>i. filter_location f (H data) i \<in> bf_b f) [0..<bf_k f]"

lemma bloom_Add_eq:
  "bloom_Add H data f =
     f\<lparr>bf_b := (\<lambda>i. unat (bloom_location (H data) i) mod bf_m f) ` set [0..<bf_k f] \<union> bf_b f\<rparr>"
proof -
  have "fold (\<lambda>i f. f\<lparr>bf_b := insert (filter_location f h i) (bf_b f)\<rparr>) ks g =
      g\<lparr>bf_b := (\<lambda>i. unat (bloom_location h i) mod bf_m g) ` set ks \<union> bf_b g\<rparr>" for ks g h
    by (induction ks arbitrary: g) (simp_all add: filter_location_def)
  then show ?thesis by (simp add: bloom_Add_def)
qed

text \<open>What the users of a filter rely on.\<close>

locale approximate_set =
  fixes add :: "'e \<Rightarrow> 's \<Rightarrow> 's" and test :: "'e \<Rightarrow> 's \<Rightarrow> bool"
  assumes test_add: "test x (add x s)"
    and test_mono: "test x s \<Longrightarrow> test x (add y s)"
begin

lemma test_fold_mono: "test x s \<Longrightarrow> test x (fold add ys s)"
  by (induction ys arbitrary: s) (auto simp: test_mono)

lemma no_false_negative: "x \<in> set ys \<Longrightarrow> test x (fold add ys s)"
  by (induction ys arbitrary: s) (auto simp: test_add test_fold_mono)

end

interpretation bloom: approximate_set "bloom_Add H" "bloom_Test H" for H
  by unfold_locales (auto simp: bloom_Test_def bloom_Add_eq list_all_iff filter_location_def)

section \<open>The fill bloom\<close>

record fill_bloom =
  fb_b :: bloom_filter
  fb_Initialized :: bool

definition NewFillBloom :: fill_bloom where
  "NewFillBloom = \<lparr>fb_b = bloom_New 419430400 17, fb_Initialized = False\<rparr>"

definition fb_Add :: "base_hashes \<Rightarrow> bytes \<Rightarrow> fill_bloom \<Rightarrow> fill_bloom" where
  "fb_Add H data fb = fb\<lparr>fb_b := bloom_Add H data (fb_b fb)\<rparr>"

definition fb_Test :: "base_hashes \<Rightarrow> bytes \<Rightarrow> fill_bloom \<Rightarrow> bool" where
  "fb_Test H data fb = bloom_Test H data (fb_b fb)"

definition fb_topics :: "bytes list" where
  "fb_topics =
     [be_bytes 32 0x0d0b9391970d9a25552f37d436d2aae2925e2bfe1b2a923754bada030c498cb3,
      be_bytes 32 0x67d66f160bc93d925d05dae1794c90d2d6d6688b29b84ff069398a9b04587131]"

definition populate_query :: "bytes list \<Rightarrow> int \<Rightarrow> int \<Rightarrow> filter_query" where
  "populate_query exchangeAddresses lo hi =
     \<lparr>q_From = Some lo, q_To = Some hi, q_Addresses = exchangeAddresses, q_Topics = [fb_topics, [], []]\<rparr>"

fun add_fill_logs :: "base_hashes \<Rightarrow> event_log list \<Rightarrow> fill_bloom \<Rightarrow> fill_bloom go" where
  "add_fill_logs H [] fb = Ret fb"
| "add_fill_logs H (l # ls) fb =
     (if length (l_Data l) < 32 then Panic IndexOutOfRange
      else add_fill_logs H ls (fb_Add H (drop (length (l_Data l) - 32) (l_Data l)) fb))"

text \<open>The chunks; the loop does not end when the chunk size is not positive (it is read from the
  environment) and there is something to populate.\<close>

partial_function (option) populate ::
  "base_hashes \<Rightarrow> 'v log_filter \<Rightarrow> bytes list \<Rightarrow> int \<Rightarrow> int \<Rightarrow> 'v \<Rightarrow> int \<Rightarrow> fill_bloom
     \<Rightarrow> (fill_bloom \<times> err option) go option"
where
  "populate H FilterLogs exchangeAddresses chunk endBlock v lastBlock fb =
     (if lastBlock < endBlock then
        (case FilterLogs (populate_query exchangeAddresses lastBlock
                (min (int64_of (lastBlock + chunk)) endBlock)) v of
           Inl e \<Rightarrow> Some (Ret (fb, Some e))
         | Inr logs \<Rightarrow>
             (case add_fill_logs H logs fb of
                Panic p \<Rightarrow> Some (Panic p)
              | Ret fb' \<Rightarrow>
                  populate H FilterLogs exchangeAddresses chunk endBlock v (int64_of (lastBlock + chunk)) fb'))
      else Some (Ret (fb, None)))"

text \<open>The store: the error of \<open>Reader\<close>, else the filter or the error of \<open>ReadFrom\<close>.\<close>

type_synonym stored_bloom = "err + (err + bloom_filter)"

definition fb_Initialize ::
  "base_hashes \<Rightarrow> stored_bloom \<Rightarrow> 'v log_filter \<Rightarrow> int \<Rightarrow> int \<Rightarrow> bytes list \<Rightarrow> 'v \<Rightarrow> fill_bloom
     \<Rightarrow> (fill_bloom \<times> err option) go option"
where
  "fb_Initialize H stored FilterLogs chunk endBlock exchangeAddresses v fb =
     (case stored of
        Inl e \<Rightarrow>
          map_option (go_map (\<lambda>(fb', e). case e of None \<Rightarrow> (fb'\<lparr>fb_Initialized := True\<rparr>, None) | Some x \<Rightarrow> (fb', Some x)))
            (populate H FilterLogs exchangeAddresses chunk endBlock v 0 fb)
      | Inr (Inl e) \<Rightarrow> Some (Ret (fb, Some e))
      | Inr (Inr b) \<Rightarrow> Some (Ret (fb\<lparr>fb_b := b, fb_Initialized := True\<rparr>, None)))"

text \<open>The size of the chunks: the environment's number, or 10000.\<close>

definition envInt :: "string \<Rightarrow> int \<Rightarrow> int" where
  "envInt envVar unset = (case Atoi envVar of Inl e \<Rightarrow> unset | Inr val \<Rightarrow> val)"

definition populateChunkSize :: "string \<Rightarrow> int" where "populateChunkSize envVar = envInt envVar 10000"

text \<open>What a store does: open it for reading and read a filter; open it for writing, write a filter to it
  and close it. \<open>store_keeps\<close>: what was written and closed is read back.\<close>

record ('k, 'u) filter_store =
  fs_Reader :: "'k \<Rightarrow> 'u \<Rightarrow> stored_bloom"
  fs_Writer :: "'k \<Rightarrow> 'u \<Rightarrow> err option \<times> 'u"
  fs_WriteTo :: "'k \<Rightarrow> bloom_filter \<Rightarrow> 'u \<Rightarrow> err option \<times> 'u"
  fs_Close :: "'k \<Rightarrow> 'u \<Rightarrow> err option \<times> 'u"

definition fb_Save :: "('k, 'u) filter_store \<Rightarrow> 'k \<Rightarrow> fill_bloom \<times> 'u \<Rightarrow> err option \<times> fill_bloom \<times> 'u" where
  "fb_Save S k s =
     (case s of (fb, u) \<Rightarrow>
        (case fs_Writer S k u of
           (Some e, u1) \<Rightarrow> (Some e, fb, u1)
         | (None, u1) \<Rightarrow>
             (case fs_WriteTo S k (fb_b fb) u1 of
                (Some e, u2) \<Rightarrow> (Some e, fb, u2)
              | (None, u2) \<Rightarrow> (case fs_Close S k u2 of (e, u3) \<Rightarrow> (e, fb, u3)))))"

definition store_keeps :: "('k, 'u) filter_store \<Rightarrow> bool" where
  "store_keeps S \<longleftrightarrow>
     (\<forall>k b u u1 u2 u3. fs_Writer S k u = (None, u1) \<longrightarrow> fs_WriteTo S k b u1 = (None, u2) \<longrightarrow>
        fs_Close S k u2 = (None, u3) \<longrightarrow> fs_Reader S k u3 = Inr (Inr b))"

lemma fb_Save_read:
  "store_keeps S \<Longrightarrow> fb_Save S k (fb, u) = (None, fb', u') \<Longrightarrow> fb' = fb \<and> fs_Reader S k u' = Inr (Inr (fb_b fb))"
  unfolding store_keeps_def by (fastforce simp: fb_Save_def split: prod.splits option.splits)

text \<open>\<open>common.HexToHash\<close>: what a string has of hexadecimal digits, right-aligned.\<close>

fun hex_prefix :: "string \<Rightarrow> bytes" where
  "hex_prefix (a # b # cs) =
     (case (from_hex_char a, from_hex_char b) of
        (Some x, Some y) \<Rightarrow> word_of_nat (x * 16 + y) # hex_prefix cs
      | _ \<Rightarrow> [])"
| "hex_prefix _ = []"

definition FromHex :: "string \<Rightarrow> bytes" where
  "FromHex s =
     (if length s > 1 then
        (let s' = (if take 2 s = ''0x'' \<or> take 2 s = ''0X'' then drop 2 s else s) in
         hex_prefix (if odd (length s') then CHR ''0'' # s' else s'))
      else [])"

definition BytesToHash :: "bytes \<Rightarrow> bytes" where
  "BytesToHash b = zero_bytes (32 - length b) @ drop (length b - 32) b"

text \<open>A payload that is not a fill record is rejected, but the function goes on.\<close>

definition fb_Consume ::
  "base_hashes \<Rightarrow> json_parse \<Rightarrow> 'v delivery \<Rightarrow> fill_bloom \<times> 'v \<Rightarrow> fill_bloom \<times> 'v"
where
  "fb_Consume H parse msg s =
     (case s of (fb, v) \<Rightarrow>
        case (case parse (Payload msg) of
                Inl e \<Rightarrow> (fst (fill_record_of_json JNull), Some e)
              | Inr j \<Rightarrow> fill_record_of_json j) of
          (fr, e) \<Rightarrow>
            (fb_Add H (BytesToHash (FromHex (fr_OrderHash fr))) fb,
             snd (Ack msg (if e = None then v else snd (Reject msg v)))))"

section \<open>No fill is missed\<close>

lemma add_fill_logs_eq:
  "list_all (\<lambda>l. 32 \<le> length (l_Data l)) ls \<Longrightarrow>
   add_fill_logs H ls fb =
     Ret (fb\<lparr>fb_b := fold (bloom_Add H) (map (\<lambda>l. drop (length (l_Data l) - 32) (l_Data l)) ls) (fb_b fb)\<rparr>)"
  by (induction ls arbitrary: fb) (auto simp: fb_Add_def)

text \<open>A node that answers a query with the matching logs of the blocks asked for.\<close>

definition node_logs :: "(int \<Rightarrow> event_log list) \<Rightarrow> 'v log_filter" where
  "node_logs logs_at q v =
     Inr (case (q_From q, q_To q) of
            (Some lo, Some hi) \<Rightarrow> filter (log_matches q) (concat (map logs_at [lo..hi]))
          | _ \<Rightarrow> [])"

definition fill_hashes :: "(int \<Rightarrow> event_log list) \<Rightarrow> bytes list \<Rightarrow> int \<Rightarrow> bytes set" where
  "fill_hashes logs_at addresses n =
     {drop (length (l_Data l) - 32) (l_Data l) | l. l \<in> set (logs_at n) \<and> log_matches (populate_query addresses 0 0) l}"

lemma log_matches_populate:
  "log_matches (populate_query a lo hi) = log_matches (populate_query a 0 0)"
  by (simp add: log_matches_def populate_query_def fun_eq_iff)

lemma populate_query_simps [simp]:
  "q_From (populate_query a lo hi) = Some lo" "q_To (populate_query a lo hi) = Some hi"
  by (simp_all add: populate_query_def)

lemma node_logs_populate:
  "node_logs logs_at (populate_query a lo hi) v =
     Inr (filter (log_matches (populate_query a 0 0)) (concat (map logs_at [lo..hi])))"
  by (simp add: node_logs_def log_matches_populate [of a lo hi])

lemma populate_complete:
  assumes chunk: "0 < chunk" and small: "endBlock + chunk < 2 ^ 63"
    and data: "\<forall>n. list_all (\<lambda>l. 32 \<le> length (l_Data l)) (logs_at n)" and last: "0 \<le> lastBlock"
  shows "\<exists>fb'. populate H (node_logs logs_at) addresses chunk endBlock v lastBlock fb = Some (Ret (fb', None)) \<and>
    (\<forall>x. fb_Test H x fb \<longrightarrow> fb_Test H x fb') \<and>
    (lastBlock < endBlock \<longrightarrow> (\<forall>n x. lastBlock \<le> n \<longrightarrow> n \<le> endBlock \<longrightarrow> x \<in> fill_hashes logs_at addresses n \<longrightarrow> fb_Test H x fb'))"
  using last
proof (induction "nat (endBlock - lastBlock)" arbitrary: lastBlock fb rule: less_induct)
  case less
  show ?case
  proof (cases "lastBlock < endBlock")
    case False
    then show ?thesis by (subst populate.simps) simp
  next
    case True
    define next_block where "next_block = lastBlock + chunk"
    have i: "int64_of (lastBlock + chunk) = next_block"
      using True small less.prems chunk by (simp add: next_block_def int64_of_small)
    define hi where "hi = min next_block endBlock"
    define ls where "ls = filter (log_matches (populate_query addresses 0 0)) (concat (map logs_at [lastBlock..hi]))"
    have q: "node_logs logs_at (populate_query addresses lastBlock (min next_block endBlock)) v = Inr ls"
      by (simp add: node_logs_populate ls_def hi_def)
    have "list_all (\<lambda>l. 32 \<le> length (l_Data l)) ls"
      using data by (auto simp: ls_def list_all_iff)
    note a = add_fill_logs_eq [OF this, of H fb]
    let ?fb = "fb\<lparr>fb_b := fold (bloom_Add H) (map (\<lambda>l. drop (length (l_Data l) - 32) (l_Data l)) ls) (fb_b fb)\<rparr>"
    have "nat (endBlock - next_block) < nat (endBlock - lastBlock)" "0 \<le> next_block"
      using True chunk less.prems by (auto simp: next_block_def)
    from less.hyps [OF this, of ?fb] obtain fb' where
      fb': "populate H (node_logs logs_at) addresses chunk endBlock v next_block ?fb = Some (Ret (fb', None))"
      and keep: "\<forall>x. fb_Test H x ?fb \<longrightarrow> fb_Test H x fb'"
      and new: "next_block < endBlock \<longrightarrow> (\<forall>n x. next_block \<le> n \<longrightarrow> n \<le> endBlock \<longrightarrow>
        x \<in> fill_hashes logs_at addresses n \<longrightarrow> fb_Test H x fb')" by blast
    have r: "populate H (node_logs logs_at) addresses chunk endBlock v lastBlock fb = Some (Ret (fb', None))"
      using True i q a fb' by (subst populate.simps) simp
    have old: "fb_Test H x fb'" if "fb_Test H x fb" for x
      using keep that bloom.test_fold_mono by (auto simp: fb_Test_def)
    have covered: "fb_Test H x fb'" if n: "lastBlock \<le> n" "n \<le> hi" and x: "x \<in> fill_hashes logs_at addresses n" for n x
    proof -
      have "x \<in> set (map (\<lambda>l. drop (length (l_Data l) - 32) (l_Data l)) ls)"
        using n x by (force simp: ls_def fill_hashes_def)
      then have "fb_Test H x ?fb" by (simp add: fb_Test_def bloom.no_false_negative)
      with keep show ?thesis by blast
    qed
    have "fb_Test H x fb'" if "lastBlock \<le> n" "n \<le> endBlock" "x \<in> fill_hashes logs_at addresses n" for n x
    proof (cases "n \<le> hi")
      case True
      with that covered [of n x] show ?thesis by simp
    next
      case False
      with that(2) have "next_block \<le> n" "next_block < endBlock" by (auto simp: hi_def)
      with that new show ?thesis by blast
    qed
    with r old show ?thesis by blast
  qed
qed

text \<open>Populating the filter from a chain returns, and afterwards every order hash that a fill or
  cancel event of the queried topics carries at the end of its data, in any block up to the last one,
  tests positive: a negative answer of the filter is proof of no such event.\<close>

lemma fill_bloom_complete:
  assumes chunk: "0 < chunk" and small: "0 < endBlock" "endBlock + chunk < 2 ^ 63"
    and data: "\<forall>n. list_all (\<lambda>l. 32 \<le> length (l_Data l)) (logs_at n)"
  shows "\<exists>fb. fb_Initialize H (Inl missing) (node_logs logs_at) chunk endBlock addresses v NewFillBloom =
      Some (Ret (fb, None)) \<and> fb_Initialized fb \<and>
    (\<forall>n x. 0 \<le> n \<and> n \<le> endBlock \<and> x \<in> fill_hashes logs_at addresses n \<longrightarrow> fb_Test H x fb)"
proof -
  from populate_complete [OF chunk small(2) data, of 0 H addresses v NewFillBloom] obtain fb where
    p: "populate H (node_logs logs_at) addresses chunk endBlock v 0 NewFillBloom = Some (Ret (fb, None))"
    and t: "\<forall>n x. 0 \<le> n \<longrightarrow> n \<le> endBlock \<longrightarrow> x \<in> fill_hashes logs_at addresses n \<longrightarrow> fb_Test H x fb"
    using small(1) by auto
  then show ?thesis
    by (intro exI [of _ "fb\<lparr>fb_Initialized := True\<rparr>"]) (auto simp: fb_Initialize_def fb_Test_def)
qed

end
