(* ===== verification/Monitors.thy ===== *)
theory Monitors
  imports FillBloom
begin

text \<open>
  The block consumers (\<open>monitor/fill\<close>, \<open>cancelupto\<close>, \<open>allowance\<close>, \<open>erc721approvals\<close>, \<open>spend\<close>,
  \<open>multisig\<close>, \<open>affiliate\<close>): each looks into the bloom filter of a block, fetches the logs it wants
  and publishes a record for each. \<open>enc\<close> is \<open>json.Marshal\<close> as text, which does not fail on these
  records; \<open>parse\<close> decodes the block of a payload; \<open>FilterLogs\<close> is the node. Addresses and topics
  that the code holds as a \<open>big.Int\<close> are integers.
\<close>

type_synonym json_text = "json \<Rightarrow> string"

section \<open>Fills\<close>

definition fillTopic :: int where
  "fillTopic = 0x0bcc4c97732e47d9946f229edb95f5b6323f601300e4690de719993f3c371129"

definition cancelTopic :: int where
  "cancelTopic = 0xdc47b3613d9fe400085f6dbdc99453462279057e6207385042827ed6b1a62cf7"

definition json_of_fill_record :: "fill_record \<Rightarrow> json" where
  "json_of_fill_record fr =
     JObject [(''orderHash'', JString (fr_OrderHash fr)),
              (''filledTakerAssetAmount'', JString (fr_FilledTakerAssetAmount fr)),
              (''cancel'', JBool (fr_Cancel fr))]"

definition fill_query :: "int \<Rightarrow> int option \<Rightarrow> filter_query" where
  "fill_query exchangeAddress number =
     \<lparr>q_From = number, q_To = number, q_Addresses = [BigToAddress exchangeAddress],
      q_Topics = [[BigToHash fillTopic, BigToHash cancelTopic], [], []]\<rparr>"

text \<open>The record of a log; a log with little data is skipped. The third topic of a fill is not part of
  the query.\<close>

definition fill_record_of_log :: "event_log \<Rightarrow> (bytes \<times> fill_record) option go" where
  "fill_record_of_log l =
     (if length (l_Data l) < 256 then Ret None
      else go_bind (go_index (l_Topics l) 0) (\<lambda>topic.
        if int (be_nat topic) = fillTopic
        then go_bind (go_slice (l_Data l) (32 * 3) (32 * 4)) (\<lambda>amount.
             go_bind (go_index (l_Topics l) 3) (\<lambda>orderHash.
               Ret (Some (orderHash, \<lparr>fr_OrderHash = sprintf_hex orderHash,
                 fr_FilledTakerAssetAmount = big_String (int (be_nat amount)), fr_Cancel = False\<rparr>))))
        else go_bind (go_index (l_Topics l) 3) (\<lambda>orderHash.
               Ret (Some (orderHash, \<lparr>fr_OrderHash = sprintf_hex orderHash,
                 fr_FilledTakerAssetAmount = ''0'', fr_Cancel = True\<rparr>)))))"

definition fill_log ::
  "base_hashes \<Rightarrow> json_text \<Rightarrow> (fill_bloom \<times> 'u) publisher \<Rightarrow> event_log \<Rightarrow> fill_bloom \<times> 'u
     \<Rightarrow> (fill_bloom \<times> 'u) handled go"
where
  "fill_log H enc pub l v =
     go_map (\<lambda>r. case r of
         None \<Rightarrow> Handled v
       | Some (orderHash, fr) \<Rightarrow>
           Handled (snd (pub (enc (json_of_fill_record fr)) (fb_Add H orderHash (fst v), snd v))))
       (fill_record_of_log l)"

text \<open>\<open>Init\<close> is the filter's \<open>Initialize\<close> for the block number, which may not return; \<open>Save\<close>
  writes it to its store, and an error is only logged.\<close>

definition fillBlockConsumer_Consume ::
  "crypto \<Rightarrow> base_hashes \<Rightarrow> json_text \<Rightarrow> block_parse \<Rightarrow> (fill_bloom \<times> 'u) log_filter
     \<Rightarrow> (fill_bloom \<times> 'u) publisher \<Rightarrow> (int \<Rightarrow> bytes list \<Rightarrow> fill_bloom \<times> 'u \<Rightarrow> ((fill_bloom \<times> 'u) \<times> err option) go option)
     \<Rightarrow> (fill_bloom \<times> 'u \<Rightarrow> fill_bloom \<times> 'u) \<Rightarrow> int
     \<Rightarrow> (fill_bloom \<times> 'u) delivery \<Rightarrow> fill_bloom \<times> 'u \<Rightarrow> (fill_bloom \<times> 'u) handled go option"
where
  "fillBlockConsumer_Consume C H enc parse FilterLogs pub Init Save exchangeAddress msg v0 =
     (let block = fst (parse (Payload msg));
          initialized =
            (if fb_Initialized (fst v0) then Some (Ret (v0, None))
             else case sb_Number block of
                    None \<Rightarrow> Some (Panic NilDereference)
                  | Some n \<Rightarrow> Init (int64_of n) [BigToAddress exchangeAddress] v0);
          process = (\<lambda>v.
            then_ack msg
             (if (BloomLookup C (sb_Bloom block) (big_Bytes fillTopic) \<or>
                  BloomLookup C (sb_Bloom block) (big_Bytes cancelTopic)) \<and>
                 BloomLookup C (sb_Bloom block) (big_Bytes exchangeAddress)
              then with_logs FilterLogs (fill_query exchangeAddress (sb_Number block)) msg
                     (\<lambda>logs v. go_map (\<lambda>h. case h of Handled v \<Rightarrow> Handled (Save v) | Fatal e v \<Rightarrow> Fatal e v)
                        (each_log (fill_log H enc pub) logs v)) v
              else Ret (Handled v)))
      in map_option (\<lambda>r. go_bind r (\<lambda>(v, e). case e of Some x \<Rightarrow> Ret (Fatal x v) | None \<Rightarrow> process v)) initialized)"

section \<open>Cancellations up to an epoch\<close>

definition cancelUpToTopic :: int where
  "cancelUpToTopic = 0x82af639571738f4ebd4268fb0363d8957ebe1bbb9e78dba5ebd69eed39b154f0"

definition cancel_query :: "int \<Rightarrow> int option \<Rightarrow> filter_query" where
  "cancel_query exchangeAddress number =
     \<lparr>q_From = number, q_To = number, q_Addresses = [BigToAddress exchangeAddress],
      q_Topics = [[BigToHash cancelUpToTopic], [], []]\<rparr>"

definition cancellation_of_log :: "event_log \<Rightarrow> cancellation_row option go" where
  "cancellation_of_log l =
     (if length (l_Topics l) < 3 \<or> length (l_Data l) \<noteq> 32 then Ret None
      else go_bind (go_index (l_Topics l) 1) (\<lambda>t1. go_bind (go_slice t1 12 (length t1)) (\<lambda>maker.
           go_bind (go_index (l_Topics l) 2) (\<lambda>t2. go_bind (go_slice t2 12 (length t2)) (\<lambda>sender.
             Ret (Some \<lparr>cr_Maker = go_copy zero_address maker, cr_Sender = go_copy zero_address sender,
                        cr_Epoch = go_copy zero_uint256 (l_Data l)\<rparr>))))))"

definition cancelBlockConsumer_Consume ::
  "crypto \<Rightarrow> json_text \<Rightarrow> block_parse \<Rightarrow> 'v log_filter \<Rightarrow> 'v publisher \<Rightarrow> int
     \<Rightarrow> 'v delivery \<Rightarrow> 'v \<Rightarrow> 'v handled go"
where
  "cancelBlockConsumer_Consume C enc parse FilterLogs pub exchangeAddress msg v =
     (let block = fst (parse (Payload msg)) in
      then_ack msg
       (if BloomLookup C (sb_Bloom block) (big_Bytes cancelUpToTopic) \<and>
           BloomLookup C (sb_Bloom block) (big_Bytes exchangeAddress)
        then with_logs FilterLogs (cancel_query exchangeAddress (sb_Number block)) msg
               (each_log (publish_log pub
                  (\<lambda>l. go_map (map_option (\<lambda>c. enc (json_of_cancellation c))) (cancellation_of_log l)))) v
        else Ret (Handled v)))"

section \<open>Spend records\<close>

record spend_record =
  sr_TokenAddress :: string
  sr_AssetData :: string
  sr_SpenderAddress :: string
  sr_ZrxToken :: string
  sr_Balance :: string

definition json_of_spend_record :: "spend_record \<Rightarrow> json" where
  "json_of_spend_record sr =
     JObject [(''tokenAddress'', JString (sr_TokenAddress sr)), (''assetData'', JString (sr_AssetData sr)),
              (''spenderAddress'', JString (sr_SpenderAddress sr)), (''zrxToken'', JString (sr_ZrxToken sr)),
              (''balance'', JString (sr_Balance sr))]"

text \<open>\<open>hexutil.Encode\<close>, and \<open>strings.ToLower\<close> of an address's checksummed text.\<close>

definition hexutil_Encode :: "bytes \<Rightarrow> string" where "hexutil_Encode b = ''0x'' @ hex_encode b"

definition approvalTopic :: int where
  "approvalTopic = 0x8c5be1e5ebec7d5bd14f71427d1e84f3dd0314c0f7b2291e5b200ac8c7c3b925"

definition approveAllTopic :: int where
  "approveAllTopic = 0x17307eab39ab6107e8899845ad3d59bd9653f200f220920489ca2b5937696c31"

definition spendTopic :: int where
  "spendTopic = 0xddf252ad1be2c89b69c2b068fc378daa952ba7f163c4a11628f55a4df523b3ef"

text \<open>The spender of a log: the low 20 bytes of its second topic.\<close>

definition log_owner :: "event_log \<Rightarrow> bytes go" where
  "log_owner l = go_bind (go_index (l_Topics l) 1) (\<lambda>t. go_slice t 12 (length t))"

subsection \<open>ERC20 allowances\<close>

definition allowance_query :: "int \<Rightarrow> int option \<Rightarrow> filter_query" where
  "allowance_query proxy number =
     \<lparr>q_From = number, q_To = number, q_Addresses = [],
      q_Topics = [[BigToHash approvalTopic], [], [BigToHash proxy]]\<rparr>"

definition allowance_record :: "string \<Rightarrow> event_log \<Rightarrow> spend_record option go" where
  "allowance_record feeTokenAddress l =
     (if length (l_Topics l) < 2 \<or> length (l_Data l) \<noteq> 32 then Ret None
      else go_map (\<lambda>owner. Some
             \<lparr>sr_TokenAddress = hexutil_Encode (l_Address l), sr_AssetData = [],
              sr_SpenderAddress = hexutil_Encode owner, sr_ZrxToken = feeTokenAddress,
              sr_Balance = big_String (int (be_nat (l_Data l)))\<rparr>) (log_owner l))"

definition publish_spends ::
  "json_text \<Rightarrow> 'v publisher \<Rightarrow> (event_log \<Rightarrow> spend_record option go) \<Rightarrow> event_log list \<Rightarrow> 'v \<Rightarrow> 'v handled go"
where
  "publish_spends enc pub record_of =
     each_log (publish_log pub (\<lambda>l. go_map (map_option (\<lambda>sr. enc (json_of_spend_record sr))) (record_of l)))"

text \<open>The proxy of the \<open>RoboDex\<close> is only looked for in blocks whose filter excludes the other one.\<close>

definition allowanceBlockConsumer_Consume ::
  "crypto \<Rightarrow> json_text \<Rightarrow> block_parse \<Rightarrow> 'v log_filter \<Rightarrow> 'v publisher \<Rightarrow> string \<Rightarrow> int \<Rightarrow> int
     \<Rightarrow> 'v delivery \<Rightarrow> 'v \<Rightarrow> 'v handled go"
where
  "allowanceBlockConsumer_Consume C enc parse FilterLogs pub feeTokenAddress roboDexProxyAddress tokenProxyAddress msg v =
     (let block = fst (parse (Payload msg));
          approved_for = (\<lambda>proxy. BloomLookup C (sb_Bloom block) (big_Bytes approvalTopic) \<and>
                            BloomLookup C (sb_Bloom block) (BigToHash proxy));
          spends_of = (\<lambda>proxy. with_logs FilterLogs (allowance_query proxy (sb_Number block)) msg
                         (publish_spends enc pub (allowance_record feeTokenAddress)) v)
      in then_ack msg
           (if approved_for tokenProxyAddress then spends_of tokenProxyAddress
            else if approved_for roboDexProxyAddress then spends_of roboDexProxyAddress
            else Ret (Handled v)))"

subsection \<open>ERC721 approvals\<close>

definition erc721_query :: "int option \<Rightarrow> filter_query" where
  "erc721_query number =
     \<lparr>q_From = number, q_To = number, q_Addresses = [],
      q_Topics = [[BigToHash approvalTopic, BigToHash approveAllTopic], [], [], []]\<rparr>"

definition erc721_record :: "string \<Rightarrow> int \<Rightarrow> event_log \<Rightarrow> spend_record option go" where
  "erc721_record feeTokenAddress tokenProxyAddress l =
     go_bind (go_index (l_Topics l) 0) (\<lambda>t0.
       if int (be_nat t0) = approvalTopic
       then (if length (l_Topics l) \<noteq> 4 then Ret None
             else go_bind (go_index (l_Topics l) 2) (\<lambda>t2.
               if int (be_nat t2) = tokenProxyAddress then Ret None
               else go_bind (log_owner l) (\<lambda>owner.
                    go_bind (go_index (l_Topics l) 3) (\<lambda>t3.
                    go_bind (ToERC721AssetData (BytesToOrAddress (l_Address l)) (BytesToUint256 t3)) (\<lambda>asset.
                      Ret (Some \<lparr>sr_TokenAddress = hexutil_Encode (l_Address l), sr_AssetData = sprintf_hex asset,
                        sr_SpenderAddress = hexutil_Encode owner, sr_ZrxToken = feeTokenAddress,
                        sr_Balance = ''0''\<rparr>))))))
       else (if length (l_Topics l) \<noteq> 3 then Ret None
             else go_bind (go_index (l_Topics l) 2) (\<lambda>t2.
               if int (be_nat t2) = tokenProxyAddress \<and> be_nat (l_Data l) = 0
               then go_map (\<lambda>owner. Some
                      \<lparr>sr_TokenAddress = hexutil_Encode (l_Address l), sr_AssetData = [],
                       sr_SpenderAddress = hexutil_Encode owner, sr_ZrxToken = feeTokenAddress,
                       sr_Balance = ''0''\<rparr>) (log_owner l)
               else Ret None)))"

definition approvalBlockConsumer_Consume ::
  "crypto \<Rightarrow> json_text \<Rightarrow> block_parse \<Rightarrow> 'v log_filter \<Rightarrow> 'v publisher \<Rightarrow> string \<Rightarrow> int
     \<Rightarrow> 'v delivery \<Rightarrow> 'v \<Rightarrow> 'v handled go"
where
  "approvalBlockConsumer_Consume C enc parse FilterLogs pub feeTokenAddress tokenProxyAddress msg v =
     (let block = fst (parse (Payload msg)) in
      then_ack msg
       (if BloomLookup C (sb_Bloom block) (big_Bytes approvalTopic) \<or>
           (BloomLookup C (sb_Bloom block) (big_Bytes approveAllTopic) \<and>
            BloomLookup C (sb_Bloom block) (big_Bytes tokenProxyAddress))
        then with_logs FilterLogs (erc721_query (sb_Number block)) msg
               (publish_spends enc pub (erc721_record feeTokenAddress tokenProxyAddress)) v
        else Ret (Handled v)))"

subsection \<open>Transfers\<close>

definition spend_query :: "int option \<Rightarrow> filter_query" where
  "spend_query number =
     \<lparr>q_From = number, q_To = number, q_Addresses = [], q_Topics = [[BigToHash spendTopic], [], []]\<rparr>"

text \<open>The sender and the asset of a transfer, by the number of its topics.\<close>

definition spend_asset :: "event_log \<Rightarrow> (address \<times> asset_data) option go" where
  "spend_asset l =
     (let token = go_copy zero_address (l_Address l) in
      if length (l_Topics l) = 0 \<and> length (l_Data l) \<ge> 96
      then go_bind (ToERC721AssetData token (go_copy zero_uint256 (drop (length (l_Data l) - 32) (l_Data l))))
             (\<lambda>asset. Ret (Some (go_copy zero_address (take 20 (drop 12 (l_Data l))), asset)))
      else if length (l_Topics l) = 3
      then go_bind (log_owner l) (\<lambda>sender.
           go_bind (ToERC20AssetData token) (\<lambda>asset. Ret (Some (go_copy zero_address sender, asset))))
      else if length (l_Topics l) = 4
      then go_bind (log_owner l) (\<lambda>sender.
           go_bind (go_index (l_Topics l) 3) (\<lambda>t3.
           go_bind (ToERC721AssetData token (go_copy zero_uint256 t3)) (\<lambda>asset.
             Ret (Some (go_copy zero_address sender, asset)))))
      else Ret None)"

definition zero_balance_error :: "err \<Rightarrow> bool" where
  "zero_balance_error e =
     (e = ''abi: unmarshalling empty output'' \<or> e = no_contract \<or> e = revert_message)"

text \<open>What the sender can still spend: the smaller of allowance and balance, zero for the errors that
  mean there is no such token; another error ends the process. With it comes the asset, which is
  read as a non-fungible one when the allowance call reverted.\<close>

definition spendable ::
  "'v checker \<Rightarrow> address \<Rightarrow> address \<Rightarrow> bytes \<Rightarrow> address \<Rightarrow> asset_data \<Rightarrow> 'v \<Rightarrow> (err + int \<times> asset_data) go"
where
  "spendable checker proxy token data sender asset0 v =
     go_bind (GetAllowance checker asset0 sender proxy v) (\<lambda>r0.
     go_bind (if r0 = Inl revert_message
              then go_bind (ToERC721AssetData token (go_copy zero_uint256 data)) (\<lambda>asset.
                   go_map (\<lambda>r. (r, asset)) (GetAllowance checker asset sender proxy v))
              else Ret (r0, asset0)) (\<lambda>(r, asset).
     case (case r of Inl e \<Rightarrow> if zero_balance_error e then Inr 0 else Inl e | Inr n \<Rightarrow> Inr n) of
       Inl e \<Rightarrow> Ret (Inl e)
     | Inr allowance \<Rightarrow>
         if allowance = 0 then Ret (Inr (0, asset))
         else go_map (\<lambda>b. case b of
                Inl e \<Rightarrow> if zero_balance_error e then Inr (min allowance 0, asset) else Inl e
              | Inr balance \<Rightarrow> Inr (if allowance < balance then allowance else balance, asset))
              (GetBalance checker asset sender v)))"

text \<open>The loop remembers the pairs of sender and token it has reported; token identifiers do not
  count. The spender of the record is read from the topics, even where the sender came from the
  data.\<close>

fun spend_logs ::
  "json_text \<Rightarrow> 'v publisher \<Rightarrow> 'v checker \<Rightarrow> address \<Rightarrow> string \<Rightarrow> 'v delivery
     \<Rightarrow> (address \<times> address) set \<Rightarrow> event_log list \<Rightarrow> 'v \<Rightarrow> 'v handled go"
where
  "spend_logs enc pub checker proxy feeTokenAddress msg tradedTokens [] v = Ret (Handled v)"
| "spend_logs enc pub checker proxy feeTokenAddress msg tradedTokens (l # ls) v =
     go_bind (spend_asset l) (\<lambda>r.
       case r of
         None \<Rightarrow> spend_logs enc pub checker proxy feeTokenAddress msg tradedTokens ls v
       | Some (sender, asset0) \<Rightarrow>
           let token = go_copy zero_address (l_Address l) in
           if (sender, token) \<in> tradedTokens
           then spend_logs enc pub checker proxy feeTokenAddress msg tradedTokens ls v
           else go_bind (spendable checker proxy token (l_Data l) sender asset0 v) (\<lambda>b.
                case b of
                  Inl e \<Rightarrow> Ret (Fatal e (snd (Return msg v)))
                | Inr (balance, asset) \<Rightarrow>
                    go_bind (log_owner l) (\<lambda>owner.
                      let sr = \<lparr>sr_TokenAddress = hexutil_Encode (l_Address l), sr_AssetData = hexutil_Encode asset,
                                sr_SpenderAddress = hexutil_Encode owner, sr_ZrxToken = feeTokenAddress,
                                sr_Balance = big_String balance\<rparr>
                      in spend_logs enc pub checker proxy feeTokenAddress msg (insert (sender, token) tradedTokens) ls
                           (snd (pub (enc (json_of_spend_record sr)) v)))))"

definition spendBlockConsumer_Consume ::
  "crypto \<Rightarrow> json_text \<Rightarrow> block_parse \<Rightarrow> 'v log_filter \<Rightarrow> 'v publisher \<Rightarrow> 'v checker \<Rightarrow> address \<Rightarrow> string
     \<Rightarrow> 'v delivery \<Rightarrow> 'v \<Rightarrow> 'v handled go"
where
  "spendBlockConsumer_Consume C enc parse FilterLogs pub checker proxy feeTokenAddress msg v =
     (let block = fst (parse (Payload msg)) in
      then_ack msg
       (if BloomLookup C (sb_Bloom block) (big_Bytes spendTopic)
        then with_logs FilterLogs (spend_query (sb_Number block)) msg
               (spend_logs enc pub checker proxy feeTokenAddress msg {}) v
        else Ret (Handled v)))"

section \<open>Multisig and affiliates\<close>

definition multisig_query :: "int \<Rightarrow> int option \<Rightarrow> filter_query" where
  "multisig_query multisigAddress number =
     \<lparr>q_From = number, q_To = number, q_Addresses = [BigToAddress multisigAddress], q_Topics = [[], [], []]\<rparr>"

text \<open>The multisig consumer only logs; \<open>alert\<close> is that line of the log.\<close>

definition multisigBlockConsumer_Consume ::
  "crypto \<Rightarrow> block_parse \<Rightarrow> 'v log_filter \<Rightarrow> (bytes \<Rightarrow> 'v \<Rightarrow> 'v) \<Rightarrow> int \<Rightarrow> 'v delivery \<Rightarrow> 'v \<Rightarrow> 'v handled go"
where
  "multisigBlockConsumer_Consume C parse FilterLogs alert multisigAddress msg v =
     (let block = fst (parse (Payload msg)) in
      then_ack msg
       (if BloomLookup C (sb_Bloom block) (big_Bytes multisigAddress)
        then with_logs FilterLogs (multisig_query multisigAddress (sb_Number block)) msg
               (\<lambda>logs v. Ret (Handled (if logs \<noteq> [] then alert (sb_Hash block) v else v))) v
        else Ret (Handled v)))"

definition affiliateTopic :: int where
  "affiliateTopic = 0x60dad0d232381238c031553102e3a2d779bda5a9507ec806820542b3da2801eb"

definition affiliate_query :: "int \<Rightarrow> int option \<Rightarrow> filter_query" where
  "affiliate_query signup number =
     \<lparr>q_From = number, q_To = number, q_Addresses = [BigToAddress signup],
      q_Topics = [[BigToHash affiliateTopic]]\<rparr>"

text \<open>\<open>Set\<close> is that of the affiliate service, for a new affiliate with 100 percent of the fee.\<close>

definition affiliate_log ::
  "(address \<Rightarrow> 'v \<Rightarrow> err option \<times> 'v) \<Rightarrow> 'v delivery \<Rightarrow> event_log \<Rightarrow> 'v \<Rightarrow> 'v handled go"
where
  "affiliate_log Set msg l v =
     go_map (\<lambda>address. case Set (go_copy zero_address address) v of
               (None, v') \<Rightarrow> Handled v'
             | (Some e, v') \<Rightarrow> Fatal e (snd (Return msg v'))) (go_slice (l_Data l) 12 32)"

definition affiliateBlockConsumer_Consume ::
  "crypto \<Rightarrow> block_parse \<Rightarrow> 'v log_filter \<Rightarrow> (address \<Rightarrow> 'v \<Rightarrow> err option \<times> 'v) \<Rightarrow> int
     \<Rightarrow> 'v delivery \<Rightarrow> 'v \<Rightarrow> 'v handled go"
where
  "affiliateBlockConsumer_Consume C parse FilterLogs Set signup msg v =
     (let block = fst (parse (Payload msg)) in
      then_ack msg
       (if BloomLookup C (sb_Bloom block) (big_Bytes signup) \<and>
           BloomLookup C (sb_Bloom block) (big_Bytes affiliateTopic)
        then with_logs FilterLogs (affiliate_query signup (sb_Number block)) msg
               (each_log (affiliate_log Set msg)) v
        else Ret (Handled v)))"

section \<open>What the monitors see\<close>

text \<open>The node at a block: the matching logs of the block.\<close>

definition block_logs :: "event_log list \<Rightarrow> 'v log_filter" where
  "block_logs logs q v = Inr (filter (log_matches q) logs)"

text \<open>The contract of a monitor's look into the bloom filter: when a block has a log that the
  query asks for and the monitor reports, its filter makes the block relevant.\<close>

locale log_monitor =
  fixes C :: crypto and relevant :: "bytes \<Rightarrow> bool" and query :: "int option \<Rightarrow> filter_query"
    and reports :: "event_log \<Rightarrow> bool"
  assumes sees: "l \<in> set logs \<Longrightarrow> log_matches (query n) l \<Longrightarrow> reports l \<Longrightarrow>
    relevant (BytesToBloom (LogsBloom C logs))"
begin

lemma nothing_missed:
  assumes "\<forall>l \<in> set logs. log_matches (query n) l \<longrightarrow> g l \<noteq> None \<longrightarrow> reports l"
    and "\<not> relevant (BytesToBloom (LogsBloom C logs))"
  shows "List.map_filter g (filter (log_matches (query n)) logs) = []"
proof -
  have "\<forall>l \<in> set (filter (log_matches (query n)) logs). g l = None" using assms sees by fastforce
  then show ?thesis by (induction logs) (auto simp: List.map_filter_simps split: if_splits)
qed

lemma publishes:
  assumes b: "sb_Bloom block = BytesToBloom (LogsBloom C logs)"
    and g: "\<forall>l \<in> set logs. log_matches (query n) l \<longrightarrow>
      payload_of l = Ret (g l) \<and> (g l \<noteq> None \<longrightarrow> reports l)"
  shows "then_ack (trace_delivery p)
      (if relevant (sb_Bloom block)
       then with_logs (block_logs logs) (query n) (trace_delivery p)
              (each_log (publish_log (trace_publisher k) payload_of)) t
       else Ret (Handled t)) =
    Ret (Handled (t @ map (Published k) (List.map_filter g (filter (log_matches (query n)) logs)) @ [Acked]))"
proof -
  have e: "each_log (publish_log (trace_publisher k) payload_of) (filter (log_matches (query n)) logs) t =
      Ret (Handled (t @ map (Published k) (List.map_filter g (filter (log_matches (query n)) logs))))"
    using g by (intro each_publish_log) auto
  have "\<not> relevant (sb_Bloom block) \<Longrightarrow> List.map_filter g (filter (log_matches (query n)) logs) = []"
    using g b nothing_missed [of logs n g] by auto
  with e show ?thesis by (simp add: then_ack_def with_logs_def block_logs_def)
qed

end

text \<open>Numbers without leading zero bytes are looked up as the node hashed them.\<close>

lemma big_Bytes_topic:
  assumes "256 ^ 31 \<le> n" and "n < (256 :: int) ^ 32"
  shows "big_Bytes n = BigToHash n"
proof -
  let ?b = "be_bytes 32 (nat n)"
  have n: "nat n mod 256 ^ 32 = nat n" using assms by (simp add: nat_less_iff)
  have "hd ?b \<noteq> 0"
  proof
    assume h: "hd ?b = 0"
    obtain x xs where x: "?b = x # xs" by (cases ?b) (auto dest: arg_cong [of _ _ length])
    then have "length xs = 31" using length_be_bytes [of 32 "nat n"] by (simp add: x)
    then have "be_nat ?b < 256 ^ 31" using h be_nat_less [of xs] x by (simp add: be_nat_Cons)
    then show False using assms n by (simp only: be_nat_be_bytes) (simp add: nat_less_iff)
  qed
  then have "min_bytes (be_nat ?b) = ?b" by (intro min_bytes_be_nat) simp
  moreover have "be_nat ?b = nat n" using n by simp
  ultimately show ?thesis using assms by (simp add: big_Bytes_def BigToHash_def)
qed

lemma topic_Bytes [simp]:
  "big_Bytes fillTopic = BigToHash fillTopic" "big_Bytes cancelTopic = BigToHash cancelTopic"
  "big_Bytes cancelUpToTopic = BigToHash cancelUpToTopic" "big_Bytes approvalTopic = BigToHash approvalTopic"
  "big_Bytes approveAllTopic = BigToHash approveAllTopic" "big_Bytes spendTopic = BigToHash spendTopic"
  "big_Bytes affiliateTopic = BigToHash affiliateTopic"
  by (rule big_Bytes_topic;
      simp add: fillTopic_def cancelTopic_def cancelUpToTopic_def approvalTopic_def approveAllTopic_def
        spendTopic_def affiliateTopic_def)+

lemma topics_match_Cons:
  "topics_match (w # ws) ts \<longleftrightarrow> (\<exists>t ts'. ts = t # ts' \<and> (w = [] \<or> t \<in> set w) \<and> topics_match ws ts')"
  by (cases ts) auto

lemma sees_address:
  "l \<in> set logs \<Longrightarrow> l_Address l = x \<Longrightarrow> BloomLookup C (BytesToBloom (LogsBloom C logs)) x"
  using bloom_complete [of l logs x C] by simp

lemma sees_topic:
  "l \<in> set logs \<Longrightarrow> t \<in> set (l_Topics l) \<Longrightarrow> BloomLookup C (BytesToBloom (LogsBloom C logs)) t"
  using bloom_complete [of l logs t C] by simp

interpretation cancel_monitor: log_monitor C
  "\<lambda>bin. BloomLookup C bin (big_Bytes cancelUpToTopic) \<and> BloomLookup C bin (big_Bytes a)"
  "cancel_query a" "\<lambda>l. big_Bytes a = BigToAddress a" for C a
  by unfold_locales
     (auto simp: cancel_query_def log_matches_def topics_match_Cons intro: sees_address sees_topic)

interpretation allowance_monitor: log_monitor C
  "\<lambda>bin. BloomLookup C bin (big_Bytes approvalTopic) \<and> BloomLookup C bin (BigToHash proxy)"
  "allowance_query proxy" "\<lambda>l. True" for C proxy
  by unfold_locales
     (auto simp: allowance_query_def log_matches_def topics_match_Cons intro: sees_topic)

interpretation approval_monitor: log_monitor C
  "\<lambda>bin. BloomLookup C bin (big_Bytes approvalTopic) \<or>
     (BloomLookup C bin (big_Bytes approveAllTopic) \<and> BloomLookup C bin (big_Bytes proxy))"
  "erc721_query" "\<lambda>l. hd (l_Topics l) = BigToHash approvalTopic" for C proxy
  by unfold_locales
     (auto simp: erc721_query_def log_matches_def topics_match_Cons intro: sees_topic)

section \<open>What the cancel monitor publishes\<close>

definition cancel_row :: "event_log \<Rightarrow> cancellation_row" where
  "cancel_row l = \<lparr>cr_Maker = drop 12 (l_Topics l ! 1), cr_Sender = drop 12 (l_Topics l ! 2), cr_Epoch = l_Data l\<rparr>"

definition cancel_events :: "int \<Rightarrow> int option \<Rightarrow> event_log list \<Rightarrow> event_log list" where
  "cancel_events exchangeAddress n logs =
     filter (\<lambda>l. length (l_Data l) = 32) (filter (log_matches (cancel_query exchangeAddress n)) logs)"

lemma cancel_query_topics:
  "log_matches (cancel_query a n) l \<Longrightarrow> 3 \<le> length (l_Topics l)"
  by (auto simp: cancel_query_def log_matches_def topics_match_Cons)

lemma cancellation_of_log_row:
  assumes "3 \<le> length (l_Topics l)" and "\<forall>x \<in> set (l_Topics l). length x = 32"
  shows "cancellation_of_log l = Ret (if length (l_Data l) = 32 then Some (cancel_row l) else None)"
proof -
  have "length (l_Topics l ! i) = 32" if "i < 3" for i using assms that by (simp add: order_less_le_trans)
  then have "length (l_Topics l ! 1) = 32" "length (l_Topics l ! 2) = 32" by simp_all
  then show ?thesis
    using assms(1) by (auto simp: cancellation_of_log_def go_index_def go_slice_def cancel_row_def go_copy_same_length zero_uint256_def)
qed

lemma map_filter_if: "List.map_filter (\<lambda>x. if P x then Some (f x) else None) xs = map f (filter P xs)"
  by (induction xs) (simp_all add: List.map_filter_simps)

text \<open>A block's cancellations are published one by one, in order, and the block is acknowledged.\<close>

lemma cancel_monitor_publishes:
  assumes bloom: "sb_Bloom (fst (parse p)) = BytesToBloom (LogsBloom C logs)"
    and a: "big_Bytes a = BigToAddress a"
    and topics: "\<forall>l \<in> set logs. \<forall>x \<in> set (l_Topics l). length x = 32"
  shows "cancelBlockConsumer_Consume C enc parse (block_logs logs) (trace_publisher k) a (trace_delivery p) t =
    Ret (Handled (t @ map (\<lambda>l. Published k (enc (json_of_cancellation (cancel_row l))))
      (cancel_events a (sb_Number (fst (parse p))) logs) @ [Acked]))"
proof -
  let ?g = "\<lambda>l. if length (l_Data l) = 32 then Some (enc (json_of_cancellation (cancel_row l))) else None"
  have "go_map (map_option (\<lambda>c. enc (json_of_cancellation c))) (cancellation_of_log l) = Ret (?g l)"
    if "l \<in> set logs" "log_matches (cancel_query a (sb_Number (fst (parse p)))) l" for l
    using that topics cancellation_of_log_row [OF cancel_query_topics] by simp
  then have "\<forall>l \<in> set logs. log_matches (cancel_query a (sb_Number (fst (parse p)))) l \<longrightarrow>
      go_map (map_option (\<lambda>c. enc (json_of_cancellation c))) (cancellation_of_log l) = Ret (?g l) \<and>
      (?g l \<noteq> None \<longrightarrow> big_Bytes a = BigToAddress a)" using a by blast
  from cancel_monitor.publishes [OF bloom this]
  show ?thesis
    by (simp add: cancelBlockConsumer_Consume_def Let_def cancel_events_def map_filter_if comp_def)
qed

end
