(* ===== verification/Http.thy ===== *)
theory Http
  imports Json
begin

text \<open>
  What the HTTP handlers use of \<open>net/http\<close>: the request they read and the response they write. A
  header that is set after the status has been written is not sent, and a second status is ignored.
\<close>

section \<open>Requests\<close>

text \<open>\<open>rq_Read n\<close> is what the first \<open>Body.Read\<close> into a buffer of \<open>n\<close> bytes delivers (at most \<open>n\<close> bytes
  of the body, perhaps fewer) with its error, \<open>rq_All\<close> what \<open>ioutil.ReadAll\<close> delivers; \<open>rq_Query\<close> the
  decoded query in order.\<close>

record request =
  rq_Method :: string
  rq_Path :: string
  rq_Header :: "string \<Rightarrow> string list option"
  rq_Query :: "(string \<times> string) list"
  rq_Read :: "nat \<Rightarrow> bytes \<times> err option"
  rq_All :: "bytes \<times> err option"

definition io_EOF :: err where "io_EOF = ''EOF''"

text \<open>\<open>err != nil && err != io.EOF\<close>.\<close>

definition read_failed :: "err option \<Rightarrow> bool" where
  "read_failed e = (e \<noteq> None \<and> e \<noteq> Some io_EOF)"

text \<open>The media type of a header: the part of its first value before a semicolon.\<close>

definition media_type :: "string \<Rightarrow> request \<Rightarrow> string option go" where
  "media_type name r =
     (case rq_Header r name of
        None \<Rightarrow> Ret None
      | Some vs \<Rightarrow> go_map (\<lambda>v. Some (hd (split_on CHR '';'' v))) (go_index vs 0))"

text \<open>\<open>Values.Get\<close> and the presence of a key.\<close>

definition query_get :: "request \<Rightarrow> string \<Rightarrow> string" where
  "query_get r k = (case map_of (rq_Query r) k of None \<Rightarrow> [] | Some v \<Rightarrow> v)"

text \<open>\<open>Header.Get\<close>.\<close>

definition header_get :: "request \<Rightarrow> string \<Rightarrow> string" where
  "header_get r k = (case rq_Header r k of Some (v # vs) \<Rightarrow> v | _ \<Rightarrow> [])"

section \<open>Responses\<close>

record response =
  resp_status :: "nat option"
  resp_header :: "string \<rightharpoonup> string"
  resp_sent :: "string \<rightharpoonup> string"
  resp_body :: string

definition new_response :: response where
  "new_response = \<lparr>resp_status = None, resp_header = Map.empty, resp_sent = Map.empty, resp_body = []\<rparr>"

definition set_header :: "string \<Rightarrow> string \<Rightarrow> response \<Rightarrow> response" where
  "set_header k v w = w\<lparr>resp_header := (resp_header w)(k \<mapsto> v)\<rparr>"

definition WriteHeader :: "nat \<Rightarrow> response \<Rightarrow> response" where
  "WriteHeader status w =
     (if resp_status w = None then w\<lparr>resp_status := Some status, resp_sent := resp_header w\<rparr> else w)"

definition write_body :: "string \<Rightarrow> response \<Rightarrow> response" where
  "write_body b w = (let w' = WriteHeader 200 w in w'\<lparr>resp_body := resp_body w' @ b\<rparr>)"

definition content_json :: "response \<Rightarrow> response" where
  "content_json = set_header ''Content-Type'' ''application/json''"

lemmas response_defs = new_response_def set_header_def WriteHeader_def write_body_def content_json_def

text \<open>Whatever a handler writes later, the first status and the headers it had then stay.\<close>

lemma first_status_stays:
  "resp_status w = Some s \<Longrightarrow> resp_status (WriteHeader t w) = Some s"
  "resp_status w = Some s \<Longrightarrow> resp_sent (WriteHeader t w) = resp_sent w"
  "resp_status w = Some s \<Longrightarrow> resp_sent (write_body b w) = resp_sent w"
  "resp_status w = Some s \<Longrightarrow> resp_sent (set_header k v w) = resp_sent w"
  by (simp_all add: response_defs Let_def)

section \<open>Error replies\<close>

text \<open>\<open>IngestError\<close> of the ingest and search handlers and \<open>zeroex.Error\<close> of the API: a code, a reason
  and the validation errors, which are omitted when there are none.\<close>

record validation_error =
  ve_Field :: string
  ve_Code :: int
  ve_Reason :: string

record http_error =
  he_Code :: int
  he_Reason :: string
  he_Validation :: "validation_error list"

definition json_of_validation_error :: "validation_error \<Rightarrow> json" where
  "json_of_validation_error v =
     JObject [(''field'', JString (ve_Field v)), (''code'', JNumber (big_String (ve_Code v))),
              (''reason'', JString (ve_Reason v))]"

definition json_of_http_error :: "http_error \<Rightarrow> json" where
  "json_of_http_error e =
     JObject ([(''code'', JNumber (big_String (he_Code e))), (''reason'', JString (he_Reason e))] @
       (if he_Validation e = [] then []
        else [(''validationErrors'', JArray (map json_of_validation_error (he_Validation e)))]))"

type_synonym json_enc = "json \<Rightarrow> string"

definition returnError :: "json_enc \<Rightarrow> http_error \<Rightarrow> nat \<Rightarrow> response \<Rightarrow> response" where
  "returnError enc errResp status w =
     write_body (enc (json_of_http_error errResp)) (WriteHeader status (content_json w))"

lemma returnError_status [simp]:
  "resp_status (returnError enc e s new_response) = Some s"
  "resp_sent (returnError enc e s new_response) ''Content-Type'' = Some ''application/json''"
  by (simp_all add: returnError_def response_defs)

text \<open>A refusal: the error of a handler that ends early, with its status.\<close>

type_synonym refusal = "http_error \<times> nat"

definition failed :: "int \<Rightarrow> string \<Rightarrow> nat \<Rightarrow> refusal" where
  "failed code reason status = (\<lparr>he_Code = code, he_Reason = reason, he_Validation = []\<rparr>, status)"

definition invalid :: "string \<Rightarrow> int \<Rightarrow> string \<Rightarrow> nat \<Rightarrow> refusal" where
  "invalid field code reason status =
     (\<lparr>he_Code = 100, he_Reason = ''Validation Failed'',
       he_Validation = [\<lparr>ve_Field = field, ve_Code = code, ve_Reason = reason\<rparr>]\<rparr>, status)"

text \<open>The first refusal of a list of checks that are made in order; a check may panic.\<close>

fun first_refusal :: "(unit \<Rightarrow> 'r option go) list \<Rightarrow> 'r option go" where
  "first_refusal [] = Ret None"
| "first_refusal (c # cs) =
     go_bind (c ()) (\<lambda>r. case r of None \<Rightarrow> first_refusal cs | Some x \<Rightarrow> Ret (Some x))"

lemma first_refusal_None:
  "first_refusal cs = Ret None \<longleftrightarrow> (\<forall>c\<in>set cs. c () = Ret None)"
  by (induction cs) (auto simp: go_bind_eq_Ret split: option.splits)

end
