(* ===== verification/Pools.thy ===== *)
theory Pools
  imports Http Config Orders OrderRlp EventLogs Signatures
begin

text \<open>
  Order pools (\<open>pool/pool.go\<close>): the pool of a request, its fee and its filter contract
  (\<open>pool/filter_contract.go\<close>), and the relay filter of \<open>cmd/poolfilter\<close>.
\<close>

section \<open>Pools\<close>

text \<open>A call of a contract: \<open>CallContract\<close> of the node.\<close>

record call_msg =
  cm_From :: address
  cm_To :: address
  cm_Gas :: int
  cm_GasPrice :: int
  cm_Value :: int
  cm_Data :: bytes

type_synonym contract_caller = "call_msg \<Rightarrow> bytes \<times> err option"

type_synonym 'w base_fee_get = "'w \<Rightarrow> (err + int option) \<times> 'w"

record 'w pool =
  SearchTerms :: string
  pool_Expiration :: nat
  pool_Nonce :: nat
  FeeShare :: string
  pool_ID :: bytes
  pool_Limit :: nat
  SenderAddresses :: network_map
  FilterAddresses :: network_map
  pool_conn :: "contract_caller option"
  pool_baseFee :: "'w base_fee_get option"

definition empty_pool :: "'w pool" where
  "empty_pool =
     \<lparr>SearchTerms = [], pool_Expiration = 0, pool_Nonce = 0, FeeShare = [], pool_ID = [], pool_Limit = 0,
      SenderAddresses = Map.empty, FilterAddresses = Map.empty, pool_conn = None, pool_baseFee = None\<rparr>"

definition SetConn :: "contract_caller \<Rightarrow> 'w pool \<Rightarrow> 'w pool" where
  "SetConn conn pool = pool\<lparr>pool_conn := Some conn\<rparr>"

definition SetBaseFee :: "'w base_fee_get \<Rightarrow> 'w pool \<Rightarrow> 'w pool" where
  "SetBaseFee baseFee pool = pool\<lparr>pool_baseFee := Some baseFee\<rparr>"

section \<open>The filter contract\<close>

definition round_up_32 :: "nat \<Rightarrow> nat" where
  "round_up_32 n = (n div 32 + (if n mod 32 > 0 then 1 else 0)) * 32"

definition filter_selector :: bytes where "filter_selector = [128, 0, 25, 52]"

definition padded_asset :: "asset_data \<Rightarrow> bytes" where
  "padded_asset d = go_copy (zero_bytes (round_up_32 (length d))) d"

definition filter_calldata :: "bytes \<Rightarrow> order \<Rightarrow> bytes go" where
  "filter_calldata poolID ord =
     go_bind (deref (Maker ord)) (\<lambda>maker. go_bind (deref (Taker ord)) (\<lambda>taker.
     go_bind (deref (FeeRecipient ord)) (\<lambda>feeRecipient. go_bind (deref (SenderAddress ord)) (\<lambda>sender.
     go_bind (deref (MakerAssetAmount ord)) (\<lambda>makerAmount. go_bind (deref (TakerAssetAmount ord)) (\<lambda>takerAmount.
     go_bind (deref (MakerFee ord)) (\<lambda>makerFee. go_bind (deref (TakerFee ord)) (\<lambda>takerFee.
     go_bind (deref (ExpirationTimestampInSec ord)) (\<lambda>expiration. go_bind (deref (Salt ord)) (\<lambda>salt.
       let twelve = zero_bytes 12;
           makerAssetDataOffset = 384;
           makerAssetDataLength = round_up_32 (length (MakerAssetData ord));
           takerAssetDataOffset = makerAssetDataOffset + 32 + makerAssetDataLength;
           takerAssetDataLength = round_up_32 (length (TakerAssetData ord))
       in Ret (filter_selector @ poolID @ (zero_bytes 31 @ [64]) @
            twelve @ maker @ twelve @ taker @ twelve @ feeRecipient @ twelve @ sender @
            makerAmount @ takerAmount @ makerFee @ takerFee @ expiration @ salt @
            BigToUint256 (int makerAssetDataOffset) @ BigToUint256 (int takerAssetDataOffset) @
            BigToUint256 (int makerAssetDataLength) @ padded_asset (MakerAssetData ord) @
            BigToUint256 (int takerAssetDataLength) @ padded_asset (TakerAssetData ord))))))))))))"

text \<open>\<open>FilterContract.Filter\<close>: an error of the call comes with the answer that the empty result
  gives.\<close>

definition FilterContract_Filter ::
  "address \<Rightarrow> contract_caller \<Rightarrow> bytes \<Rightarrow> order \<Rightarrow> (bool \<times> err option) go"
where
  "FilterContract_Filter addr conn poolID ord =
     (if length poolID \<noteq> 32
      then Ret (False, Some (''Expected poolID to be 32 bytes, got '' @ dec_string (length poolID)))
      else go_bind (filter_calldata poolID ord) (\<lambda>encoding.
           go_bind (deref addr) (\<lambda>target. go_map (\<lambda>maker.
             case conn \<lparr>cm_From = maker, cm_To = target, cm_Gas = 1000000, cm_GasPrice = 1, cm_Value = 0,
                        cm_Data = encoding\<rparr> of
               (result, e) \<Rightarrow> (result \<noteq> zero_bytes 32, e)) (deref (Maker ord)))))"

definition CheckFilter :: "order \<Rightarrow> nat \<Rightarrow> 'w pool \<Rightarrow> (bool \<times> err option) go" where
  "CheckFilter ord networkid pool =
     (if FilterAddresses pool = Map.empty then Ret (True, None)
      else (case FilterAddresses pool networkid of
              None \<Rightarrow> Ret (False, None)
            | Some a \<Rightarrow>
                go_bind (deref a) (\<lambda>filterAddress.
                  if filterAddress = zero_bytes 20 then Ret (True, None)
                  else (case pool_conn pool of
                          None \<Rightarrow> Ret (False, Some ''No connection set on pool'')
                        | Some conn \<Rightarrow> FilterContract_Filter filterAddress conn (pool_ID pool) ord))))"

section \<open>The fee of a pool\<close>

definition feeBaseUnits :: int where "feeBaseUnits = 1000000000000000000"

text \<open>\<open>Fee\<close>: the base fee when the share is not a number. A base fee that is the nil pointer is
  returned as it is.\<close>

definition Pool_Fee :: "'w pool \<Rightarrow> 'w \<Rightarrow> ((err + int option) \<times> 'w) go" where
  "Pool_Fee pool v =
     (case pool_baseFee pool of
        None \<Rightarrow> Panic NilDereference
      | Some get \<Rightarrow>
          (case get v of
             (Inl e, v') \<Rightarrow> Ret (Inl e, v')
           | (Inr baseFee, v') \<Rightarrow>
               (case big_SetString (FeeShare pool) of
                  None \<Rightarrow> Ret (Inr baseFee, v')
                | Some feeShare \<Rightarrow>
                    go_map (\<lambda>fee. (Inr (Some ((fee * feeShare) div feeBaseUnits)), v')) (deref_int baseFee))))"

section \<open>The pool of a request\<close>

text \<open>\<open>poolRegex\<close>, \<open>^(/[^/]*)?PREFIX\<close> with a prefix that starts with a slash: the text of its group,
  when the path matches. The group is one path segment and is tried first.\<close>

definition pool_match :: "string \<Rightarrow> string \<Rightarrow> string option" where
  "pool_match prefix path =
     (case path of
        [] \<Rightarrow> None
      | c # rest \<Rightarrow>
          if c = CHR ''/'' \<and> has_prefix (dropWhile (\<lambda>x. x \<noteq> CHR ''/'') rest) prefix
          then Some (CHR ''/'' # takeWhile (\<lambda>x. x \<noteq> CHR ''/'') rest)
          else if has_prefix path prefix then Some [] else None)"

text \<open>The row of a pool, by the hash of its name; an error leaves the empty pool.\<close>

type_synonym 'w pool_first = "bytes \<Rightarrow> 'w \<Rightarrow> err + 'w pool"

definition pool_by_name :: "crypto \<Rightarrow> 'w pool_first \<Rightarrow> string \<Rightarrow> 'w \<Rightarrow> err + 'w pool" where
  "pool_by_name C First poolName v =
     (case First (keccak256 C (bytes_of_string poolName)) v of
        Inr pool \<Rightarrow> Inr pool
      | Inl e \<Rightarrow> if poolName \<noteq> [] then Inl e else Inr empty_pool)"

definition pool_not_found :: "string \<Rightarrow> response \<Rightarrow> response" where
  "pool_not_found reason w =
     write_body (''{\"code\":102,\"reason\":\"'' @ reason @ ''\"}'') (content_json (WriteHeader 404 w))"

type_synonym ('w, 'p) pool_handler = "response \<Rightarrow> request \<Rightarrow> 'p \<Rightarrow> 'w \<Rightarrow> (response \<times> 'w) go"

definition PoolDecorator ::
  "crypto \<Rightarrow> 'w pool_first \<Rightarrow> ('w, 'w pool) pool_handler \<Rightarrow> response \<Rightarrow> request \<Rightarrow> 'w \<Rightarrow> (response \<times> 'w) go"
where
  "PoolDecorator C First fn w r v =
     (case pool_match ''/v2/'' (rq_Path r) of
        Some m \<Rightarrow>
          (case pool_by_name C First (trim_prefix m ''/'') v of
             Inl e \<Rightarrow> Ret (pool_not_found (''Pool Not Found: '' @ e) w, v)
           | Inr pool \<Rightarrow> fn w r pool v)
      | None \<Rightarrow> Ret (pool_not_found ''Not Found'' w, v))"

definition PoolDecoratorBaseFee ::
  "crypto \<Rightarrow> 'w pool_first \<Rightarrow> 'w base_fee_get \<Rightarrow> ('w, 'w pool) pool_handler
     \<Rightarrow> response \<Rightarrow> request \<Rightarrow> 'w \<Rightarrow> (response \<times> 'w) go"
where
  "PoolDecoratorBaseFee C First baseFee fn w r v =
     (case pool_match ''/v2/'' (rq_Path r) of
        Some m \<Rightarrow>
          (case pool_by_name C First (trim_prefix m ''/'') v of
             Inl e \<Rightarrow> Ret (pool_not_found (''Pool Not Found: '' @ e) w, v)
           | Inr pool \<Rightarrow> fn w r (SetBaseFee baseFee pool) v)
      | None \<Rightarrow> Ret (pool_not_found ''Not Found'' w, v))"

section \<open>The relay filter of pools\<close>

text \<open>\<open>cmd/poolfilter\<close>: the pools that were read are kept by their printed id. Nothing assigns the
  network id of the filter, which stays 0. A pool that cannot be read ends the process, as does an
  error of its contract, after the delivery was returned.\<close>

record 'w pool_filter =
  pf_conn :: contract_caller
  pf_networkID :: nat
  poolCache :: "string \<rightharpoonup> 'w pool"

definition PoolFilter_Filter ::
  "crypto \<Rightarrow> 'w pool_first \<Rightarrow> 'w delivery \<Rightarrow> 'w pool_filter \<Rightarrow> 'w \<Rightarrow> (bool \<times> 'w pool_filter \<times> 'w) handled go"
where
  "PoolFilter_Filter C First delivery flt v =
     (case OrderFromBytes (bytes_of_string (Payload delivery)) of
        (ord, Some e) \<Rightarrow> Ret (Handled (False, flt, v))
      | (ord, None) \<Rightarrow>
          go_bind (Order_Hash C ord) (\<lambda>h. go_bind (Signature_Verify C (Signature ord) (Maker ord) h) (\<lambda>ok.
            if \<not> ok then Ret (Handled (False, flt, v))
            else (case (case poolCache flt (sprintf_hex (PoolID ord)) of
                          Some pool \<Rightarrow> Inr pool
                        | None \<Rightarrow> (case First (PoolID ord) v of Inl e \<Rightarrow> Inl e | Inr pool \<Rightarrow> Inr (SetConn (pf_conn flt) pool))) of
                    Inl e \<Rightarrow> Ret (Fatal (''Error getting pool: '' @ sprintf_hex (PoolID ord) @ '' - Error: '' @ e) (False, flt, v))
                  | Inr pool \<Rightarrow>
                      let flt' = flt\<lparr>poolCache := (poolCache flt)(sprintf_hex (PoolID ord) \<mapsto> pool)\<rparr> in
                      go_map (\<lambda>(valid, e).
                        case e of
                          None \<Rightarrow> Handled (valid, flt', v)
                        | Some x \<Rightarrow> Fatal (''Error filtering order: '' @ x) (valid, flt', snd (Return delivery v)))
                        (CheckFilter ord (pf_networkID flt) pool)))))"

section \<open>The call data of the filter contract\<close>

text \<open>The contract ABI's encoding of a tuple: words in place, byte strings as an offset into the part
  after the heads, where their length and their padded bytes are.\<close>

datatype abi_value = AbiWord bytes | AbiBytes bytes

fun abi_tail :: "abi_value \<Rightarrow> bytes" where
  "abi_tail (AbiWord w) = []"
| "abi_tail (AbiBytes b) = abi_U256 (int (length b)) @ b @ zero_bytes ((32 - length b mod 32) mod 32)"

fun abi_heads :: "nat \<Rightarrow> abi_value list \<Rightarrow> bytes" where
  "abi_heads off [] = []"
| "abi_heads off (AbiWord w # vs) = w @ abi_heads off vs"
| "abi_heads off (AbiBytes b # vs) = abi_U256 (int off) @ abi_heads (off + length (abi_tail (AbiBytes b))) vs"

definition abi_tuple :: "abi_value list \<Rightarrow> bytes" where
  "abi_tuple vs = abi_heads (32 * length vs) vs @ concat (map abi_tail vs)"

text \<open>The order as the contract's struct.\<close>

definition abi_order :: "order \<Rightarrow> abi_value list" where
  "abi_order ord =
     map (\<lambda>f. AbiWord (zero_bytes 12 @ f ord)) [Maker, Taker, FeeRecipient, SenderAddress] @
     map (\<lambda>f. AbiWord (f ord)) [MakerAssetAmount, TakerAssetAmount, MakerFee, TakerFee, ExpirationTimestampInSec, Salt] @
     [AbiBytes (MakerAssetData ord), AbiBytes (TakerAssetData ord)]"

definition pad_assets :: "order \<Rightarrow> order" where
  "pad_assets ord = ord\<lparr>MakerAssetData := padded_asset (MakerAssetData ord), TakerAssetData := padded_asset (TakerAssetData ord)\<rparr>"

lemma round_up_32_padding: "round_up_32 n = n + (32 - n mod 32) mod 32"
proof (cases "n mod 32 = 0")
  case True
  then show ?thesis by (auto simp: round_up_32_def)
next
  case False
  then have "(32 - n mod 32) mod 32 = 32 - n mod 32" by simp
  moreover have "n div 32 * 32 + n mod 32 = n" "n mod 32 < 32" by (rule div_mult_mod_eq) simp
  then have "n div 32 * 32 + 32 = n + (32 - n mod 32)" by linarith
  ultimately show ?thesis using False by (simp add: round_up_32_def)
qed

lemma padded_asset_eq: "padded_asset d = d @ zero_bytes ((32 - length d mod 32) mod 32)"
  by (simp add: padded_asset_def round_up_32_padding go_copy_def zero_bytes_def replicate_add)

lemma length_padded_asset: "length (padded_asset d) = round_up_32 (length d)"
  by (simp add: padded_asset_eq round_up_32_padding)

lemma round_up_32_mod: "round_up_32 n mod 32 = 0"
  by (simp add: round_up_32_def)

lemma BigToUint256_eq: "BigToUint256 n = abi_U256 n"
  by (simp add: BigToUint256_def go_copy_same_length)

lemma abi_tail_padded: "abi_tail (AbiBytes (padded_asset d)) = abi_U256 (int (round_up_32 (length d))) @ padded_asset d"
  by (simp add: length_padded_asset round_up_32_mod zero_bytes_def)

lemma abi_U256_64: "abi_U256 64 = zero_bytes 31 @ [64]"
proof -
  have "abi_U256 (int (be_nat (zero_bytes 31 @ [64]))) = zero_bytes 31 @ [64]" by (rule abi_U256_of_be_nat) simp
  then show ?thesis by (simp add: be_nat_append)
qed



end
