(* ===== verification/Exchanges.thy ===== *)
theory Exchanges
  imports FundConsumers
begin

text \<open>
  The exchanges that are supported (\<open>db/exchange.go\<close>): a lookup in both directions with a cache for
  each. And the splitter that relays orders by exchange or maker (\<open>splitter/exchange.go\<close>).
\<close>

section \<open>The exchange table\<close>

record exchange_row =
  ex_Address :: address
  ex_Network :: nat

record exchange_lookup =
  byAddressCache :: "address \<rightharpoonup> nat"
  byNetworkCache :: "nat \<rightharpoonup> address list"

definition NewExchangeLookup :: exchange_lookup where
  "NewExchangeLookup = \<lparr>byAddressCache = Map.empty, byNetworkCache = Map.empty\<rparr>"

text \<open>The two queries: \<open>Find\<close> by network, \<open>First\<close> by address, over the table \<open>rows\<close> or with an error of
  the database.\<close>

type_synonym exchange_find = "nat \<Rightarrow> err + exchange_row list"
type_synonym exchange_first = "address \<Rightarrow> err + exchange_row"

definition table_find :: "exchange_row list \<Rightarrow> exchange_find" where
  "table_find rows network = Inr (filter (\<lambda>r. ex_Network r = network) rows)"

definition table_first :: "exchange_row list \<Rightarrow> exchange_first" where
  "table_first rows addr =
     (case find (\<lambda>r. ex_Address r = addr) rows of
        None \<Rightarrow> Inl record_not_found
      | Some r \<Rightarrow> Inr r)"

definition GetExchangesByNetwork ::
  "exchange_find \<Rightarrow> nat \<Rightarrow> exchange_lookup \<Rightarrow> (err + address list) \<times> exchange_lookup"
where
  "GetExchangesByNetwork Find network lookup =
     (case byNetworkCache lookup network of
        Some addresses \<Rightarrow> (Inr addresses, lookup)
      | None \<Rightarrow>
          (case Find network of
             Inl e \<Rightarrow> (Inl e, lookup)
           | Inr exchanges \<Rightarrow>
               let addresses = map ex_Address exchanges
               in (Inr addresses, lookup\<lparr>byNetworkCache := (byNetworkCache lookup)(network \<mapsto> addresses)\<rparr>)))"

text \<open>The network and the error, as the code returns both.\<close>

definition GetNetworkByExchange ::
  "exchange_first \<Rightarrow> address \<Rightarrow> exchange_lookup \<Rightarrow> ((nat \<times> err option) \<times> exchange_lookup) go"
where
  "GetNetworkByExchange First addr lookup =
     go_map (\<lambda>a.
       case byAddressCache lookup a of
         Some network \<Rightarrow> ((network, None), lookup)
       | None \<Rightarrow>
           (case First a of
              Inl e \<Rightarrow> ((0, Some e), lookup)
            | Inr exchange \<Rightarrow>
                ((ex_Network exchange, None),
                 lookup\<lparr>byAddressCache := (byAddressCache lookup)(a \<mapsto> ex_Network exchange)\<rparr>)))
       (deref addr)"

text \<open>\<open>ExchangeIsKnown\<close>: 0 stands for an unknown exchange, and for every error.\<close>

definition ExchangeIsKnown :: "exchange_first \<Rightarrow> address \<Rightarrow> exchange_lookup \<Rightarrow> (nat \<times> exchange_lookup) go" where
  "ExchangeIsKnown First addr lookup =
     go_map (\<lambda>((network, e), lookup'). (network, lookup')) (GetNetworkByExchange First addr lookup)"

text \<open>The caches hold what the table holds.\<close>

definition lookup_ok :: "exchange_row list \<Rightarrow> exchange_lookup \<Rightarrow> bool" where
  "lookup_ok rows lookup \<longleftrightarrow>
     (\<forall>a n. byAddressCache lookup a = Some n \<longrightarrow>
        (\<exists>r. table_first rows a = Inr r \<and> ex_Network r = n)) \<and>
     (\<forall>n as. byNetworkCache lookup n = Some as \<longrightarrow>
        as = map ex_Address (filter (\<lambda>r. ex_Network r = n) rows))"

definition network_of :: "exchange_row list \<Rightarrow> address \<Rightarrow> nat" where
  "network_of rows addr = (case table_first rows addr of Inl e \<Rightarrow> 0 | Inr r \<Rightarrow> ex_Network r)"

lemma NewExchangeLookup_ok: "lookup_ok rows NewExchangeLookup"
  by (simp add: lookup_ok_def NewExchangeLookup_def)

lemma ExchangeIsKnown_ok:
  assumes "lookup_ok rows lookup" and "addr \<noteq> []"
  shows "\<exists>lookup'. ExchangeIsKnown (table_first rows) addr lookup = Ret (network_of rows addr, lookup') \<and>
    lookup_ok rows lookup'"
proof (cases "byAddressCache lookup addr")
  case None
  with assms show ?thesis
    by (auto simp: ExchangeIsKnown_def GetNetworkByExchange_def network_of_def lookup_ok_def deref_def
        split: sum.splits)
next
  case (Some n)
  moreover from this assms(1) have "network_of rows addr = n"
    by (force simp: lookup_ok_def network_of_def)
  ultimately show ?thesis
    using assms by (simp add: ExchangeIsKnown_def GetNetworkByExchange_def deref_def)
qed

lemma GetExchangesByNetwork_ok:
  assumes "lookup_ok rows lookup"
  shows "\<exists>lookup'. GetExchangesByNetwork (table_find rows) network lookup =
      (Inr (map ex_Address (filter (\<lambda>r. ex_Network r = network) rows)), lookup') \<and> lookup_ok rows lookup'"
  using assms
  by (auto simp: GetExchangesByNetwork_def table_find_def lookup_ok_def Let_def split: option.splits)

text \<open>Both kinds of lookup, one after the other.\<close>

datatype lookup_call = AskExchange address | AskNetwork nat

datatype lookup_answer = NetworkIs nat | ExchangesAre "err + address list"

fun run_lookup ::
  "exchange_row list \<Rightarrow> lookup_call \<Rightarrow> exchange_lookup \<Rightarrow> (lookup_answer \<times> exchange_lookup) go"
where
  "run_lookup rows (AskExchange a) lookup =
     go_map (\<lambda>(n, l). (NetworkIs n, l)) (ExchangeIsKnown (table_first rows) a lookup)"
| "run_lookup rows (AskNetwork n) lookup =
     (case GetExchangesByNetwork (table_find rows) n lookup of (r, l) \<Rightarrow> Ret (ExchangesAre r, l))"

fun run_lookups ::
  "exchange_row list \<Rightarrow> lookup_call list \<Rightarrow> exchange_lookup \<Rightarrow> (lookup_answer list \<times> exchange_lookup) go"
where
  "run_lookups rows [] lookup = Ret ([], lookup)"
| "run_lookups rows (c # cs) lookup =
     go_bind (run_lookup rows c lookup) (\<lambda>(a, l). go_map (\<lambda>(as, l'). (a # as, l')) (run_lookups rows cs l))"

fun table_answer :: "exchange_row list \<Rightarrow> lookup_call \<Rightarrow> lookup_answer" where
  "table_answer rows (AskExchange a) = NetworkIs (network_of rows a)"
| "table_answer rows (AskNetwork n) =
     ExchangesAre (Inr (map ex_Address (filter (\<lambda>r. ex_Network r = n) rows)))"

lemma run_lookups_ok:
  assumes "lookup_ok rows lookup" and "AskExchange [] \<notin> set cs"
  shows "\<exists>lookup'. run_lookups rows cs lookup = Ret (map (table_answer rows) cs, lookup')"
  using assms
proof (induction cs arbitrary: lookup)
  case (Cons c cs)
  obtain l where "run_lookup rows c lookup = Ret (table_answer rows c, l)" "lookup_ok rows l"
  proof (cases c)
    case (AskExchange a)
    then show ?thesis using that ExchangeIsKnown_ok [OF Cons.prems(1), of a] Cons.prems(2) by auto
  next
    case (AskNetwork n)
    then show ?thesis using that GetExchangesByNetwork_ok [OF Cons.prems(1), of n] by auto
  qed
  moreover from this obtain l' where "run_lookups rows cs l = Ret (map (table_answer rows) cs, l')"
    using Cons by auto
  ultimately show ?case by simp
qed simp

text \<open>C23: the caches of the exchange lookup are transparent: any sequence of lookups answers what the
  exchange table says, an exchange that is not in it being on network 0.\<close>

theorem exchange_lookup_transparent:
  assumes "AskExchange [] \<notin> set cs"
  shows "\<exists>lookup. run_lookups rows cs NewExchangeLookup = Ret (map (table_answer rows) cs, lookup)"
  by (rule run_lookups_ok [OF NewExchangeLookup_ok assms])

theorem exchange_lookup_transparent_witness:
  "\<exists>lookup. run_lookups [\<lparr>ex_Address = zero_address, ex_Network = 42\<rparr>]
      [AskExchange zero_address, AskExchange [1], AskNetwork 42] NewExchangeLookup =
    Ret ([NetworkIs 42, NetworkIs 0, ExchangesAre (Inr [zero_address])], lookup)"
  using exchange_lookup_transparent [of "[AskExchange zero_address, AskExchange [1], AskNetwork 42]"
      "[\<lparr>ex_Address = zero_address, ex_Network = 42\<rparr>]"]
  by (simp add: network_of_def table_first_def zero_address_def zero_bytes_def numeral_eq_Suc)

section \<open>The splitter\<close>

text \<open>\<open>fmt.Sprintf\<close> of an address pointer with \<open>%v\<close> uses its \<open>String\<close> method. \<open>PublisherFromURI\<close> of the
  translator gives a publisher or an error.\<close>

definition AddressSplitterConsumer_Consume ::
  "(string \<Rightarrow> err + 'v publisher) \<Rightarrow> string \<Rightarrow> (order \<Rightarrow> address) \<Rightarrow> 'v delivery \<Rightarrow> 'v \<Rightarrow> 'v go"
where
  "AddressSplitterConsumer_Consume translate suffix attrGetter msg v =
     (if Payload msg = [] then Ret (snd (Ack msg v))
      else (case order_of_payload (Payload msg) of
              (ord, Some e) \<Rightarrow> Ret (snd (Reject msg v))
            | (ord, None) \<Rightarrow>
                go_map (\<lambda>attr.
                  case translate (''queue://'' @ attr @ ''-'' @ suffix) of
                    Inl e \<Rightarrow> snd (Reject msg v)
                  | Inr pub \<Rightarrow> snd (Ack msg (snd (pub (Payload msg) v)))) (Address_String (attrGetter ord))))"

definition NewExchangeSplitterConsumer ::
  "(string \<Rightarrow> err + 'v publisher) \<Rightarrow> string \<Rightarrow> 'v delivery \<Rightarrow> 'v \<Rightarrow> 'v go"
where
  "NewExchangeSplitterConsumer translate suffix =
     AddressSplitterConsumer_Consume translate suffix ExchangeAddress"

definition NewMakerSplitterConsumer ::
  "(string \<Rightarrow> err + 'v publisher) \<Rightarrow> string \<Rightarrow> 'v delivery \<Rightarrow> 'v \<Rightarrow> 'v go"
where
  "NewMakerSplitterConsumer translate suffix = AddressSplitterConsumer_Consume translate suffix Maker"

text \<open>The splitter over a translator that knows a publisher for every URI, numbered by \<open>route\<close>.\<close>

definition splitter_uri :: "string \<Rightarrow> address \<Rightarrow> string" where
  "splitter_uri suffix a = ''queue://'' @ sprintf_hex a @ ''-'' @ suffix"

definition watched_splitter ::
  "(string \<Rightarrow> nat) \<Rightarrow> string \<Rightarrow> (order \<Rightarrow> address) \<Rightarrow> trace delivery \<Rightarrow> trace \<Rightarrow> trace go"
where
  "watched_splitter route suffix attr =
     AddressSplitterConsumer_Consume (\<lambda>uri. Inr (trace_publisher (route uri))) suffix attr"

definition published_to :: "nat \<Rightarrow> trace \<Rightarrow> string list" where
  "published_to n t = List.map_filter (\<lambda>e. case e of Published m p \<Rightarrow> if m = n then Some p else None | _ \<Rightarrow> None) t"

lemma published_to_simps [simp]:
  "published_to n [] = []"
  "published_to n (Published m p # t) = (if m = n then p # published_to n t else published_to n t)"
  "published_to n (Acked # t) = published_to n t"
  "published_to n (Rejected # t) = published_to n t"
  "published_to n (s @ t) = published_to n s @ published_to n t"
  by (simp_all add: published_to_def List.map_filter_def)

lemma Address_String_wf: "length a = 20 \<Longrightarrow> Address_String a = Ret (sprintf_hex a)"
  by (simp add: Address_String_def)

interpretation splitter: settling_consumer "watched_splitter route suffix ExchangeAddress"
  for route suffix
proof
  fix p t
  obtain ord e where o: "order_of_payload p = (ord, e)" by (cases "order_of_payload p")
  show "\<exists>es. watched_splitter route suffix ExchangeAddress (trace_delivery p) t = Ret (t @ es) \<and> settle_count es = 1"
  proof (cases e)
    case (Some x)
    with o show ?thesis by (simp add: watched_splitter_def AddressSplitterConsumer_Consume_def)
  next
    case None
    with o have "wf_order ord" by (simp add: order_of_payload_wf)
    then have "Address_String (ExchangeAddress ord) = Ret (sprintf_hex (ExchangeAddress ord))"
      by (intro Address_String_wf) (simp add: wf_order_def wf_address_def)
    then show ?thesis using o None
      by (simp add: watched_splitter_def AddressSplitterConsumer_Consume_def trace_publisher_def)
  qed
qed

lemma order_payload_not_empty: "order_payload ord \<noteq> []"
proof -
  have "Order_Bytes ord \<noteq> []" by (simp add: Order_Bytes_def rlp_list_def rlp_head_not_Nil)
  then show ?thesis by (simp add: order_payload_def string_of_bytes_def)
qed

lemma splitter_routes_order:
  assumes "sized_order ord" and "length (attr ord) = 20"
  shows "watched_splitter route suffix attr (trace_delivery (order_payload ord)) t =
    Ret (t @ [Published (route (splitter_uri suffix (attr ord))) (order_payload ord), Acked])"
  using assms
  by (simp add: watched_splitter_def AddressSplitterConsumer_Consume_def order_of_order_payload
      Address_String_wf order_payload_not_empty trace_publisher_def splitter_uri_def)

lemma splitter_uri_inj: "splitter_uri suffix a = splitter_uri suffix b \<longleftrightarrow> a = b"
  by (auto simp: splitter_uri_def sprintf_hex_inj)

lemma splitter_batch:
  assumes "inj route"
  shows "\<forall>ord\<in>set ords. sized_order ord \<and> length (attr ord) = 20 \<Longrightarrow>
    \<exists>es. consume_batch (watched_splitter route suffix attr) (map order_payload ords) t = Ret (t @ es) \<and>
      (\<forall>a. published_to (route (splitter_uri suffix a)) es =
         map order_payload (filter (\<lambda>ord. attr ord = a) ords))"
proof (induction ords arbitrary: t)
  case (Cons ord ords)
  let ?t = "[Published (route (splitter_uri suffix (attr ord))) (order_payload ord), Acked]"
  obtain es where "consume_batch (watched_splitter route suffix attr) (map order_payload ords) (t @ ?t) =
      Ret ((t @ ?t) @ es)"
    "\<forall>a. published_to (route (splitter_uri suffix a)) es = map order_payload (filter (\<lambda>ord. attr ord = a) ords)"
    using Cons.IH [of "t @ ?t"] Cons.prems by auto
  moreover have "watched_splitter route suffix attr (trace_delivery (order_payload ord)) t = Ret (t @ ?t)"
    by (rule splitter_routes_order) (use Cons.prems in simp_all)
  ultimately show ?case using assms
    by (intro exI [of _ "?t @ es"]) (auto simp: inj_eq splitter_uri_inj)
qed simp

text \<open>C24: the splitter gives each exchange's queue exactly the orders of that exchange, unchanged and
  in the order they came.\<close>

theorem splitter_partitions:
  assumes "inj route" and "\<forall>ord\<in>set ords. sized_order ord"
  shows "\<exists>t. consume_batch (watched_splitter route suffix ExchangeAddress) (map order_payload ords) [] = Ret t \<and>
    (\<forall>a. published_to (route (splitter_uri suffix a)) t =
       map order_payload (filter (\<lambda>ord. ExchangeAddress ord = a) ords))"
  using splitter_batch [OF assms(1), of ords ExchangeAddress suffix "[]"] assms(2)
  by (auto simp: sized_order_def wf_order_def wf_address_def)

text \<open>Numbers for the URIs.\<close>

definition uri_number :: "string \<Rightarrow> nat" where
  "uri_number uri = be_nat (1 # bytes_of_string uri)"

lemma inj_uri_number: "inj uri_number"
proof (rule injI)
  fix x y assume "uri_number x = uri_number y"
  then have "min_bytes (be_nat (1 # bytes_of_string x)) = min_bytes (be_nat (1 # bytes_of_string y))"
    by (simp add: uri_number_def)
  then show "x = y" by (simp add: min_bytes_be_nat bytes_of_string_inj)
qed

theorem splitter_partitions_witness:
  "\<exists>t. consume_batch (watched_splitter uri_number ''new'' ExchangeAddress) [order_payload sample_order] [] = Ret t \<and>
     published_to (uri_number (splitter_uri ''new'' zero_address)) t = [order_payload sample_order] \<and>
     published_to (uri_number (splitter_uri ''new'' [1])) t = []"
proof -
  have "ExchangeAddress sample_order = zero_address" by (simp add: sample_order_def Initialize_def)
  moreover have "zero_address \<noteq> [1]" by (auto dest: arg_cong [where f = length])
  ultimately show ?thesis
    using splitter_partitions [OF inj_uri_number, of "[sample_order]" "''new''"] sized_sample_order by auto
qed

end
