(* ===== verification/Ingest.thy ===== *)
theory Ingest
  imports Pools Exchanges IndexConsumers
begin

text \<open>
  Order submission (\<open>ingest/ingest.go\<close>, \<open>fee_info.go\<close>, \<open>healthcheck.go\<close>): the handler that checks a
  posted order and publishes it, and the one that quotes its fee. The lookups of account, affiliate,
  exchange and terms run in goroutines; they are threaded in the order in which they are started.
  \<open>parse\<close> and \<open>enc\<close> are the text layer of JSON, \<open>now\<close> is the time of the request in seconds.
\<close>

section \<open>The services\<close>

record 'w services =
  svc_publish :: "'w publisher"
  svc_account :: "address \<Rightarrow> 'w \<Rightarrow> (account \<times> 'w) go"
  svc_affiliate :: "address \<Rightarrow> 'w \<Rightarrow> ((err + affiliate) \<times> 'w) go"
  svc_network :: "address \<Rightarrow> 'w \<Rightarrow> (nat \<times> 'w) go"
  svc_signed :: "address \<Rightarrow> 'w \<Rightarrow> bool \<times> 'w"

definition valInList :: "address \<Rightarrow> address list \<Rightarrow> bool" where
  "valInList val xs = list_ex (\<lambda>a. a = val) xs"

section \<open>The order of a request\<close>

definition order_of_request :: "json_parse \<Rightarrow> request \<Rightarrow> (refusal + order) go" where
  "order_of_request parse r =
     go_bind (media_type ''Content-Type'' r) (\<lambda>ct.
       let contentType = (case ct of Some t \<Rightarrow> t | None \<Rightarrow> ''unknown'') in
       if contentType = ''application/octet-stream''
       then (case rq_Read r 1024 of (data, e) \<Rightarrow>
               if read_failed e then Ret (Inl (failed 100 ''Error reading content'' 500))
               else (case FromBytes data nil_order of
                       (ord, Some x) \<Rightarrow> Ret (Inl (failed 100 ''Error parsing order'' 500))
                     | (ord, None) \<Rightarrow> Ret (Inr ord)))
       else if contentType = ''application/json''
       then (case rq_Read r 1024 of (data, e) \<Rightarrow>
               if read_failed e then Ret (Inl (failed 100 ''Error reading content'' 500))
               else (case parse (string_of_bytes data) of
                       Inl x \<Rightarrow> Ret (Inl (failed 101 ''Malformed JSON'' 400))
                     | Inr j \<Rightarrow>
                         go_map (\<lambda>(ord, x). case x of None \<Rightarrow> Inr ord
                                                   | Some m \<Rightarrow> Inl (failed 101 ''Malformed JSON'' 400))
                           (Order_UnmarshalJSON j nil_order)))
       else Ret (Inl (failed 100 ''Unsupported content-type'' 415)))"

section \<open>The checks\<close>

definition refuse_unless :: "bool \<Rightarrow> refusal \<Rightarrow> refusal option" where
  "refuse_unless ok x = (if ok then None else Some x)"

definition check_asset :: "string \<Rightarrow> asset_data \<Rightarrow> unit \<Rightarrow> refusal option go" where
  "check_asset field data u =
     go_bind (SupportedType data) (\<lambda>ok.
       if ok then Ret None
       else go_map (\<lambda>p. Some (invalid field 1006 (''Unsupported asset type: '' @ sprintf_hex p) 400)) (ProxyId data))"

definition check_signature :: "crypto \<Rightarrow> order \<Rightarrow> unit \<Rightarrow> refusal option go" where
  "check_signature C ord u =
     go_bind (Supported (Signature ord)) (\<lambda>ok.
       if \<not> ok then Ret (Some (invalid ''signature'' 1005 ''Unsupported signature type'' 400))
       else go_bind (Order_Hash C ord) (\<lambda>h.
              go_map (\<lambda>ok. refuse_unless ok (invalid ''signature'' 1005 ''Signature validation failed'' 400))
                (Signature_Verify C (Signature ord) (Maker ord) h)))"

definition check_expiration :: "int \<Rightarrow> order \<Rightarrow> unit \<Rightarrow> refusal option go" where
  "check_expiration now ord u =
     go_map (\<lambda>t.
       if t < now then Some (invalid ''expirationUnixTimestampSec'' 1004 ''Order already expired'' 400)
       else refuse_unless (t \<le> now + 31536000000)
              (invalid ''expirationUnixTimestampSec'' 1004 ''Expiration in distant future'' 400))
       (Uint256_Big (ExpirationTimestampInSec ord))"

definition check_amount :: "string \<Rightarrow> string \<Rightarrow> uint256 \<Rightarrow> unit \<Rightarrow> refusal option go" where
  "check_amount field reason amount u =
     go_map (\<lambda>n. refuse_unless (n \<noteq> 0) (invalid field 1004 reason 400)) (Uint256_Big amount)"

definition order_checks :: "crypto \<Rightarrow> int \<Rightarrow> order \<Rightarrow> (unit \<Rightarrow> refusal option go) list" where
  "order_checks C now ord =
     [check_asset ''makerAssetData'' (MakerAssetData ord),
      check_asset ''takerAssetData'' (TakerAssetData ord),
      check_signature C ord,
      check_expiration now ord,
      check_amount ''TakerAssetAmount'' ''takerAssetAmount must be > 0'' (TakerAssetAmount ord),
      check_amount ''MakerAssetAmount'' ''makerAssetAmount must be > 0'' (MakerAssetAmount ord)]"

text \<open>The sender of the pool for the order's network; a map without that network gives the nil
  pointer.\<close>

definition check_sender :: "'w pool \<Rightarrow> nat \<Rightarrow> order \<Rightarrow> unit \<Rightarrow> refusal option go" where
  "check_sender pool networkID ord u =
     (if SenderAddresses pool = Map.empty then Ret None
      else go_bind (case SenderAddresses pool networkID of None \<Rightarrow> Panic NilDereference | Some a \<Rightarrow> deref a) (\<lambda>a.
           if a = zero_bytes 20 then Ret None
           else go_map (\<lambda>sender. refuse_unless (a = sender)
                  (invalid ''senderAddress'' 1002 ''Invalid sender for this order pool / network'' 400))
                  (deref (SenderAddress ord))))"

definition uint64_of :: "int \<Rightarrow> nat" where "uint64_of i = nat (i mod 2 ^ 64)"

definition pool_checks ::
  "int \<Rightarrow> bool \<Rightarrow> nat \<Rightarrow> 'w pool \<Rightarrow> order \<Rightarrow> (unit \<Rightarrow> refusal option go) list"
where
  "pool_checks now signedMaker networkID pool ord =
     [\<lambda>u. Ret (refuse_unless signedMaker
        (invalid ''makerAddress'' 1002 ''makerAddress must sign terms of service'' 401)),
      \<lambda>u. Ret (refuse_unless (networkID \<noteq> 0)
        (invalid ''exchangeContractAddress'' 1002 ''Unknown exchangeContractAddress'' 400)),
      check_sender pool networkID ord,
      \<lambda>u. Ret (refuse_unless (\<not> (pool_Expiration pool > 0 \<and> pool_Expiration pool < uint64_of now))
        (failed 102 ''Order Pool Expired'' 400))]"

definition total_fee :: "order \<Rightarrow> int go" where
  "total_fee ord =
     go_bind (deref (MakerFee ord)) (\<lambda>m. go_map (\<lambda>t. int (be_nat m) + int (be_nat t)) (deref (TakerFee ord)))"

definition fee_refusal :: "int \<Rightarrow> refusal" where
  "fee_refusal minFee =
     (let reason = ''Total fee must be at least: '' @ big_String minFee in
      (\<lparr>he_Code = 100, he_Reason = ''Validation Failed'',
        he_Validation = [\<lparr>ve_Field = ''makerFee'', ve_Code = 1004, ve_Reason = reason\<rparr>,
                         \<lparr>ve_Field = ''takerFee'', ve_Code = 1004, ve_Reason = reason\<rparr>]\<rparr>, 402))"

section \<open>The handler\<close>

text \<open>The fee, and whether the order is published, once the order and its pool have been checked: a
  refusal, or whether the maker is blacklisted.\<close>

definition settle_fee ::
  "int \<Rightarrow> 'w pool \<Rightarrow> order \<Rightarrow> err + affiliate \<Rightarrow> account \<Rightarrow> 'w \<Rightarrow> ((refusal + bool) \<times> 'w) go"
where
  "settle_fee now pool ord feeRecipient acct v =
     go_bind (total_fee ord) (\<lambda>totalFee.
       case feeRecipient of
         Inl e \<Rightarrow> Ret (Inl (invalid ''feeRecipient'' 1002 ''Invalid fee recipient'' 402), v)
       | Inr _ \<Rightarrow>
           go_bind (Pool_Fee pool v) (\<lambda>(poolFee, v').
             case poolFee of
               Inl e \<Rightarrow> Ret (Inl (invalid ''pool'' 1002 e 500), v')
             | Inr fee \<Rightarrow>
                 go_bind (Discount now acct) (\<lambda>discount. go_map (\<lambda>fee.
                   if totalFee < fee - discount then (Inl (fee_refusal (fee - discount)), v')
                   else (Inr (Blacklisted acct), v')) (deref_int fee))))"

definition Handler ::
  "crypto \<Rightarrow> json_parse \<Rightarrow> (json \<Rightarrow> string) \<Rightarrow> 'w services \<Rightarrow> bool \<Rightarrow> int \<Rightarrow> ('w, 'w pool) pool_handler"
where
  "Handler C parse enc svc enforceTerms now w r pool v =
     (let refuse = (\<lambda>x. returnError enc (fst x) (snd x) w) in
      if rq_Method r = ''GET''
      then Ret (write_body ''{\"ok\": true}'' (WriteHeader 200 (content_json w)), v)
      else go_bind (order_of_request parse r) (\<lambda>o'. case o' of
         Inl x \<Rightarrow> Ret (refuse x, v)
       | Inr ord \<Rightarrow>
           go_bind (svc_network svc (ExchangeAddress ord) v) (\<lambda>(networkID, v1).
           case (if enforceTerms then svc_signed svc (Maker ord) v1 else (True, v1)) of (signedMaker, v2) \<Rightarrow>
           go_bind (first_refusal (order_checks C now ord)) (\<lambda>c. case c of
             Some x \<Rightarrow> Ret (refuse x, v2)
           | None \<Rightarrow>
               go_bind (svc_affiliate svc (FeeRecipient ord) v2) (\<lambda>(feeRecipient, v3).
               go_bind (svc_account svc (Maker ord) v3) (\<lambda>(acct, v4).
               go_bind (first_refusal (pool_checks now signedMaker networkID pool ord)) (\<lambda>c. case c of
                 Some x \<Rightarrow> Ret (refuse x, v4)
               | None \<Rightarrow>
                   go_map (\<lambda>(outcome, v5). case outcome of
                       Inl x \<Rightarrow> (refuse x, v5)
                     | Inr blacklisted \<Rightarrow>
                         let accepted = write_body [] (WriteHeader 202 w) in
                         if blacklisted then (accepted, v5)
                         else (accepted, snd (svc_publish svc (order_payload (ord\<lparr>PoolID := pool_ID pool\<rparr>)) v5)))
                     (settle_fee now pool ord feeRecipient acct v4))))))))"

section \<open>Fee quotes\<close>

definition fee_input_keys :: "string list" where
  "fee_input_keys = [''maker'', ''exchangeAddress'', ''feeRecipientAddress'', ''taker'', ''senderAddress'']"

text \<open>What \<open>HexStringToBytes\<close> returns: the nil slice beside an error.\<close>

definition hex_slice :: "string \<Rightarrow> bytes" where
  "hex_slice s = (case HexStringToBytes s of Inl e \<Rightarrow> [] | Inr b \<Rightarrow> b)"

definition malformed :: "string \<Rightarrow> bool" where
  "malformed s = (case HexStringToBytes s of Inl e \<Rightarrow> True | Inr b \<Rightarrow> False)"

definition address_refusal :: "string \<Rightarrow> refusal" where
  "address_refusal field =
     (\<lparr>he_Code = 100, he_Reason = ''Validation failed'',
       he_Validation = [\<lparr>ve_Field = field, ve_Code = 1001, ve_Reason = ''Invalid address format''\<rparr>]\<rparr>, 400)"

text \<open>The input of a request. The JSON null makes the pointer to the input nil, which the first use
  dereferences. The format of the exchange is only refused when a fee recipient is given.\<close>

definition fee_input :: "json_parse \<Rightarrow> request \<Rightarrow> (refusal + (string \<Rightarrow> string)) go" where
  "fee_input parse r =
     (case rq_Read r 1024 of (data, e) \<Rightarrow>
        if read_failed e then Ret (Inl (failed 100 ''Error reading content'' 500))
        else (case parse (string_of_bytes data) of
                Inl x \<Rightarrow> Ret (Inl (failed 101 ''Malformed JSON'' 400))
              | Inr JNull \<Rightarrow> Panic NilDereference
              | Inr j \<Rightarrow>
                  Ret (case json_strings fee_input_keys j of
                         Inl x \<Rightarrow> Inl (failed 101 ''Malformed JSON'' 400)
                       | Inr st \<Rightarrow>
                           if malformed (st ''maker'') \<and> st ''maker'' \<noteq> [] then Inl (address_refusal ''maker'')
                           else if malformed (st ''feeRecipientAddress'') \<and> st ''feeRecipientAddress'' \<noteq> []
                           then Inl (address_refusal ''feeRecipient'')
                           else if malformed (st ''exchangeAddress'') \<and> st ''feeRecipientAddress'' \<noteq> []
                           then Inl (address_refusal ''exchangeAddress'')
                           else Inr st)))"

definition fee_response :: "int \<Rightarrow> address \<Rightarrow> string \<Rightarrow> string \<Rightarrow> json" where
  "fee_response minFee feeRecipientAddress sender taker =
     JObject [(''makerFee'', JString (big_String minFee)), (''takerFee'', JString ''0''),
              (''feeRecipientAddress'', JString (sprintf_hex feeRecipientAddress)),
              (''senderAddress'', JString sender), (''takerToSpecify'', JString taker)]"

definition specified_sender :: "'w pool \<Rightarrow> nat \<Rightarrow> string go" where
  "specified_sender pool networkID =
     (case SenderAddresses pool networkID of
        None \<Rightarrow> Ret (sprintf_hex zero_address)
      | Some a \<Rightarrow> go_map sprintf_hex (deref a))"

definition FeeHandler ::
  "json_parse \<Rightarrow> (json \<Rightarrow> string) \<Rightarrow> 'w services \<Rightarrow> address \<Rightarrow> int \<Rightarrow> ('w, 'w pool) pool_handler"
where
  "FeeHandler parse enc svc defaultFeeRecipient now w r pool v =
     (let refuse = (\<lambda>x. returnError enc (fst x) (snd x) w) in
      go_bind (fee_input parse r) (\<lambda>i. case i of
        Inl x \<Rightarrow> Ret (refuse x, v)
      | Inr st \<Rightarrow>
          let exchangeAddress = go_copy zero_address (hex_slice (st ''exchangeAddress''));
              makerAddress = go_copy zero_address (hex_slice (st ''maker''));
              feeRecipientAddress = go_copy zero_address
                (if st ''feeRecipientAddress'' = [] then defaultFeeRecipient
                 else hex_slice (st ''feeRecipientAddress''))
          in go_bind (svc_network svc exchangeAddress v) (\<lambda>(known, v1).
             go_bind (svc_affiliate svc feeRecipientAddress v1) (\<lambda>(feeRecipient, v2).
             go_bind (svc_account svc makerAddress v2) (\<lambda>(acct, v3).
             case feeRecipient of
               Inl e \<Rightarrow> Ret (refuse (invalid ''feeRecipient'' 1002 ''Invalid fee recpient'' 402), v3)
             | Inr _ \<Rightarrow>
                 go_bind (Pool_Fee pool v3) (\<lambda>(poolFee, v4). case poolFee of
                   Inl e \<Rightarrow> Ret (refuse (invalid ''pool'' 1002 ''Pool error'' 500), v4)
                 | Inr fee \<Rightarrow>
                     go_bind (Discount now acct) (\<lambda>discount. go_bind (deref_int fee) (\<lambda>fee.
                     go_map (\<lambda>sender.
                       let senderToSpecify = (if st ''senderAddress'' \<noteq> [] then st ''senderAddress'' else sender);
                           takerToSpecify = (if st ''taker'' \<noteq> [] then st ''taker'' else sprintf_hex zero_address)
                       in (write_body (enc (fee_response (fee - discount) feeRecipientAddress senderToSpecify takerToSpecify))
                             (WriteHeader 200 (content_json w)), v4))
                       (specified_sender pool (if known = 0 then 1 else known))))))))))"

section \<open>The health check\<close>

text \<open>\<open>TIME\<close> of the server. An error is answered, and the handler then goes on with what it has.\<close>

definition HealthCheckHandler :: "(json \<Rightarrow> string) \<Rightarrow> err + string list \<Rightarrow> response \<Rightarrow> response" where
  "HealthCheckHandler enc time w =
     (let w1 = (case time of Inl e \<Rightarrow> returnError enc (fst (failed 102 ''Internal error'' 500)) 500 w | Inr t \<Rightarrow> w);
          t = (case time of Inl e \<Rightarrow> JNull | Inr t \<Rightarrow> JArray (map JString t))
      in write_body (enc (JObject [(''Time'', t)])) (content_json (WriteHeader 200 w1)))"

section \<open>What is submitted\<close>

text \<open>The conditions on the order itself.\<close>

definition submittable :: "crypto \<Rightarrow> int \<Rightarrow> order \<Rightarrow> bool" where
  "submittable C now ord \<longleftrightarrow>
     SupportedType (MakerAssetData ord) = Ret True \<and> SupportedType (TakerAssetData ord) = Ret True \<and>
     (\<exists>h. Order_Hash C ord = Ret h \<and> Signature_Verify C (Signature ord) (Maker ord) h = Ret True) \<and>
     now \<le> int (be_nat (ExpirationTimestampInSec ord)) \<and>
     int (be_nat (ExpirationTimestampInSec ord)) \<le> now + 31536000000 \<and>
     0 < be_nat (TakerAssetAmount ord) \<and> 0 < be_nat (MakerAssetAmount ord)"

lemma go_map_eq_None: "go_map f m = Ret None \<longleftrightarrow> (\<exists>x. m = Ret x \<and> f x = None)"
  by (cases m) auto

lemma refuse_unless_None [simp]: "refuse_unless ok x = None \<longleftrightarrow> ok"
  by (simp add: refuse_unless_def)

lemma check_asset_passes: "check_asset f d u = Ret None \<longleftrightarrow> SupportedType d = Ret True"
  by (auto simp: check_asset_def go_bind_eq_Ret go_map_eq_None split: if_splits)

lemma check_signature_passes:
  "check_signature C ord u = Ret None \<longleftrightarrow>
    (\<exists>h. Order_Hash C ord = Ret h \<and> Signature_Verify C (Signature ord) (Maker ord) h = Ret True)"
  by (auto simp: check_signature_def go_bind_eq_Ret go_map_eq_None dest: Verify_Supported split: if_splits)

lemma check_expiration_passes:
  "length (ExpirationTimestampInSec ord) = 32 \<Longrightarrow> check_expiration now ord u = Ret None \<longleftrightarrow>
     now \<le> int (be_nat (ExpirationTimestampInSec ord)) \<and>
     int (be_nat (ExpirationTimestampInSec ord)) \<le> now + 31536000000"
proof -
  assume "length (ExpirationTimestampInSec ord) = 32"
  then have "Uint256_Big (ExpirationTimestampInSec ord) = Ret (int (be_nat (ExpirationTimestampInSec ord)))"
    by (simp add: Uint256_Big_def)
  then show ?thesis
    by (simp only: check_expiration_def go_map.simps go.inject refuse_unless_def if_split not_less) simp
qed

lemma check_amount_passes:
  "length n = 32 \<Longrightarrow> check_amount f x n u = Ret None \<longleftrightarrow> 0 < be_nat n"
  by (simp add: check_amount_def Uint256_Big_def)

lemmas checks_pass = check_asset_passes check_signature_passes check_expiration_passes check_amount_passes

lemma order_checks_pass:
  assumes "wf_order ord"
  shows "first_refusal (order_checks C now ord) = Ret None \<longleftrightarrow> submittable C now ord"
proof -
  have "length (ExpirationTimestampInSec ord) = 32" "length (TakerAssetAmount ord) = 32"
    "length (MakerAssetAmount ord) = 32"
    using assms by (simp_all add: wf_order_def wf_uint256_def)
  then show ?thesis
    unfolding first_refusal_None order_checks_def submittable_def by (simp add: checks_pass)
qed

lemma order_of_request_wf: "order_of_request parse r = Ret (Inr ord) \<Longrightarrow> wf_order ord"
  by (auto simp: order_of_request_def Let_def go_simps OrderFromBytes_wf [unfolded OrderFromBytes_def] Order_UnmarshalJSON_wf
      split: if_splits prod.splits option.splits sum.splits)

text \<open>Services over a directory that does not change while the request is handled, with a publisher
  that accepts every message.\<close>

record directory =
  dir_account :: "address \<Rightarrow> account"
  dir_affiliate :: "address \<Rightarrow> err + affiliate"
  dir_network :: "address \<Rightarrow> nat"
  dir_signed :: "address \<Rightarrow> bool"

definition services_of :: "directory \<Rightarrow> trace services" where
  "services_of D =
     \<lparr>svc_publish = trace_publisher 0, svc_account = (\<lambda>a t. Ret (dir_account D a, t)),
      svc_affiliate = (\<lambda>a t. Ret (dir_affiliate D a, t)), svc_network = (\<lambda>a t. Ret (dir_network D a, t)),
      svc_signed = (\<lambda>a t. (dir_signed D a, t))\<rparr>"

definition with_fee :: "int \<Rightarrow> trace pool \<Rightarrow> trace pool" where
  "with_fee baseFee pool = SetBaseFee (\<lambda>t. (Inr (Some baseFee), t)) pool"

definition pool_fee :: "int \<Rightarrow> 'w pool \<Rightarrow> int" where
  "pool_fee baseFee pool =
     (case big_SetString (FeeShare pool) of None \<Rightarrow> baseFee | Some s \<Rightarrow> (baseFee * s) div feeBaseUnits)"

definition sender_allowed :: "'w pool \<Rightarrow> nat \<Rightarrow> order \<Rightarrow> bool" where
  "sender_allowed pool n ord \<longleftrightarrow>
     SenderAddresses pool = Map.empty \<or>
     (\<exists>a. SenderAddresses pool n = Some a \<and> a \<noteq> [] \<and> (a = zero_address \<or> a = SenderAddress ord))"

definition fee_paid :: "int \<Rightarrow> int \<Rightarrow> order \<Rightarrow> account \<Rightarrow> bool" where
  "fee_paid now fee ord acct \<longleftrightarrow>
     (\<exists>d. Discount now acct = Ret d \<and> fee - d \<le> int (be_nat (MakerFee ord)) + int (be_nat (TakerFee ord)))"

definition pool_admits :: "int \<Rightarrow> bool \<Rightarrow> directory \<Rightarrow> 'w pool \<Rightarrow> order \<Rightarrow> bool" where
  "pool_admits now enforceTerms D pool ord \<longleftrightarrow>
     (enforceTerms \<longrightarrow> dir_signed D (Maker ord)) \<and> dir_network D (ExchangeAddress ord) \<noteq> 0 \<and>
     sender_allowed pool (dir_network D (ExchangeAddress ord)) ord \<and>
     (pool_Expiration pool = 0 \<or> uint64_of now \<le> pool_Expiration pool)"

definition admissible :: "crypto \<Rightarrow> int \<Rightarrow> bool \<Rightarrow> directory \<Rightarrow> int \<Rightarrow> 'w pool \<Rightarrow> order \<Rightarrow> bool" where
  "admissible C now enforceTerms D baseFee pool ord \<longleftrightarrow>
     submittable C now ord \<and> pool_admits now enforceTerms D pool ord \<and>
     \<not> isl (dir_affiliate D (FeeRecipient ord)) \<and>
     fee_paid now (pool_fee baseFee pool) ord (dir_account D (Maker ord)) \<and>
     \<not> Blacklisted (dir_account D (Maker ord))"

lemma check_sender_passes:
  assumes "length (SenderAddress ord) = 20"
  shows "check_sender pool n ord u = Ret None \<longleftrightarrow> sender_allowed pool n ord"
  using assms
  by (auto simp: check_sender_def sender_allowed_def go_bind_eq_Ret go_map_eq_None deref_def zero_address_def
      split: option.splits if_splits)

lemma pool_checks_pass:
  assumes "wf_order ord"
  shows "first_refusal (pool_checks now (enforceTerms \<longrightarrow> dir_signed D (Maker ord))
      (dir_network D (ExchangeAddress ord)) pool ord) = Ret None \<longleftrightarrow> pool_admits now enforceTerms D pool ord"
proof -
  have "length (SenderAddress ord) = 20" using assms by (simp add: wf_order_def wf_address_def)
  then show ?thesis
    unfolding first_refusal_None pool_checks_def pool_admits_def by (auto simp: check_sender_passes)
qed

lemma Pool_Fee_with_fee: "Pool_Fee (with_fee fee pool) t = Ret (Inr (Some (pool_fee fee pool)), t)"
  by (simp add: Pool_Fee_def with_fee_def SetBaseFee_def pool_fee_def deref_int_def split: option.splits)

lemma total_fee_wf:
  "wf_order ord \<Longrightarrow> total_fee ord = Ret (int (be_nat (MakerFee ord)) + int (be_nat (TakerFee ord)))"
  by (simp add: total_fee_def wf_order_def wf_uint256_def)

lemma with_fee_simps [simp]:
  "pool_ID (with_fee fee pool) = pool_ID pool"
  "check_sender (with_fee fee pool) = check_sender pool"
  "pool_checks now s n (with_fee fee pool) = pool_checks now s n pool"
  by (simp_all add: with_fee_def SetBaseFee_def check_sender_def pool_checks_def fun_eq_iff)

text \<open>The fee is settled for the order exactly when its recipient is known and it pays enough.\<close>

lemma settle_fee_accepts:
  assumes "wf_order ord"
  shows "settle_fee now (with_fee fee pool) ord feeRecipient acct t = Ret (Inr b, t') \<longleftrightarrow>
    t' = t \<and> \<not> isl feeRecipient \<and> fee_paid now (pool_fee fee pool) ord acct \<and> b = Blacklisted acct"
  using total_fee_wf [OF assms]
  by (cases "Discount now acct") (auto simp: settle_fee_def Pool_Fee_with_fee deref_int_def fee_paid_def go_simps split: sum.splits if_splits)

lemma settle_fee_keeps:
  assumes "wf_order ord" and "settle_fee now (with_fee fee pool) ord feeRecipient acct t = Ret (r, t')"
  shows "t' = t"
  using assms total_fee_wf [OF assms(1)]
  by (auto simp: settle_fee_def Pool_Fee_with_fee deref_int_def go_simps split: sum.splits if_splits)

text \<open>The handler after it has read the order.\<close>

definition submit ::
  "crypto \<Rightarrow> (json \<Rightarrow> string) \<Rightarrow> directory \<Rightarrow> bool \<Rightarrow> int \<Rightarrow> response \<Rightarrow> trace pool \<Rightarrow> order \<Rightarrow> trace
     \<Rightarrow> (response \<times> trace) go"
where
  "submit C enc D enforceTerms now w pool ord t =
     go_bind (first_refusal (order_checks C now ord)) (\<lambda>c. case c of
       Some x \<Rightarrow> Ret (returnError enc (fst x) (snd x) w, t)
     | None \<Rightarrow>
         go_bind (first_refusal (pool_checks now (enforceTerms \<longrightarrow> dir_signed D (Maker ord))
                    (dir_network D (ExchangeAddress ord)) pool ord)) (\<lambda>c. case c of
           Some x \<Rightarrow> Ret (returnError enc (fst x) (snd x) w, t)
         | None \<Rightarrow>
             go_map (\<lambda>(outcome, t'). case outcome of
                 Inl x \<Rightarrow> (returnError enc (fst x) (snd x) w, t')
               | Inr blacklisted \<Rightarrow>
                   if blacklisted then (write_body [] (WriteHeader 202 w), t')
                   else (write_body [] (WriteHeader 202 w),
                         t' @ [Published 0 (order_payload (ord\<lparr>PoolID := pool_ID pool\<rparr>))]))
               (settle_fee now pool ord (dir_affiliate D (FeeRecipient ord)) (dir_account D (Maker ord)) t)))"

lemma Handler_submit:
  assumes "order_of_request parse r = Ret (Inr ord)" and "rq_Method r \<noteq> ''GET''"
  shows "Handler C parse enc (services_of D) enforceTerms now w r pool t =
    submit C enc D enforceTerms now w pool ord t"
proof -
  have "(if enforceTerms then (dir_signed D (Maker ord), t) else (True, t)) =
      (enforceTerms \<longrightarrow> dir_signed D (Maker ord), t)" by simp
  with assms show ?thesis
    unfolding Handler_def submit_def services_of_def trace_publisher_def Let_def
    by (simp cong: option.case_cong sum.case_cong go.case_cong if_cong)
qed

lemma submit_publishes:
  assumes wf: "wf_order ord"
  shows "admissible C now enforceTerms D baseFee pool ord \<Longrightarrow>
      submit C enc D enforceTerms now w (with_fee baseFee pool) ord t =
        Ret (write_body [] (WriteHeader 202 w),
             t @ [Published 0 (order_payload (ord\<lparr>PoolID := pool_ID pool\<rparr>))])"
    and "\<not> admissible C now enforceTerms D baseFee pool ord \<Longrightarrow>
      submit C enc D enforceTerms now w (with_fee baseFee pool) ord t = Ret (w', t') \<Longrightarrow> t' = t"
proof -
  assume "admissible C now enforceTerms D baseFee pool ord"
  then have "settle_fee now (with_fee baseFee pool) ord (dir_affiliate D (FeeRecipient ord))
      (dir_account D (Maker ord)) t = Ret (Inr False, t)"
    "first_refusal (order_checks C now ord) = Ret None"
    "first_refusal (pool_checks now (enforceTerms \<longrightarrow> dir_signed D (Maker ord))
      (dir_network D (ExchangeAddress ord)) pool ord) = Ret None"
    using wf by (simp_all add: settle_fee_accepts admissible_def order_checks_pass pool_checks_pass)
  then show "submit C enc D enforceTerms now w (with_fee baseFee pool) ord t =
      Ret (write_body [] (WriteHeader 202 w),
           t @ [Published 0 (order_payload (ord\<lparr>PoolID := pool_ID pool\<rparr>))])"
    by (simp add: submit_def)
next
  assume n: "\<not> admissible C now enforceTerms D baseFee pool ord"
    and s: "submit C enc D enforceTerms now w (with_fee baseFee pool) ord t = Ret (w', t')"
  show "t' = t"
  proof (cases "first_refusal (order_checks C now ord) = Ret None \<and>
      first_refusal (pool_checks now (enforceTerms \<longrightarrow> dir_signed D (Maker ord))
        (dir_network D (ExchangeAddress ord)) pool ord) = Ret None")
    case True
    with s obtain r u where f: "settle_fee now (with_fee baseFee pool) ord (dir_affiliate D (FeeRecipient ord))
        (dir_account D (Maker ord)) t = Ret (r, u)" "u = t"
      using settle_fee_keeps [OF wf] by (fastforce simp: submit_def go_simps)
    have "r \<noteq> Inr False"
      using f n True wf by (auto simp: settle_fee_accepts admissible_def order_checks_pass pool_checks_pass)
    with s f True show ?thesis by (auto simp: submit_def split: sum.splits if_splits)
  next
    case False
    with s show ?thesis
      by (auto simp: submit_def go_bind_eq_Ret split: option.splits)
  qed
qed

text \<open>C17: a posted order is published, with the pool's id and answered with 202, exactly when it is
  admissible: its assets are supported, its maker's signature is valid, it is neither expired nor too
  far in the future, both amounts are positive, its exchange is known, its sender, pool and fee
  recipient are acceptable, its fees cover the pool's fee less the maker's discount and the maker is
  not blacklisted; and nothing else is ever published.\<close>

theorem ingest_publishes_iff:
  assumes r: "order_of_request parse r = Ret (Inr ord)" and m: "rq_Method r \<noteq> ''GET''"
  shows "(let reply = Handler C parse enc (services_of D) enforceTerms now new_response r (with_fee baseFee pool) t
    in if admissible C now enforceTerms D baseFee pool ord
       then reply = Ret (write_body [] (WriteHeader 202 new_response),
              t @ [Published 0 (order_payload (ord\<lparr>PoolID := pool_ID pool\<rparr>))])
       else \<forall>w t'. reply = Ret (w, t') \<longrightarrow> t' = t)"
  using submit_publishes [OF order_of_request_wf [OF r], of C now enforceTerms D baseFee pool]
  unfolding Let_def Handler_submit [OF r m] by auto

text \<open>A request with a signed order, and a directory that knows its exchange.\<close>

definition sample_request :: request where
  "sample_request =
     \<lparr>rq_Method = ''POST'', rq_Path = ''/v2/order'',
      rq_Header = [''Content-Type'' \<mapsto> [''application/octet-stream'']], rq_Query = [],
      rq_Read = (\<lambda>n. (Order_Bytes sample_signed_order, None)), rq_All = ([], None)\<rparr>"

definition sample_directory :: directory where
  "sample_directory =
     \<lparr>dir_account = (\<lambda>a. default_account), dir_affiliate = (\<lambda>a. Inr \<lparr>aff_BaseFee = Some 0, FeePercent = 100\<rparr>),
      dir_network = (\<lambda>a. 1), dir_signed = (\<lambda>a. False)\<rparr>"

lemma sample_request_order: "order_of_request parse sample_request = Ret (Inr sample_signed_order)"
  using FromBytes_Order_Bytes [OF sized_sample_signed_order, of nil_order]
  by (simp add: order_of_request_def sample_request_def media_type_def go_index_def read_failed_def)

lemma sample_request_admissible: "admissible sample_crypto 0 False sample_directory 0 empty_pool sample_signed_order"
proof -
  have h: "\<exists>h. Order_Hash sample_crypto sample_signed_order = Ret h"
    using Order_Hash_wf [OF wf_sample_signed_order] by blast
  have "submittable sample_crypto 0 sample_signed_order"
    using h by (simp add: submittable_def sample_amounts sample_signature_valid)
      (simp add: sample_signed_order_def sample_taker_order_def sample_order_def Initialize_def SupportedType_eq
        ERC20ProxyID_def zero_uint256_def)
  moreover have "pool_admits 0 False sample_directory empty_pool sample_signed_order"
    by (simp add: pool_admits_def sample_directory_def empty_pool_def sender_allowed_def)
  moreover have "fee_paid 0 (pool_fee 0 empty_pool) sample_signed_order default_account"
    by (simp add: fee_paid_def pool_fee_def default_account_def Discount_def deref_int_def split: option.split)
  ultimately show ?thesis
    by (simp add: admissible_def sample_directory_def Blacklisted_def default_account_def)
qed

lemma sample_request_method: "rq_Method sample_request \<noteq> ''GET''"
  by (simp add: sample_request_def)

theorem ingest_publishes_iff_witness:
  "Handler sample_crypto (\<lambda>s. Inl s) (\<lambda>j. []) (services_of sample_directory) False 0 new_response sample_request
     (with_fee 0 empty_pool) [] =
   Ret (write_body [] (WriteHeader 202 new_response),
        [Published 0 (order_payload (sample_signed_order\<lparr>PoolID := pool_ID (empty_pool :: trace pool)\<rparr>))])"
  using ingest_publishes_iff [OF sample_request_order sample_request_method, where enforceTerms = False and now = 0 and baseFee = 0
      and D = sample_directory and pool = empty_pool and C = sample_crypto and t = "[]"]
  by (simp add: sample_request_admissible)

section \<open>From the request to the index\<close>

lemma PoolID_update_simps [simp]:
  "sized_order (ord\<lparr>PoolID := p\<rparr>) \<Longrightarrow> wf_order ord"
  "Order_Hash C (ord\<lparr>PoolID := p\<rparr>) = Order_Hash C ord"
  by (simp_all add: sized_order_def wf_order_def Order_Hash_def hash_preimage_def order_preimage_def domain_preimage_def)

text \<open>C18: an order the ingest handler publishes is one the index consumer stores under its hash: it is
  never rejected and never stops the indexer, whatever the table holds.\<close>

theorem ingested_order_is_indexed:
  assumes C: "crypto_ok C" and quo: "\<forall>a b. returns (quo a b)"
    and r: "order_of_request parse r = Ret (Inr ord)" and m: "rq_Method r \<noteq> ''GET''"
    and p: "Handler C parse enc (services_of D) enforceTerms now new_response r (with_fee baseFee pool) [] =
      Ret (w, [Published 0 payload])"
    and sized: "sized_order (ord\<lparr>PoolID := pool_ID pool\<rparr>)"
  shows "\<exists>table' row. IndexConsumer_Consume C (index_into C quo zero status) (db_delivery payload) (s, table) =
      Ret (s @ [Acked], table') \<and> row \<in> set table' \<and> Order_Hash C ord = Ret (OrderHash row)"
proof -
  note sub = submit_publishes [OF order_of_request_wf [OF r], of C now enforceTerms D baseFee pool]
  have adm: "admissible C now enforceTerms D baseFee pool ord"
  proof (rule ccontr)
    assume "\<not> admissible C now enforceTerms D baseFee pool ord"
    from sub(2) [OF this p [unfolded Handler_submit [OF r m]]] show False by simp
  qed
  with p have payload: "payload = order_payload (ord\<lparr>PoolID := pool_ID pool\<rparr>)"
    using sub(1) by (simp add: Handler_submit [OF r m])
  from adm obtain h where h: "Order_Hash C ord = Ret h"
    and v: "Signature_Verify C (Signature ord) (Maker ord) h = Ret True" "be_nat (TakerAssetAmount ord) \<noteq> 0"
    by (auto simp: admissible_def submittable_def)
  show ?thesis
    using IndexConsumer_stores [OF C quo, of payload "ord\<lparr>PoolID := pool_ID pool\<rparr>" h zero status s table]
      order_of_order_payload [OF sized] h v by (auto simp: payload)
qed

theorem ingested_order_is_indexed_witness:
  "\<exists>payload table. Handler sample_crypto (\<lambda>s. Inl s) (\<lambda>j. []) (services_of sample_directory) False 0 new_response
       sample_request (with_fee 0 empty_pool) [] =
     Ret (write_body [] (WriteHeader 202 new_response), [Published 0 payload]) \<and>
   IndexConsumer_Consume sample_crypto (index_into sample_crypto (\<lambda>a b. Ret ()) () StatusOpen)
     (db_delivery payload) ([], []) = Ret ([Acked], table)"
proof -
  let ?p = "order_payload (sample_signed_order\<lparr>PoolID := pool_ID (empty_pool :: trace pool)\<rparr>)"
  have h: "Handler sample_crypto (\<lambda>s. Inl s) (\<lambda>j. []) (services_of sample_directory) False 0 new_response
       sample_request (with_fee 0 empty_pool) [] =
     Ret (write_body [] (WriteHeader 202 new_response), [Published 0 ?p])"
    using submit_publishes(1) [OF wf_sample_signed_order sample_request_admissible, of "\<lambda>j. []" _ "[]"]
    by (simp add: Handler_submit [OF sample_request_order sample_request_method])
  moreover have "sized_order (sample_signed_order\<lparr>PoolID := pool_ID (empty_pool :: trace pool)\<rparr>)"
    using sized_sample_signed_order by (simp add: sized_order_def wf_order_def empty_pool_def)
  ultimately show ?thesis
    using ingested_order_is_indexed [OF sample_crypto_ok _ sample_request_order sample_request_method h, of "\<lambda>a b. Ret ()" "()" StatusOpen "[]" "[]"]
    by auto
qed

end
