(* ===== verification/ZeroEx.thy ===== *)
theory ZeroEx
  imports Json
begin

text \<open>
  The data of the standard relayer API (\<open>zeroex/types.go\<close>): the structs its handlers fill in and the JSON
  values their tags give. A fee rate is a floating point number, whose text \<open>num\<close> fails for what JSON
  cannot express. \<open>zeroex.Error\<close> is \<open>http_error\<close> of \<open>Http\<close>.
\<close>

section \<open>Orders\<close>

record zx_order =
  zx_MakerAddress :: string
  zx_TakerAddress :: string
  zx_SenderAddress :: string
  zx_FeeRecipientAddress :: string
  zx_MakerFee :: string
  zx_TakerFee :: string
  zx_MakerAssetAmount :: string
  zx_TakerAssetAmount :: string
  zx_MakerAssetData :: string
  zx_TakerAssetData :: string
  zx_Salt :: string
  zx_ExchangeAddress :: string
  zx_ExpirationTimeSeconds :: string
  zx_Signature :: string

record 'f zx_metadata =
  om_Hash :: string
  om_FeeRate :: 'f
  om_Status :: int
  om_TakerAssetAmountRemaining :: string

record 'f zx_order_ex =
  ox_Order :: zx_order
  ox_Metadata :: "'f zx_metadata"

text \<open>The members of an order, all strings, in the order in which they are written.\<close>

definition zeroex_order_keys :: "string list" where
  "zeroex_order_keys =
     [''makerAddress'', ''takerAddress'', ''senderAddress'', ''feeRecipientAddress'', ''makerFee'', ''takerFee'',
      ''makerAssetAmount'', ''takerAssetAmount'', ''makerAssetData'', ''takerAssetData'', ''salt'', ''exchangeAddress'',
      ''expirationTimeSeconds'', ''signature'']"

definition zx_order_of :: "(string \<Rightarrow> string) \<Rightarrow> zx_order" where
  "zx_order_of st =
     \<lparr>zx_MakerAddress = st ''makerAddress'', zx_TakerAddress = st ''takerAddress'',
      zx_SenderAddress = st ''senderAddress'', zx_FeeRecipientAddress = st ''feeRecipientAddress'',
      zx_MakerFee = st ''makerFee'', zx_TakerFee = st ''takerFee'',
      zx_MakerAssetAmount = st ''makerAssetAmount'', zx_TakerAssetAmount = st ''takerAssetAmount'',
      zx_MakerAssetData = st ''makerAssetData'', zx_TakerAssetData = st ''takerAssetData'', zx_Salt = st ''salt'',
      zx_ExchangeAddress = st ''exchangeAddress'', zx_ExpirationTimeSeconds = st ''expirationTimeSeconds'',
      zx_Signature = st ''signature''\<rparr>"

text \<open>Reading an order: a member that is missing leaves its field empty.\<close>

definition unmarshal_zx_order :: "json \<Rightarrow> err + zx_order" where
  "unmarshal_zx_order j = try_bind (json_strings zeroex_order_keys j) (\<lambda>st. Inr (zx_order_of st))"

definition json_of_zx_order :: "zx_order \<Rightarrow> json" where
  "json_of_zx_order z =
     JObject (zip zeroex_order_keys (map JString
       [zx_MakerAddress z, zx_TakerAddress z, zx_SenderAddress z, zx_FeeRecipientAddress z, zx_MakerFee z,
        zx_TakerFee z, zx_MakerAssetAmount z, zx_TakerAssetAmount z, zx_MakerAssetData z, zx_TakerAssetData z,
        zx_Salt z, zx_ExchangeAddress z, zx_ExpirationTimeSeconds z, zx_Signature z]))"

definition json_of_metadata :: "'f num_text \<Rightarrow> 'f zx_metadata \<Rightarrow> err + json" where
  "json_of_metadata num m =
     try_bind (num (om_FeeRate m)) (\<lambda>feeRate.
       Inr (JObject [(''hash'', JString (om_Hash m)), (''feeRate'', JNumber feeRate),
                     (''status'', JNumber (big_String (om_Status m))),
                     (''takerAssetAmountRemaining'', JString (om_TakerAssetAmountRemaining m))]))"

text \<open>A nil pointer is null.\<close>

definition json_of_order_ex :: "'f num_text \<Rightarrow> 'f zx_order_ex option \<Rightarrow> err + json" where
  "json_of_order_ex num x =
     (case x of
        None \<Rightarrow> Inr JNull
      | Some z \<Rightarrow> try_bind (json_of_metadata num (ox_Metadata z)) (\<lambda>m.
          Inr (JObject [(''order'', json_of_zx_order (ox_Order z)), (''metaData'', m)])))"

fun marshal_all :: "('a \<Rightarrow> err + json) \<Rightarrow> 'a list \<Rightarrow> err + json list" where
  "marshal_all f [] = Inr []"
| "marshal_all f (x # xs) = try_bind (f x) (\<lambda>j. try_bind (marshal_all f xs) (\<lambda>js. Inr (j # js)))"

section \<open>Asset pairs\<close>

record zx_asset =
  za_MinAmount :: string
  za_MaxAmount :: string
  za_Precision :: nat
  za_AssetData :: string

record zx_asset_pair =
  zp_AssetDataA :: zx_asset
  zp_AssetDataB :: zx_asset

definition json_of_zx_asset :: "zx_asset \<Rightarrow> json" where
  "json_of_zx_asset a =
     JObject [(''minAmount'', JString (za_MinAmount a)), (''maxAmount'', JString (za_MaxAmount a)),
              (''precision'', JNumber (big_String (int (za_Precision a)))), (''assetData'', JString (za_AssetData a))]"

definition json_of_zx_asset_pair :: "zx_asset_pair \<Rightarrow> json" where
  "json_of_zx_asset_pair p =
     JObject [(''assetDataA'', json_of_zx_asset (zp_AssetDataA p)), (''assetDataB'', json_of_zx_asset (zp_AssetDataB p))]"

section \<open>Pages\<close>

text \<open>\<open>PaginatedResponse\<close> and the two pages with typed records.\<close>

record 'a zx_page =
  pg_Total :: nat
  pg_Page :: nat
  pg_PerPage :: nat
  pg_Records :: 'a

definition json_of_page :: "('a \<Rightarrow> json) \<Rightarrow> 'a zx_page \<Rightarrow> json" where
  "json_of_page f p =
     JObject [(''total'', JNumber (big_String (int (pg_Total p)))), (''page'', JNumber (big_String (int (pg_Page p)))),
              (''perPage'', JNumber (big_String (int (pg_PerPage p)))), (''records'', f (pg_Records p))]"

section \<open>Configurations and errors\<close>

record zx_config_request =
  cq_MakerAddress :: string
  cq_TakerAddress :: string
  cq_MakerAssetAmount :: string
  cq_TakerAssetAmount :: string
  cq_MakerAssetData :: string
  cq_TakerAssetData :: string
  cq_ExchangeAddress :: string
  cq_ExpirationTimeSeconds :: string

definition empty_config_request :: zx_config_request where
  "empty_config_request =
     \<lparr>cq_MakerAddress = [], cq_TakerAddress = [], cq_MakerAssetAmount = [], cq_TakerAssetAmount = [],
      cq_MakerAssetData = [], cq_TakerAssetData = [], cq_ExchangeAddress = [], cq_ExpirationTimeSeconds = []\<rparr>"

record zx_config_response =
  cs_SenderAddress :: string
  cs_FeeRecipientAddress :: string
  cs_MakerFee :: string
  cs_TakerFee :: string

definition json_of_config_response :: "zx_config_response \<Rightarrow> json" where
  "json_of_config_response c =
     JObject [(''senderAddress'', JString (cs_SenderAddress c)),
              (''feeRecipientAddress'', JString (cs_FeeRecipientAddress c)),
              (''makerFee'', JString (cs_MakerFee c)), (''takerFee'', JString (cs_TakerFee c))]"

section \<open>Reading back\<close>

text \<open>An order that is written is read as it was.\<close>

lemma zx_order_roundtrip: "unmarshal_zx_order (json_of_zx_order z) = Inr z"
proof -
  have "json_of_zx_order z = JObject (map (\<lambda>(k, s). (k, JString s)) (zip zeroex_order_keys
       [zx_MakerAddress z, zx_TakerAddress z, zx_SenderAddress z, zx_FeeRecipientAddress z, zx_MakerFee z,
        zx_TakerFee z, zx_MakerAssetAmount z, zx_TakerAssetAmount z, zx_MakerAssetData z, zx_TakerAssetData z,
        zx_Salt z, zx_ExchangeAddress z, zx_ExpirationTimeSeconds z, zx_Signature z]))"
    by (simp add: json_of_zx_order_def zeroex_order_keys_def)
  then show ?thesis
    by (simp add: unmarshal_zx_order_def json_strings_def json_members_strings zeroex_order_keys_def zx_order_of_def)
qed

end
