(* ===== verification/ApiOrders.thy ===== *)
theory ApiOrders
  imports Ingest ZeroEx
begin

text \<open>
  Order submission through the standard relayer API (\<open>api/handlers/decorator_pool.go\<close>,
  \<open>post_order.go\<close>, \<open>post_order_config.go\<close>). Its checks are those of \<open>ingest\<close> with other statuses and in
  a slightly different order; the services and the text layer of JSON are those of \<open>Ingest\<close>.
\<close>

section \<open>The pool of a request\<close>

definition api_pool_not_found :: "string \<Rightarrow> response \<Rightarrow> response" where
  "api_pool_not_found reason w =
     write_body (''{\"code\":102,\"reason\":\"'' @ reason @ ''\"}'') (WriteHeader 404 (content_json w))"

definition api_PoolDecorator ::
  "crypto \<Rightarrow> 'w pool_first \<Rightarrow> ('w, 'w pool) pool_handler \<Rightarrow> response \<Rightarrow> request \<Rightarrow> 'w \<Rightarrow> (response \<times> 'w) go"
where
  "api_PoolDecorator C First fn w r v =
     (case pool_match ''/0x/v2/'' (rq_Path r) of
        Some m \<Rightarrow>
          (case pool_by_name C First (trim_prefix m ''/'') v of
             Inl e \<Rightarrow> Ret (api_pool_not_found (''Pool Not Found: '' @ e) w, v)
           | Inr pool \<Rightarrow> fn w r pool v)
      | None \<Rightarrow> Ret (api_pool_not_found ''Not Found'' w, v))"

definition api_PoolDecoratorBaseFee ::
  "crypto \<Rightarrow> 'w pool_first \<Rightarrow> 'w base_fee_get \<Rightarrow> ('w, 'w pool) pool_handler
     \<Rightarrow> response \<Rightarrow> request \<Rightarrow> 'w \<Rightarrow> (response \<times> 'w) go"
where
  "api_PoolDecoratorBaseFee C First baseFee fn w r v =
     (case pool_match ''/0x/v2/'' (rq_Path r) of
        Some m \<Rightarrow>
          (case pool_by_name C First (trim_prefix m ''/'') v of
             Inl e \<Rightarrow> Ret (api_pool_not_found (''Pool Not Found: '' @ e) w, v)
           | Inr pool \<Rightarrow> fn w r (SetBaseFee baseFee pool) v)
      | None \<Rightarrow> Ret (api_pool_not_found ''Not Found'' w, v))"

section \<open>Posting an order\<close>

text \<open>\<open>respondError\<close> writes the same JSON as \<open>returnError\<close>.\<close>

definition respondError :: "json_enc \<Rightarrow> http_error \<Rightarrow> nat \<Rightarrow> response \<Rightarrow> response" where
  "respondError enc e status w =
     write_body (enc (json_of_http_error e)) (WriteHeader status (content_json w))"

text \<open>Method and content type of a request that posts JSON.\<close>

definition json_post :: "request \<Rightarrow> refusal option go" where
  "json_post r =
     (if rq_Method r \<noteq> ''POST'' then Ret (Some (failed 100 ''Unsupported HTTP request method'' 400))
      else go_map (\<lambda>ct. if ct = Some ''application/json'' then None
                        else Some (failed 100 ''Unsupported HTTP request content type'' 400))
             (media_type ''Content-Type'' r))"

definition posted_order :: "json_parse \<Rightarrow> request \<Rightarrow> (refusal + order) go" where
  "posted_order parse r =
     go_bind (json_post r) (\<lambda>x. case x of
       Some refused \<Rightarrow> Ret (Inl refused)
     | None \<Rightarrow>
         (case rq_All r of (data, e) \<Rightarrow>
            if read_failed e then Ret (Inl (failed 100 ''Error reading content'' 500))
            else (case parse (string_of_bytes data) of
                    Inl x \<Rightarrow> Ret (Inl (failed 101 ''Malformed JSON'' 400))
                  | Inr j \<Rightarrow>
                      go_map (\<lambda>(ord, x). case x of None \<Rightarrow> Inr ord
                                                | Some m \<Rightarrow> Inl (failed 101 ''Malformed JSON'' 400))
                        (Order_UnmarshalJSON j nil_order))))"

definition api_order_checks :: "crypto \<Rightarrow> int \<Rightarrow> order \<Rightarrow> (unit \<Rightarrow> refusal option go) list" where
  "api_order_checks C now ord =
     [check_asset ''makerAssetData'' (MakerAssetData ord),
      check_asset ''takerAssetData'' (TakerAssetData ord),
      check_signature C ord,
      check_expiration now ord,
      check_amount ''MakerAssetAmount'' ''makerAssetAmount must be > 0'' (MakerAssetAmount ord),
      check_amount ''TakerAssetAmount'' ''takerAssetAmount must be > 0'' (TakerAssetAmount ord)]"

definition api_check_sender :: "'w pool \<Rightarrow> nat \<Rightarrow> order \<Rightarrow> unit \<Rightarrow> refusal option go" where
  "api_check_sender pool networkID ord u =
     (if SenderAddresses pool = Map.empty then Ret None
      else go_bind (case SenderAddresses pool networkID of None \<Rightarrow> Panic NilDereference | Some a \<Rightarrow> deref a) (\<lambda>a.
           go_map (\<lambda>sender. refuse_unless (a = zero_bytes 20 \<or> a = sender)
             (invalid ''senderAddress'' 1002 ''Invalid sender for this order pool / network'' 400))
             (deref (SenderAddress ord))))"

definition api_pool_checks :: "int \<Rightarrow> nat \<Rightarrow> 'w pool \<Rightarrow> order \<Rightarrow> (unit \<Rightarrow> refusal option go) list" where
  "api_pool_checks now networkID pool ord =
     [\<lambda>u. Ret (refuse_unless (networkID \<noteq> 0)
        (invalid ''exchangeContractAddress'' 1002 ''Unknown exchangeContractAddress'' 400)),
      api_check_sender pool networkID ord,
      \<lambda>u. Ret (refuse_unless (\<not> (pool_Expiration pool > 0 \<and> pool_Expiration pool < uint64_of now))
        (failed 102 ''Order Pool Expired'' 400))]"

definition api_settle_fee ::
  "int \<Rightarrow> 'w pool \<Rightarrow> order \<Rightarrow> err + affiliate \<Rightarrow> account \<Rightarrow> 'w \<Rightarrow> ((refusal + bool) \<times> 'w) go"
where
  "api_settle_fee now pool ord feeRecipient acct v =
     (case feeRecipient of
        Inl e \<Rightarrow> Ret (Inl (invalid ''feeRecipient'' 1002 ''Invalid fee recipient'' 400), v)
      | Inr _ \<Rightarrow>
          go_bind (Pool_Fee pool v) (\<lambda>(poolFee, v').
            case poolFee of
              Inl e \<Rightarrow> Ret (Inl (invalid ''pool'' 1002 e 500), v')
            | Inr fee \<Rightarrow>
                go_bind (total_fee ord) (\<lambda>totalFee. go_bind (Discount now acct) (\<lambda>discount. go_map (\<lambda>fee.
                  if totalFee < fee - discount then (Inl (fst (fee_refusal (fee - discount)), 400), v')
                  else (Inr (Blacklisted acct), v')) (deref_int fee)))))"

text \<open>After a publisher that refuses, the handler answers the error and goes on; the second status is
  ignored.\<close>

definition publish_order ::
  "json_enc \<Rightarrow> 'w publisher \<Rightarrow> order \<Rightarrow> response \<Rightarrow> 'w \<Rightarrow> response \<times> 'w"
where
  "publish_order enc pub ord w v =
     (case pub (order_payload ord) v of (ok, v') \<Rightarrow>
        let w1 = (if ok then w else respondError enc (fst (failed 100 ''Validation Failed'' 500)) 500 w)
        in (write_body [] (WriteHeader 201 (content_json w1)), v'))"

definition PostOrder ::
  "crypto \<Rightarrow> json_parse \<Rightarrow> json_enc \<Rightarrow> 'w services \<Rightarrow> int \<Rightarrow> ('w, 'w pool) pool_handler"
where
  "PostOrder C parse enc svc now w r pool v =
     (let refuse = (\<lambda>x. respondError enc (fst x) (snd x) w) in
      go_bind (posted_order parse r) (\<lambda>o'. case o' of
        Inl x \<Rightarrow> Ret (refuse x, v)
      | Inr ord \<Rightarrow>
          go_bind (svc_network svc (ExchangeAddress ord) v) (\<lambda>(networkID, v1).
          go_bind (first_refusal (api_order_checks C now ord)) (\<lambda>c. case c of
            Some x \<Rightarrow> Ret (refuse x, v1)
          | None \<Rightarrow>
              go_bind (svc_account svc (Maker ord) v1) (\<lambda>(acct, v2).
              go_bind (svc_affiliate svc (FeeRecipient ord) v2) (\<lambda>(feeRecipient, v3).
              go_bind (first_refusal (api_pool_checks now networkID pool ord)) (\<lambda>c. case c of
                Some x \<Rightarrow> Ret (refuse x, v3)
              | None \<Rightarrow>
                  go_map (\<lambda>(outcome, v4). case outcome of
                      Inl x \<Rightarrow> (refuse x, v4)
                    | Inr blacklisted \<Rightarrow>
                        if blacklisted then (write_body [] (WriteHeader 202 (content_json w)), v4)
                        else publish_order enc (svc_publish svc) (ord\<lparr>PoolID := pool_ID pool\<rparr>) w v4)
                    (api_settle_fee now pool ord feeRecipient acct v3))))))))"

section \<open>Quoting a fee\<close>

text \<open>\<open>json.Unmarshal\<close> into the variable of the read error, an interface: null is taken; an object is
  decoded into what it points to, which has no fields, when the read ended with \<open>EOF\<close>; anything else
  is a type error.\<close>

definition unmarshal_into_err :: "err option \<Rightarrow> json \<Rightarrow> err option" where
  "unmarshal_into_err readErr j =
     (case j of
        JNull \<Rightarrow> None
      | JObject ms \<Rightarrow> (if readErr = None then Some json_err_type else None)
      | _ \<Rightarrow> Some json_err_type)"

definition config_refusal :: "json_parse \<Rightarrow> request \<Rightarrow> refusal option go" where
  "config_refusal parse r =
     go_map (\<lambda>x. case x of
         Some refused \<Rightarrow> Some refused
       | None \<Rightarrow>
           (case rq_Read r 4096 of (data, e) \<Rightarrow>
              if read_failed e then Some (failed 100 ''Error reading content'' 500)
              else (case parse (string_of_bytes data) of
                      Inl x \<Rightarrow> Some (failed 101 ''Malformed JSON'' 400)
                    | Inr j \<Rightarrow>
                        (if unmarshal_into_err e j = None then None else Some (failed 101 ''Malformed JSON'' 400)))))
       (json_post r)"

text \<open>The request that was to be filled stays empty; what is not empty would have to be a hexadecimal
  address.\<close>

definition config_addresses :: "zx_config_request \<Rightarrow> refusal + address \<times> address" where
  "config_addresses q =
     (if malformed (cq_MakerAddress q) \<and> cq_MakerAddress q \<noteq> [] then Inl (address_refusal ''makerAddress'')
      else if malformed (cq_ExchangeAddress q) \<and> cq_ExchangeAddress q \<noteq> [] then Inl (address_refusal ''exchangeAddress'')
      else Inr (go_copy zero_address (hex_slice (cq_MakerAddress q)),
                go_copy zero_address (hex_slice (cq_ExchangeAddress q))))"

definition config_response :: "int \<Rightarrow> address \<Rightarrow> string \<Rightarrow> zx_config_response" where
  "config_response minFee feeRecipientAddress sender =
     \<lparr>cs_SenderAddress = sender, cs_FeeRecipientAddress = sprintf_hex feeRecipientAddress,
      cs_MakerFee = big_String minFee, cs_TakerFee = ''0''\<rparr>"

definition PostOrderConfig ::
  "json_parse \<Rightarrow> json_enc \<Rightarrow> 'w services \<Rightarrow> address \<Rightarrow> int \<Rightarrow> ('w, 'w pool) pool_handler"
where
  "PostOrderConfig parse enc svc defaultFeeRecipient now w r pool v =
     (let refuse = (\<lambda>x. respondError enc (fst x) (snd x) w) in
      go_bind (config_refusal parse r) (\<lambda>c. case c of
        Some x \<Rightarrow> Ret (refuse x, v)
      | None \<Rightarrow>
          (case config_addresses empty_config_request of
             Inl x \<Rightarrow> Ret (refuse x, v)
           | Inr (makerAddress, exchangeAddress) \<Rightarrow>
          let feeRecipientAddress = go_copy zero_address defaultFeeRecipient in
          go_bind (svc_network svc exchangeAddress v) (\<lambda>(networkID, v1).
          go_bind (svc_account svc makerAddress v1) (\<lambda>(acct, v2).
          go_bind (svc_affiliate svc feeRecipientAddress v2) (\<lambda>(feeRecipient, v3).
          if networkID = 0
          then Ret (refuse (invalid ''exchangeContractAddress'' 1002 ''Unknown exchangeContractAddress'' 400), v3)
          else (case feeRecipient of
                  Inl e \<Rightarrow> Ret (refuse (invalid ''feeRecipient'' 1002 ''Invalid fee recpient'' 400), v3)
                | Inr _ \<Rightarrow>
                    go_bind (Pool_Fee pool v3) (\<lambda>(poolFee, v4). case poolFee of
                      Inl e \<Rightarrow> Ret (refuse (invalid ''pool'' 1002 ''Pool error'' 500), v4)
                    | Inr fee \<Rightarrow>
                        go_bind (Discount now acct) (\<lambda>discount. go_bind (deref_int fee) (\<lambda>fee.
                        go_map (\<lambda>sender.
                          (write_body (enc (json_of_config_response (config_response (fee - discount) feeRecipientAddress sender)))
                             (WriteHeader 201 (content_json w)), v4))
                          (specified_sender pool networkID)))))))))))"

text \<open>The quote is the same for all requests that are not refused: it is the one of the zero address.\<close>

lemma PostOrderConfig_ignores_request:
  assumes "config_refusal parse r = Ret None" and "config_refusal parse r' = Ret None"
  shows "PostOrderConfig parse enc svc d now w r pool v = PostOrderConfig parse enc svc d now w r' pool v"
  using assms by (simp add: PostOrderConfig_def)

section \<open>What is accepted\<close>

lemma api_order_checks_pass:
  assumes "wf_order ord"
  shows "first_refusal (api_order_checks C now ord) = Ret None \<longleftrightarrow> submittable C now ord"
proof -
  have "length (ExpirationTimestampInSec ord) = 32" "length (TakerAssetAmount ord) = 32"
    "length (MakerAssetAmount ord) = 32"
    using assms by (simp_all add: wf_order_def wf_uint256_def)
  then show ?thesis
    unfolding first_refusal_None api_order_checks_def submittable_def by (auto simp: checks_pass)
qed

lemma api_check_sender_passes:
  assumes "length (SenderAddress ord) = 20"
  shows "api_check_sender pool n ord u = Ret None \<longleftrightarrow> sender_allowed pool n ord"
  using assms
  by (auto simp: api_check_sender_def sender_allowed_def go_bind_eq_Ret go_map_eq_None deref_def zero_address_def
      split: option.splits if_splits)

lemma api_pool_checks_pass:
  assumes "wf_order ord"
  shows "first_refusal (api_pool_checks now (dir_network D (ExchangeAddress ord)) pool ord) = Ret None \<longleftrightarrow>
    pool_admits now False D pool ord"
proof -
  have "length (SenderAddress ord) = 20" using assms by (simp add: wf_order_def wf_address_def)
  then show ?thesis
    unfolding first_refusal_None api_pool_checks_def pool_admits_def by (auto simp: api_check_sender_passes)
qed

lemma api_settle_fee_accepts:
  assumes "wf_order ord"
  shows "api_settle_fee now (with_fee fee pool) ord feeRecipient acct t = Ret (Inr b, t') \<longleftrightarrow>
    t' = t \<and> \<not> isl feeRecipient \<and> fee_paid now (pool_fee fee pool) ord acct \<and> b = Blacklisted acct"
  using total_fee_wf [OF assms]
  by (cases "Discount now acct") (auto simp: api_settle_fee_def Pool_Fee_with_fee deref_int_def fee_paid_def go_simps
      split: sum.splits if_splits)

lemma api_settle_fee_keeps:
  assumes "wf_order ord" and "api_settle_fee now (with_fee fee pool) ord feeRecipient acct t = Ret (r, t')"
  shows "t' = t"
  using assms total_fee_wf [OF assms(1)]
  by (auto simp: api_settle_fee_def Pool_Fee_with_fee deref_int_def go_simps split: sum.splits if_splits)

lemma api_with_fee_simps [simp]:
  "api_pool_checks now n (with_fee fee pool) = api_pool_checks now n pool"
  by (simp add: with_fee_def SetBaseFee_def api_check_sender_def api_pool_checks_def fun_eq_iff)

definition api_accepted :: response where
  "api_accepted = write_body [] (WriteHeader 201 (content_json new_response))"

lemma PostOrder_publishes:
  assumes o: "posted_order parse r = Ret (Inr ord)" and wf: "wf_order ord"
  shows "admissible C now False D baseFee pool ord \<Longrightarrow>
      PostOrder C parse enc (services_of D) now new_response r (with_fee baseFee pool) t =
        Ret (api_accepted, t @ [Published 0 (order_payload (ord\<lparr>PoolID := pool_ID pool\<rparr>))])"
    and "\<not> admissible C now False D baseFee pool ord \<Longrightarrow>
      PostOrder C parse enc (services_of D) now new_response r (with_fee baseFee pool) t = Ret (w', t') \<Longrightarrow> t' = t"
proof -
  assume "admissible C now False D baseFee pool ord"
  then have "api_settle_fee now (with_fee baseFee pool) ord (dir_affiliate D (FeeRecipient ord))
      (dir_account D (Maker ord)) t = Ret (Inr False, t)"
    "first_refusal (api_order_checks C now ord) = Ret None"
    "first_refusal (api_pool_checks now (dir_network D (ExchangeAddress ord)) pool ord) = Ret None"
    using wf by (simp_all add: api_settle_fee_accepts admissible_def api_order_checks_pass api_pool_checks_pass)
  with o show "PostOrder C parse enc (services_of D) now new_response r (with_fee baseFee pool) t =
      Ret (api_accepted, t @ [Published 0 (order_payload (ord\<lparr>PoolID := pool_ID pool\<rparr>))])"
    by (simp add: PostOrder_def services_of_def publish_order_def trace_publisher_def api_accepted_def)
next
  assume n: "\<not> admissible C now False D baseFee pool ord"
    and s: "PostOrder C parse enc (services_of D) now new_response r (with_fee baseFee pool) t = Ret (w', t')"
  show "t' = t"
  proof (cases "first_refusal (api_order_checks C now ord) = Ret None \<and>
      first_refusal (api_pool_checks now (dir_network D (ExchangeAddress ord)) pool ord) = Ret None")
    case True
    with s o obtain x u where f: "api_settle_fee now (with_fee baseFee pool) ord (dir_affiliate D (FeeRecipient ord))
        (dir_account D (Maker ord)) t = Ret (x, u)" "u = t"
      using api_settle_fee_keeps [OF wf] by (fastforce simp: PostOrder_def services_of_def go_simps)
    have "x \<noteq> Inr False"
      using f n True wf
      by (auto simp: api_settle_fee_accepts admissible_def api_order_checks_pass api_pool_checks_pass)
    with s o f True show ?thesis by (auto simp: PostOrder_def services_of_def split: sum.splits if_splits)
  next
    case False
    with s o show ?thesis
      by (auto simp: PostOrder_def services_of_def go_bind_eq_Ret split: option.splits)
  qed
qed

lemma posted_order_wf: "posted_order parse r = Ret (Inr ord) \<Longrightarrow> wf_order ord"
  by (auto simp: posted_order_def go_simps Order_UnmarshalJSON_wf
      split: if_splits prod.splits option.splits sum.splits)


text \<open>The sample order as JSON.\<close>

definition sample_post :: request where
  "sample_post =
     \<lparr>rq_Method = ''POST'', rq_Path = ''/0x/v2/order'',
      rq_Header = [''Content-Type'' \<mapsto> [''application/json'']], rq_Query = [],
      rq_Read = (\<lambda>n. ([], None)), rq_All = ([], None)\<rparr>"

lemma sample_posted:
  "\<exists>parse ord. posted_order parse sample_post = Ret (Inr ord) \<and>
     ord = sample_signed_order\<lparr>MakerAssetAddress := zero_address, TakerAssetAddress := zero_bytes 19 @ [7],
       TakerAssetAmountFilled := zero_uint256, Cancelled := False, PoolID := []\<rparr>"
proof -
  obtain j where "json_order_strings sample_signed_order = Ret j"
    using json_order_strings_wf [OF wf_sample_signed_order] by blast
  from fromStrings_of_json [OF wf_sample_signed_order this]
  show ?thesis
    using sample_order_assets
    by (intro exI [of _ "\<lambda>s. Inr (JObject (map (\<lambda>(k, s). (k, JString s)) (json_order_fields j)))"] exI)
      (simp add: posted_order_def json_post_def sample_post_def media_type_def go_index_def read_failed_def
        Order_UnmarshalJSON_fields sample_signed_order_def sample_taker_order_def nil_order_def)
qed


end
