(* ===== verification/Queries.thy ===== *)
theory Queries
  imports Pools Exchanges Blocks
begin

text \<open>
  The filters of the search API (\<open>search/search.go\<close>, \<open>search/util.go\<close>) and of a pool
  (\<open>pool/pool.go\<close>), and paging. A query is the predicate its conditions state about a row; a query
  whose SQL is malformed is \<open>BrokenQuery\<close>: running it is an error and counting its rows leaves the count
  as it was. Columns are not null. The parameters of a request are the function of \<open>Values.Get\<close>.
\<close>

section \<open>Queries\<close>

datatype 'f query = Query "'f db_order \<Rightarrow> bool" | BrokenQuery

fun where_clause :: "('f db_order \<Rightarrow> bool) \<Rightarrow> 'f query \<Rightarrow> 'f query" where
  "where_clause P (Query Q) = Query (\<lambda>r. Q r \<and> P r)"
| "where_clause P BrokenQuery = BrokenQuery"

fun query_rows :: "'f query \<Rightarrow> 'f db_order list \<Rightarrow> 'f db_order list" where
  "query_rows (Query Q) rows = filter Q rows"
| "query_rows BrokenQuery rows = []"

definition query_broken :: "'f query \<Rightarrow> bool" where
  "query_broken q = (case q of Query Q \<Rightarrow> False | BrokenQuery \<Rightarrow> True)"

text \<open>\<open>OFFSET\<close> and \<open>LIMIT\<close>: a negative one is left out of the SQL.\<close>

definition page_rows :: "int \<Rightarrow> int \<Rightarrow> 'a list \<Rightarrow> 'a list" where
  "page_rows offset lim rows =
     (let rest = (if offset \<ge> 0 then drop (nat offset) rows else rows)
      in if lim \<ge> 0 then take (nat lim) rest else rest)"

type_synonym url_values = "string \<Rightarrow> string"

text \<open>Columns of the order table, and a filter: it gives the narrowed query, or the query as it was and
  an error, or no query at all.\<close>

type_synonym column = "order \<Rightarrow> bytes"
type_synonym 'f filter_fn = "url_values \<Rightarrow> 'f query \<Rightarrow> 'f query option \<times> err option"

definition column_where :: "(order \<Rightarrow> bool) \<Rightarrow> 'f query \<Rightarrow> 'f query" where
  "column_where P = where_clause (\<lambda>r. P (types_Order r))"

section \<open>Filters\<close>

definition with_parsed ::
  "string \<Rightarrow> (string \<Rightarrow> err + 'a) \<Rightarrow> ('a \<Rightarrow> order \<Rightarrow> bool) \<Rightarrow> 'f filter_fn"
where
  "with_parsed queryField parse cond queryObject q =
     (let value = queryObject queryField in
      if value = [] then (Some q, None)
      else (case parse value of
              Inl e \<Rightarrow> (Some q, Some e)
            | Inr x \<Rightarrow> (Some (column_where (cond x) q), None)))"

definition applyAddressFilter :: "string \<Rightarrow> column \<Rightarrow> 'f filter_fn" where
  "applyAddressFilter queryField dbField =
     with_parsed queryField HexToBytes (\<lambda>a ord. dbField ord = BytesToOrAddress a)"

definition applyAssetDataFilter :: "string \<Rightarrow> column \<Rightarrow> 'f filter_fn" where
  "applyAssetDataFilter queryField dbField =
     with_parsed queryField HexToAssetData (\<lambda>d ord. dbField ord = d)"

definition applyAssetDataOrFilter :: "string \<Rightarrow> column \<Rightarrow> column \<Rightarrow> 'f filter_fn" where
  "applyAssetDataOrFilter queryField dbField1 dbField2 =
     with_parsed queryField HexToAssetData (\<lambda>d ord. dbField1 ord = d \<or> dbField2 ord = d)"

definition applyOrFilter :: "string \<Rightarrow> column \<Rightarrow> column \<Rightarrow> 'f filter_fn" where
  "applyOrFilter queryField dbField1 dbField2 =
     with_parsed queryField HexToBytes
       (\<lambda>a ord. dbField1 ord = BytesToOrAddress a \<or> dbField2 ord = BytesToOrAddress a)"

definition applyBytesFilter :: "string \<Rightarrow> column \<Rightarrow> 'f filter_fn" where
  "applyBytesFilter queryField dbField =
     with_parsed queryField (\<lambda>s. hex_DecodeString (trim_prefix s ''0x'')) (\<lambda>d ord. dbField ord = d)"

definition applyHashFilter :: "crypto \<Rightarrow> string \<Rightarrow> column \<Rightarrow> 'f filter_fn" where
  "applyHashFilter C queryField dbField =
     with_parsed queryField (\<lambda>s. Inr (keccak256 C (bytes_of_string s))) (\<lambda>h ord. dbField ord = h)"

text \<open>A number that does not parse gives no query back.\<close>

definition applyUint256Filter :: "string \<Rightarrow> column \<Rightarrow> 'f filter_fn" where
  "applyUint256Filter queryField dbField queryObject q =
     (let value = queryObject queryField in
      if value = [] then (Some q, None)
      else (case big_SetString value of
              None \<Rightarrow> (None, Some (''Invalid number: '' @ value))
            | Some n \<Rightarrow> (Some (column_where (\<lambda>ord. dbField ord = BigToUint256 n) q), None)))"

text \<open>\<open>bytes.Replace\<close> of one byte by two, and SQL's \<open>LIKE\<close> with the backslash as its escape.\<close>

definition replace_byte :: "byte \<Rightarrow> bytes \<Rightarrow> bytes \<Rightarrow> bytes" where
  "replace_byte b new bs = concat (map (\<lambda>x. if x = b then new else [x]) bs)"

definition escape :: "bytes \<Rightarrow> bytes" where
  "escape queryBytes = replace_byte 95 [92, 95] (replace_byte 63 [92, 63] queryBytes)"

fun sql_like :: "bytes \<Rightarrow> bytes \<Rightarrow> bool" where
  "sql_like [] s = (s = [])"
| "sql_like (p # ps) s =
     (if p = 37
      then sql_like ps s \<or> (case s of [] \<Rightarrow> False | x # xs \<Rightarrow> sql_like (p # ps) xs)
      else if p = 92
      then (case ps of
              [] \<Rightarrow> False
            | c # cs \<Rightarrow> (case s of [] \<Rightarrow> False | x # xs \<Rightarrow> x = c \<and> sql_like cs xs))
      else (case s of [] \<Rightarrow> False | x # xs \<Rightarrow> (p = 95 \<or> x = p) \<and> sql_like ps xs))"

definition applyStartsWithFilter :: "string \<Rightarrow> column \<Rightarrow> 'f filter_fn" where
  "applyStartsWithFilter queryField dbField =
     with_parsed queryField (\<lambda>s. hex_DecodeString (trim_prefix s ''0x''))
       (\<lambda>pre ord. sql_like (escape pre @ [37]) (dbField ord))"

section \<open>The filter of a query\<close>

definition getExpTime :: "int \<Rightarrow> url_values \<Rightarrow> uint256" where
  "getExpTime now queryObject =
     (let s = queryObject ''_expTime'';
          t = (if s = [] then None else big_SetString s)
      in go_copy zero_uint256 (abi_U256 (case t of None \<Rightarrow> now | Some n \<Rightarrow> n)))"

record search_error =
  se_Err :: string
  se_Code :: int
  se_Field :: string

text \<open>Each filter with the code and the field of the error it reports.\<close>

definition query_filters :: "crypto \<Rightarrow> ('f filter_fn \<times> int \<times> string) list" where
  "query_filters C =
     [(applyAddressFilter ''exchangeContractAddress'' ExchangeAddress, 1003, ''exchangeContractAddress''),
      (applyAddressFilter ''makerAssetAddress'' MakerAssetAddress, 1003, ''makerAssetAddress''),
      (applyAddressFilter ''takerAssetAddress'' TakerAssetAddress, 1003, ''takerAssetAddress''),
      (applyAssetDataFilter ''makerAssetData'' MakerAssetData, 1003, ''makerAssetData''),
      (applyAssetDataFilter ''takerAssetData'' TakerAssetData, 1003, ''takerAssetData''),
      (applyAddressFilter ''makerAddress'' Maker, 1003, ''maker''),
      (applyAddressFilter ''takerAddress'' Taker, 1003, ''taker''),
      (applyAddressFilter ''feeRecipient'' FeeRecipient, 1003, ''feeRecipient''),
      (applyStartsWithFilter ''makerAssetProxyId'' MakerAssetData, 1003, ''makerAssetProxyId''),
      (applyStartsWithFilter ''takerAssetProxyId'' TakerAssetData, 1003, ''takerAssetProxyId''),
      (applyOrFilter ''assetAddress'' MakerAssetAddress TakerAssetAddress, 1003, ''assetAddress''),
      (applyAssetDataOrFilter ''assetData'' MakerAssetData TakerAssetData, 1001, ''assetData''),
      (applyOrFilter ''traderAddress'' Maker Taker, 1003, ''traderAddress''),
      (applyBytesFilter ''_poolId'' PoolID, 1003, ''_poolId''),
      (applyHashFilter C ''_poolName'' PoolID, 1003, ''_poolName''),
      (applyUint256Filter ''_takerFee'' TakerFee, 1003, ''_takerFee'')]"

text \<open>The filters in order; a filter that gets no query dereferences nil.\<close>

fun apply_filters ::
  "('f filter_fn \<times> int \<times> string) list \<Rightarrow> url_values \<Rightarrow> 'f query option \<Rightarrow> search_error list
     \<Rightarrow> ('f query option \<times> search_error list) go"
where
  "apply_filters [] queryObject q errs = Ret (q, errs)"
| "apply_filters ((f, code, field) # fs) queryObject q errs =
     (case q of
        None \<Rightarrow> Panic NilDereference
      | Some q' \<Rightarrow>
          (case f queryObject q' of
             (r, None) \<Rightarrow> apply_filters fs queryObject r errs
           | (r, Some e) \<Rightarrow>
               apply_filters fs queryObject r (errs @ [\<lparr>se_Err = e, se_Code = code, se_Field = field\<rparr>])))"

definition QueryFilter ::
  "crypto \<Rightarrow> int \<Rightarrow> url_values \<Rightarrow> 'f query \<Rightarrow> ('f query \<times> search_error list) go"
where
  "QueryFilter C now queryObject q =
     go_bind (apply_filters (query_filters C) queryObject
                (Some (where_clause (\<lambda>r. Status r = StatusOpen) q)) []) (\<lambda>(r, errs).
       case r of
         None \<Rightarrow> Panic NilDereference
       | Some q' \<Rightarrow>
           Ret (column_where (\<lambda>ord. bytes_compare (ExpirationTimestampInSec ord) (getExpTime now queryObject) > 0) q',
                errs))"

text \<open>A pool's search terms are a query string; \<open>ParseQuery\<close> of \<open>net/url\<close> is a parameter.\<close>

definition Pool_Filter ::
  "crypto \<Rightarrow> (string \<Rightarrow> err + url_values) \<Rightarrow> int \<Rightarrow> 'w pool \<Rightarrow> 'f query \<Rightarrow> (err + 'f query) go"
where
  "Pool_Filter C ParseQuery now pool q =
     (case ParseQuery (SearchTerms pool) of
        Inl e \<Rightarrow> Ret (Inl e)
      | Inr queryObject \<Rightarrow>
          go_map (\<lambda>(q', errs).
            if errs \<noteq> [] then Inl (''Found '' @ dec_string (length errs) @ '' errors in pool query string'')
            else Inr q') (QueryFilter C now queryObject q))"

definition Pool_Count :: "'w pool \<Rightarrow> 'f db_order list \<Rightarrow> nat" where
  "Pool_Count pool rows =
     length (filter (\<lambda>r. PoolID (types_Order r) = pool_ID pool \<and> Status r = StatusOpen) rows)"

text \<open>\<open>filterByNetworkId\<close>: with more than one exchange the list of addresses goes to the first
  placeholder and the SQL is malformed.\<close>

definition filterByNetworkId ::
  "exchange_find \<Rightarrow> url_values \<Rightarrow> 'f query \<Rightarrow> exchange_lookup \<Rightarrow> ('f query \<times> err option) \<times> exchange_lookup"
where
  "filterByNetworkId Find queryObject q lookup =
     (let networkID = (case Atoi (queryObject ''networkId'') of Inl e \<Rightarrow> 1 | Inr n \<Rightarrow> n) in
      case GetExchangesByNetwork Find (nat (networkID mod 2 ^ 64)) lookup of
        (Inl e, l) \<Rightarrow> ((q, Some e), l)
      | (Inr [], l) \<Rightarrow> ((q, Some (''Network id '' @ big_String networkID @ '' is not supported'')), l)
      | (Inr [a], l) \<Rightarrow> ((column_where (\<lambda>ord. ExchangeAddress ord = a) q, None), l)
      | (Inr (a # b # as), l) \<Rightarrow> ((BrokenQuery, None), l))"

section \<open>Pages\<close>

definition getPages :: "url_values \<Rightarrow> (int \<times> int) \<times> err option" where
  "getPages queryObject =
     (let pageStr = (if queryObject ''page'' = [] then ''1'' else queryObject ''page'');
          perPageStr = (if queryObject ''per_page'' = [] then ''20'' else queryObject ''per_page'') in
      case Atoi pageStr of
        Inl e \<Rightarrow> ((0, 0), Some e)
      | Inr page \<Rightarrow> (case Atoi perPageStr of
                       Inl e \<Rightarrow> ((0, 0), Some e)
                     | Inr perPage \<Rightarrow> ((page, perPage), None)))"

definition page_offset :: "int \<Rightarrow> int \<Rightarrow> int" where
  "page_offset page perPage = int64_of (int64_of (page - 1) * perPage)"

text \<open>The number of rows of a query and the rows of one page, which are only fetched when the page
  starts below that number. \<open>rows\<close> is the table in the order the database returns it.\<close>

definition fetch_page ::
  "'f query \<Rightarrow> int \<Rightarrow> int \<Rightarrow> 'f db_order list \<Rightarrow> nat \<times> (err + 'f db_order list)"
where
  "fetch_page q page perPage rows =
     (let count = length (query_rows q rows);
          offset = page_offset page perPage in
      if int count > offset
      then (count, if query_broken q then Inl ''pq: syntax error''
                   else Inr (page_rows offset perPage (query_rows q rows)))
      else (count, Inr []))"

section \<open>Prefixes\<close>

lemma sql_like_any [simp]: "sql_like [37] s"
  by (induction s) auto

declare sql_like.simps(2) [simp del]

lemma escape_Nil [simp]: "escape [] = []"
  by (simp add: escape_def replace_byte_def)

lemma escape_Cons:
  "escape (x # xs) = (if x = 63 then [92, 63] else if x = 95 then [92, 95] else [x]) @ escape xs"
  by (simp add: escape_def replace_byte_def)

lemma sql_like_escape:
  "37 \<notin> set pre \<Longrightarrow> 92 \<notin> set pre \<Longrightarrow> sql_like (escape pre @ [37]) s \<longleftrightarrow> take (length pre) s = pre"
proof (induction pre arbitrary: s)
  case (Cons x pre)
  then show ?case by (cases s) (auto simp: escape_Cons sql_like.simps(2))
qed simp

text \<open>The filter on an asset's proxy id, or any other prefix of its data, keeps exactly the orders
  whose data starts with the given bytes, as long as these are neither a percent sign nor a
  backslash; those two are not escaped, and a percent sign matches any data.\<close>

lemma starts_with_filter_exact:
  assumes "queryObject field \<noteq> []"
    and "hex_DecodeString (trim_prefix (queryObject field) ''0x'') = Inr pre"
    and "37 \<notin> set pre" and "92 \<notin> set pre"
  shows "\<exists>q. applyStartsWithFilter field col queryObject (Query Q) = (Some q, None) \<and>
    query_rows q rows = filter (\<lambda>r. Q r \<and> take (length pre) (col (types_Order r)) = pre) rows"
  using assms by (simp add: applyStartsWithFilter_def with_parsed_def column_where_def sql_like_escape)

lemma percent_matches_all: "sql_like (escape [37] @ [37]) s"
proof -
  have "escape [37] @ [37] = 37 # [37]" by (simp add: escape_Cons)
  moreover have "sql_like (37 # [37]) s" by (subst sql_like.simps(2)) simp
  ultimately show ?thesis by simp
qed

section \<open>What a query selects\<close>

definition given :: "url_values \<Rightarrow> string \<Rightarrow> (string \<Rightarrow> bool) \<Rightarrow> bool" where
  "given queryObject field P \<longleftrightarrow> queryObject field = [] \<or> P (queryObject field)"

definition hex_bytes :: "string \<Rightarrow> err + bytes" where
  "hex_bytes s = hex_DecodeString (trim_prefix s ''0x'')"

text \<open>The meaning of the parameters, one by one.\<close>

definition order_matches :: "crypto \<Rightarrow> url_values \<Rightarrow> order \<Rightarrow> bool" where
  "order_matches C qo ord \<longleftrightarrow>
     given qo ''exchangeContractAddress'' (\<lambda>s. HexToAddress s = Inr (ExchangeAddress ord)) \<and>
     given qo ''makerAssetAddress'' (\<lambda>s. HexToAddress s = Inr (MakerAssetAddress ord)) \<and>
     given qo ''takerAssetAddress'' (\<lambda>s. HexToAddress s = Inr (TakerAssetAddress ord)) \<and>
     given qo ''makerAssetData'' (\<lambda>s. hex_bytes s = Inr (MakerAssetData ord)) \<and>
     given qo ''takerAssetData'' (\<lambda>s. hex_bytes s = Inr (TakerAssetData ord)) \<and>
     given qo ''makerAddress'' (\<lambda>s. HexToAddress s = Inr (Maker ord)) \<and>
     given qo ''takerAddress'' (\<lambda>s. HexToAddress s = Inr (Taker ord)) \<and>
     given qo ''feeRecipient'' (\<lambda>s. HexToAddress s = Inr (FeeRecipient ord)) \<and>
     given qo ''makerAssetProxyId'' (\<lambda>s. \<exists>pre. hex_bytes s = Inr pre \<and> sql_like (escape pre @ [37]) (MakerAssetData ord)) \<and>
     given qo ''takerAssetProxyId'' (\<lambda>s. \<exists>pre. hex_bytes s = Inr pre \<and> sql_like (escape pre @ [37]) (TakerAssetData ord)) \<and>
     given qo ''assetAddress'' (\<lambda>s. HexToAddress s \<in> {Inr (MakerAssetAddress ord), Inr (TakerAssetAddress ord)}) \<and>
     given qo ''assetData'' (\<lambda>s. hex_bytes s \<in> {Inr (MakerAssetData ord), Inr (TakerAssetData ord)}) \<and>
     given qo ''traderAddress'' (\<lambda>s. HexToAddress s \<in> {Inr (Maker ord), Inr (Taker ord)}) \<and>
     given qo ''_poolId'' (\<lambda>s. hex_bytes s = Inr (PoolID ord)) \<and>
     given qo ''_poolName'' (\<lambda>s. keccak256 C (bytes_of_string s) = PoolID ord) \<and>
     given qo ''_takerFee'' (\<lambda>s. map_option abi_U256 (big_SetString s) = Some (TakerFee ord))"

text \<open>A filter that reports no error narrows the query by a condition on the order.\<close>

definition narrows :: "'f filter_fn \<Rightarrow> url_values \<Rightarrow> (order \<Rightarrow> bool) \<Rightarrow> bool" where
  "narrows f qo P \<longleftrightarrow> (\<forall>q r. f qo q = (r, None) \<longrightarrow>
     (\<exists>q'. r = Some q' \<and> (\<forall>rows. query_rows q' rows = filter (\<lambda>r. P (types_Order r)) (query_rows q rows))))"

lemma query_rows_column_where:
  "query_rows (column_where P q) rows = filter (\<lambda>r. P (types_Order r)) (query_rows q rows)"
  by (cases q) (auto simp: column_where_def conj_commute)

lemma narrows_with_parsed:
  assumes "\<And>ord x. qo field \<noteq> [] \<Longrightarrow> parse (qo field) = Inr x \<Longrightarrow> P ord \<longleftrightarrow> cond x ord" and "\<And>ord. qo field = [] \<Longrightarrow> P ord"
  shows "narrows (with_parsed field parse cond) qo P"
  using assms
  by (auto simp: narrows_def with_parsed_def Let_def query_rows_column_where split: if_splits sum.splits
      intro!: filter_cong [OF refl, symmetric] filter_True [symmetric])

lemma narrows_uint256:
  "narrows (applyUint256Filter field col) qo
     (\<lambda>ord. given qo field (\<lambda>s. map_option abi_U256 (big_SetString s) = Some (col ord)))"
  by (auto simp: narrows_def applyUint256Filter_def Let_def query_rows_column_where given_def BigToUint256_eq
      eq_commute [of "abi_U256 _"] split: if_splits option.splits
      intro!: filter_cong [OF refl, symmetric] filter_True [symmetric])

lemma HexToAddress_bytes: "HexToBytes s = Inr a \<Longrightarrow> HexToAddress s = Inr (BytesToOrAddress a)"
  by (simp add: HexToAddress_def BytesToOrAddress_def)

lemma HexToAssetData_bytes: "HexToAssetData s = Inr d \<Longrightarrow> hex_bytes s = Inr d"
  by (auto simp: HexToAssetData_def hex_bytes_def try_bind_eq_Inr)

lemmas filter_defs = applyAddressFilter_def applyAssetDataFilter_def applyAssetDataOrFilter_def
  applyOrFilter_def applyBytesFilter_def applyHashFilter_def applyStartsWithFilter_def

text \<open>The meaning of each filter, in the order of the list.\<close>

definition filter_meanings :: "crypto \<Rightarrow> url_values \<Rightarrow> (order \<Rightarrow> bool) list" where
  "filter_meanings C qo =
     [\<lambda>ord. given qo ''exchangeContractAddress'' (\<lambda>s. HexToAddress s = Inr (ExchangeAddress ord)),
      \<lambda>ord. given qo ''makerAssetAddress'' (\<lambda>s. HexToAddress s = Inr (MakerAssetAddress ord)),
      \<lambda>ord. given qo ''takerAssetAddress'' (\<lambda>s. HexToAddress s = Inr (TakerAssetAddress ord)),
      \<lambda>ord. given qo ''makerAssetData'' (\<lambda>s. hex_bytes s = Inr (MakerAssetData ord)),
      \<lambda>ord. given qo ''takerAssetData'' (\<lambda>s. hex_bytes s = Inr (TakerAssetData ord)),
      \<lambda>ord. given qo ''makerAddress'' (\<lambda>s. HexToAddress s = Inr (Maker ord)),
      \<lambda>ord. given qo ''takerAddress'' (\<lambda>s. HexToAddress s = Inr (Taker ord)),
      \<lambda>ord. given qo ''feeRecipient'' (\<lambda>s. HexToAddress s = Inr (FeeRecipient ord)),
      \<lambda>ord. given qo ''makerAssetProxyId''
        (\<lambda>s. \<exists>pre. hex_bytes s = Inr pre \<and> sql_like (escape pre @ [37]) (MakerAssetData ord)),
      \<lambda>ord. given qo ''takerAssetProxyId''
        (\<lambda>s. \<exists>pre. hex_bytes s = Inr pre \<and> sql_like (escape pre @ [37]) (TakerAssetData ord)),
      \<lambda>ord. given qo ''assetAddress'' (\<lambda>s. HexToAddress s \<in> {Inr (MakerAssetAddress ord), Inr (TakerAssetAddress ord)}),
      \<lambda>ord. given qo ''assetData'' (\<lambda>s. hex_bytes s \<in> {Inr (MakerAssetData ord), Inr (TakerAssetData ord)}),
      \<lambda>ord. given qo ''traderAddress'' (\<lambda>s. HexToAddress s \<in> {Inr (Maker ord), Inr (Taker ord)}),
      \<lambda>ord. given qo ''_poolId'' (\<lambda>s. hex_bytes s = Inr (PoolID ord)),
      \<lambda>ord. given qo ''_poolName'' (\<lambda>s. keccak256 C (bytes_of_string s) = PoolID ord),
      \<lambda>ord. given qo ''_takerFee'' (\<lambda>s. map_option abi_U256 (big_SetString s) = Some (TakerFee ord))]"

lemma filters_narrow: "list_all2 (\<lambda>f P. narrows (fst f) qo P) (query_filters C) (filter_meanings C qo)"
  unfolding query_filters_def filter_meanings_def filter_defs
  by (simp add: narrows_uint256 del: map_option_eq_Some)
    (auto simp: given_def hex_bytes_def [symmetric] dest: HexToAddress_bytes HexToAssetData_bytes
      intro!: narrows_with_parsed)

lemma order_matches_meanings: "order_matches C qo ord \<longleftrightarrow> (\<forall>P\<in>set (filter_meanings C qo). P ord)"
  by (simp add: order_matches_def filter_meanings_def)

lemma errors_only_grow:
  "apply_filters fs qo q errs = Ret (r, errs') \<Longrightarrow> \<exists>es. errs' = errs @ es"
  by (induction fs qo q errs rule: apply_filters.induct) (fastforce split: option.splits prod.splits)+

lemma apply_filters_narrow:
  "list_all2 (\<lambda>f P. narrows (fst f) qo P) fs Ps \<Longrightarrow> apply_filters fs qo (Some q) [] = Ret (r, []) \<Longrightarrow>
    \<exists>q'. r = Some q' \<and>
      (\<forall>rows. query_rows q' rows = filter (\<lambda>r. \<forall>P\<in>set Ps. P (types_Order r)) (query_rows q rows))"
proof (induction fs arbitrary: Ps q)
  case (Cons f fs)
  then obtain P Ps' where ps: "Ps = P # Ps'" "narrows (fst f) qo P" "list_all2 (\<lambda>f P. narrows (fst f) qo P) fs Ps'"
    by (auto simp: list_all2_Cons1)
  obtain g code field where f: "f = (g, code, field)" by (cases f)
  obtain q1 e where g: "g qo q = (q1, e)" by (cases "g qo q")
  have e: "e = None"
    using Cons.prems(2) g errors_only_grow by (cases e) (fastforce simp: f)+
  with ps(2) g f obtain q' where q: "q1 = Some q'"
    "\<And>rows. query_rows q' rows = filter (\<lambda>r. P (types_Order r)) (query_rows q rows)"
    by (auto simp: narrows_def)
  with Cons.prems(2) g e f have "apply_filters fs qo (Some q') [] = Ret (r, [])" by simp
  from Cons.IH [OF ps(3) this] q(2) ps(1) show ?case
    by (auto simp: filter_filter conj_commute)
qed auto

definition unexpired :: "int \<Rightarrow> url_values \<Rightarrow> order \<Rightarrow> bool" where
  "unexpired now qo ord \<longleftrightarrow> bytes_compare (ExpirationTimestampInSec ord) (getExpTime now qo) > 0"

text \<open>The rows that a filter without parameter errors selects are the open ones that expire after the
  given time, or now, and match every parameter.\<close>

lemma QueryFilter_selects:
  assumes "QueryFilter C now qo q = Ret (q', [])"
  shows "query_rows q' rows =
    filter (\<lambda>r. Status r = StatusOpen \<and> order_matches C qo (types_Order r) \<and> unexpired now qo (types_Order r))
      (query_rows q rows)"
proof -
  let ?open = "where_clause (\<lambda>r. Status r = StatusOpen) q"
  from assms obtain r where f: "apply_filters (query_filters C) qo (Some ?open) [] = Ret (Some r, [])"
    and q': "q' = column_where (\<lambda>ord. bytes_compare (ExpirationTimestampInSec ord) (getExpTime now qo) > 0) r"
    by (auto simp: QueryFilter_def go_simps split: option.splits)
  from apply_filters_narrow [OF filters_narrow f]
  have "query_rows r rows = filter (\<lambda>r. order_matches C qo (types_Order r)) (query_rows ?open rows)"
    by (simp add: order_matches_meanings)
  moreover have "query_rows ?open rows = filter (\<lambda>r. Status r = StatusOpen) (query_rows q rows)"
    by (cases q) (auto simp: conj_commute)
  ultimately show ?thesis
    by (simp add: q' query_rows_column_where conj_ac unexpired_def)
qed

definition no_params :: url_values where "no_params k = []"

lemma apply_filters_skip:
  "(\<forall>f\<in>set fs. \<forall>q. fst f qo q = (Some q, None)) \<Longrightarrow> apply_filters fs qo (Some q) errs = Ret (Some q, errs)"
  by (induction fs) auto

lemma QueryFilter_no_params:
  "QueryFilter C now no_params q =
     Ret (column_where (\<lambda>ord. bytes_compare (ExpirationTimestampInSec ord) (getExpTime now no_params) > 0)
            (where_clause (\<lambda>r. Status r = StatusOpen) q), [])"
proof -
  have "apply_filters (query_filters C) no_params (Some (where_clause (\<lambda>r. Status r = StatusOpen) q)) [] =
      Ret (Some (where_clause (\<lambda>r. Status r = StatusOpen) q), [])"
    by (rule apply_filters_skip)
      (simp add: query_filters_def filter_defs with_parsed_def applyUint256Filter_def no_params_def)
  then show ?thesis by (simp add: QueryFilter_def)
qed

lemma Pool_Filter_selects:
  assumes "Pool_Filter C ParseQuery now pool q = Ret (Inr q')"
  shows "\<exists>terms. ParseQuery (SearchTerms pool) = Inr terms \<and> (\<forall>rows. query_rows q' rows =
    filter (\<lambda>r. Status r = StatusOpen \<and> order_matches C terms (types_Order r) \<and> unexpired now terms (types_Order r))
      (query_rows q rows))"
  using assms QueryFilter_selects
  by (fastforce simp: Pool_Filter_def go_simps split: sum.splits if_splits)

definition network_id :: "url_values \<Rightarrow> nat" where
  "network_id qo = nat ((case Atoi (qo ''networkId'') of Inl e \<Rightarrow> 1 | Inr n \<Rightarrow> n) mod 2 ^ 64)"

text \<open>The rows of a query by network are those of the network's exchange, when it has one exchange.\<close>

lemma filterByNetworkId_selects:
  assumes "lookup_ok exs lookup" and "filterByNetworkId (table_find exs) qo q lookup = ((q', None), lookup')"
  shows "lookup_ok exs lookup' \<and> query_rows q' rows =
    filter (\<lambda>r. map ex_Address (filter (\<lambda>e. ex_Network e = network_id qo) exs) = [ExchangeAddress (types_Order r)])
      (query_rows q rows)"
proof -
  define as where "as = map ex_Address (filter (\<lambda>e. ex_Network e = network_id qo) exs)"
  obtain l where l: "GetExchangesByNetwork (table_find exs) (network_id qo) lookup = (Inr as, l)" "lookup_ok exs l"
    using GetExchangesByNetwork_ok [OF assms(1)] as_def by blast
  have f: "filterByNetworkId (table_find exs) qo q lookup = (case as of
      [] \<Rightarrow> ((q, Some (''Network id '' @
          big_String (case Atoi (qo ''networkId'') of Inl e \<Rightarrow> 1 | Inr n \<Rightarrow> n) @ '' is not supported'')), l)
    | [a] \<Rightarrow> ((column_where (\<lambda>ord. ExchangeAddress ord = a) q, None), l)
    | a # b # cs \<Rightarrow> ((BrokenQuery, None), l))"
    using l(1) by (simp add: filterByNetworkId_def network_id_def Let_def split: list.split)
  have "lookup_ok exs lookup' \<and>
      query_rows q' rows = filter (\<lambda>r. as = [ExchangeAddress (types_Order r)]) (query_rows q rows)"
  proof (cases as rule: remdups_adj.cases)
    case (2 a)
    then show ?thesis using assms(2) f l(2)
      by (auto simp: query_rows_column_where intro!: filter_cong)
  qed (use assms(2) f l(2) in auto)
  then show ?thesis by (simp add: as_def)
qed

section \<open>Pages of a query\<close>

lemma page_offset_small:
  assumes p: "1 \<le> p" "p * per < 2 ^ 62"
  shows "page_offset (int p) (int per) = int ((p - 1) * per)"
proof (cases "per = 0")
  case True
  then show ?thesis by (simp add: page_offset_def int64_of_def)
next
  case False
  then have "p * 1 \<le> p * per" by (intro mult_le_mono) auto
  then have "p < 2 ^ 62" using p by linarith
  then have "int p < int (2 ^ 62)" by (rule of_nat_less_iff [THEN iffD2])
  then have one: "int64_of (int p - 1) = int p - 1" by (intro int64_of_small) auto
  have "(p - 1) * per \<le> p * per" by simp
  then have "(p - 1) * per < 2 ^ 62" using p(2) by (rule le_less_trans)
  then have "int ((p - 1) * per) < int (2 ^ 62)" by (rule of_nat_less_iff [THEN iffD2])
  then have two: "int64_of (int ((p - 1) * per)) = int ((p - 1) * per)"
    by (intro int64_of_small) (simp_all del: of_nat_mult)
  have "(int p - 1) * int per = int ((p - 1) * per)" using p(1) by (simp add: of_nat_diff)
  then show ?thesis unfolding page_offset_def one using two by (simp only:)
qed

lemma take_drop_pages: "concat (map (\<lambda>p. take per (drop (p * per) xs)) [0..<n]) = take (n * per) xs"
proof (induction n)
  case (Suc n)
  have "take (n * per) xs @ take per (drop (n * per) xs) = take (n * per + per) xs"
    by (rule take_add [symmetric])
  with Suc show ?case by (simp add: add.commute)
qed simp

lemma fetch_page_rows:
  assumes "1 \<le> p" and "p * per < 2 ^ 62"
  shows "fetch_page (Query Q) (int p) (int per) rows =
    (length (filter Q rows), Inr (take per (drop ((p - 1) * per) (filter Q rows))))"
proof (cases "(p - 1) * per < length (filter Q rows)")
  case True
  then show ?thesis unfolding fetch_page_def Let_def page_offset_small [OF assms] query_rows.simps of_nat_less_iff
    by (simp add: page_rows_def query_broken_def del: of_nat_mult)
next
  case False
  then show ?thesis unfolding fetch_page_def Let_def page_offset_small [OF assms] query_rows.simps of_nat_less_iff
    by (simp add: page_rows_def del: of_nat_mult)
qed

text \<open>The pages of a search partition its result: as long as the database keeps its order, the
  pages one after the other hold every matching order exactly once, and each states the total.\<close>

lemma pages_partition:
  assumes "length (filter Q rows) \<le> n * per" and "n * per < 2 ^ 62"
  shows "concat (map (\<lambda>p. case fetch_page (Query Q) (int p) (int per) rows of
      (n_rows, Inr page) \<Rightarrow> if n_rows = length (filter Q rows) then page else []
    | (n_rows, Inl e) \<Rightarrow> []) [1..<Suc n]) = filter Q rows"
proof -
  have page: "fetch_page (Query Q) (int p) (int per) rows =
      (length (filter Q rows), Inr (take per (drop ((p - 1) * per) (filter Q rows))))"
    if "p \<in> set [1..<Suc n]" for p
  proof (rule fetch_page_rows)
    show "1 \<le> p" using that by auto
    have "p * per \<le> n * per" using that by (intro mult_le_mono) auto
    then show "p * per < 2 ^ 62" using assms(2) by linarith
  qed
  have "map (\<lambda>p. case fetch_page (Query Q) (int p) (int per) rows of
      (n_rows, Inr page) \<Rightarrow> if n_rows = length (filter Q rows) then page else []
    | (n_rows, Inl e) \<Rightarrow> []) [1..<Suc n] = map (\<lambda>p. take per (drop ((p - 1) * per) (filter Q rows))) [1..<Suc n]"
    using page by (intro map_cong) simp_all
  also have "\<dots> = map (\<lambda>p. take per (drop (p * per) (filter Q rows))) [0..<n]"
    unfolding map_Suc_upt [symmetric] One_nat_def by simp
  finally show ?thesis using assms(1) by (simp add: take_drop_pages)
qed

end
