(* ===== verification/SearchApi.thy ===== *)
theory SearchApi
  imports Queries "HOL-Library.Product_Lexorder"
begin

text \<open>
  The handlers of the search API (\<open>search/\<close>). A handler reads the table \<open>rows\<close>, in the order in which
  the database returns it, and writes its response. \<open>enc\<close> is the text of a JSON value, \<open>num\<close> that of a
  floating point column, which may fail, and \<open>uri\<close> the URI of a request with another query.
\<close>

type_synonym uri_with = "request \<Rightarrow> (string \<times> string) list \<Rightarrow> string"

section \<open>Formatting\<close>

definition taker_remaining :: "order \<Rightarrow> string go" where
  "taker_remaining ord =
     go_bind (Uint256_Big (TakerAssetAmount ord)) (\<lambda>a.
       go_map (\<lambda>f. big_String (a - f)) (Uint256_Big (TakerAssetAmountFilled ord)))"

definition json_metadata :: "'f db_order \<Rightarrow> string \<Rightarrow> string \<Rightarrow> json" where
  "json_metadata row feeRate remaining =
     JObject [(''hash'', JString (sprintf_hex (OrderHash row))), (''feeRate'', JNumber feeRate),
              (''status'', JNumber (big_String (Status row))), (''takerAssetAmountRemaining'', JString remaining)]"

definition GetFormattedOrder :: "'f num_text \<Rightarrow> 'f db_order \<Rightarrow> (err + json) go" where
  "GetFormattedOrder num row =
     go_bind (taker_remaining (types_Order row)) (\<lambda>remaining.
       go_map (\<lambda>j. case num (FeeRate row) of
           Inl e \<Rightarrow> Inl e
         | Inr feeRate \<Rightarrow> Inr (JObject [(''order'', j), (''metaData'', json_metadata row feeRate remaining)]))
         (Order_MarshalJSON (types_Order row)))"

fun format_orders :: "'f num_text \<Rightarrow> 'f db_order list \<Rightarrow> (err + json list) go" where
  "format_orders num [] = Ret (Inr [])"
| "format_orders num (r # rs) =
     go_bind (GetFormattedOrder num r) (\<lambda>x. go_map (\<lambda>xs. try_bind x (\<lambda>j. try_bind xs (\<lambda>js. Inr (j # js))))
       (format_orders num rs))"

definition GetPagedResult :: "int \<Rightarrow> int \<Rightarrow> int \<Rightarrow> json \<Rightarrow> json" where
  "GetPagedResult matched page per_page records =
     JObject [(''total'', JNumber (big_String matched)), (''page'', JNumber (big_String page)),
              (''perPage'', JNumber (big_String per_page)), (''records'', records)]"

text \<open>The body and its content type.\<close>

definition FormatResponse ::
  "json_enc \<Rightarrow> 'f num_text \<Rightarrow> 'f db_order list \<Rightarrow> string \<Rightarrow> int \<Rightarrow> int \<Rightarrow> int \<Rightarrow> (err + string \<times> string) go"
where
  "FormatResponse enc num orders format matched page perPage =
     (if format = ''application/octet-stream''
      then Ret (Inr (concat (map (\<lambda>r. string_of_bytes (Order_Bytes (types_Order r))) orders), ''application/octet-stream''))
      else go_map (\<lambda>js. try_bind js (\<lambda>js. Inr (enc (GetPagedResult matched page perPage (JArray js)), ''application/json'')))
             (format_orders num orders))"

definition FormatSingleResponse ::
  "json_enc \<Rightarrow> 'f num_text \<Rightarrow> 'f db_order \<Rightarrow> string \<Rightarrow> (err + string \<times> string) go"
where
  "FormatSingleResponse enc num row format =
     (if format = ''application/octet-stream''
      then Ret (Inr (string_of_bytes (Order_Bytes (types_Order row)), ''application/octet-stream''))
      else go_map (\<lambda>j. try_bind j (\<lambda>j. Inr (enc j, ''application/json''))) (GetFormattedOrder num row))"

section \<open>Errors\<close>

definition search_returnError :: "err \<Rightarrow> nat \<Rightarrow> response \<Rightarrow> response" where
  "search_returnError e code w =
     write_body (''{\"code\":100,\"reason\":\"'' @ e @ ''\"}'') (WriteHeader code (content_json w))"

definition json_of_search_error :: "search_error \<Rightarrow> json" where
  "json_of_search_error s =
     JObject [(''reason'', JString (se_Err s)), (''code'', JNumber (big_String (se_Code s))),
              (''field'', JString (se_Field s))]"

text \<open>The tag of the list of errors has no quotes, so it is encoded under the name of the field.\<close>

definition returnErrorList :: "json_enc \<Rightarrow> search_error list \<Rightarrow> response \<Rightarrow> response" where
  "returnErrorList enc errs w =
     write_body (enc (JObject [(''code'', JNumber ''100''), (''reason'', JString ''Validation Failed''),
         (''Errors'', JArray (map json_of_search_error errs))]))
       (WriteHeader 400 (content_json w))"

definition page_error :: "err option \<Rightarrow> search_error list" where
  "page_error e = (case e of None \<Rightarrow> [] | Some x \<Rightarrow> [\<lparr>se_Err = x, se_Code = 1001, se_Field = ''page''\<rparr>])"

text \<open>The format a client accepts.\<close>

definition accept_format :: "request \<Rightarrow> string go" where
  "accept_format r = go_map (\<lambda>m. case m of Some f \<Rightarrow> f | None \<Rightarrow> ''unknown'') (media_type ''Accept'' r)"

section \<open>Search\<close>

definition values_set :: "string \<Rightarrow> string \<Rightarrow> (string \<times> string) list \<Rightarrow> (string \<times> string) list" where
  "values_set k v q = filter (\<lambda>(k', _). k' \<noteq> k) q @ [(k, v)]"

definition search_reply :: "uri_with \<Rightarrow> request \<Rightarrow> int \<Rightarrow> err + string \<times> string \<Rightarrow> response \<Rightarrow> response" where
  "search_reply uri r page formatted w =
     (case formatted of
        Inl e \<Rightarrow> search_returnError e 500 w
      | Inr (body, contentType) \<Rightarrow>
          write_body body (WriteHeader 200 (set_header ''Content-Type'' contentType
            (set_header ''Link''
              (''<'' @ uri r (values_set ''page'' (big_String (int64_of (page + 1))) (rq_Query r)) @ ''>; rel=\"next\"'') w))))"

text \<open>The query of a request and its page, or the refusal.\<close>

definition network_error :: "err option \<Rightarrow> search_error list" where
  "network_error e = (case e of None \<Rightarrow> [] | Some x \<Rightarrow> [\<lparr>se_Err = x, se_Code = 1006, se_Field = ''networkId''\<rparr>])"

definition paged_query ::
  "json_enc \<Rightarrow> url_values \<Rightarrow> search_error list \<Rightarrow> 'f query \<times> err option
     \<Rightarrow> (response \<Rightarrow> response) + 'f query \<times> int \<times> int"
where
  "paged_query enc qo errs narrowed =
     (case getPages qo of ((page, perPage), pe) \<Rightarrow>
        let errs' = errs @ network_error (snd narrowed) @ page_error pe in
        if errs' \<noteq> [] then Inl (returnErrorList enc errs') else Inr (fst narrowed, page, perPage))"

definition search_query ::
  "crypto \<Rightarrow> exchange_find \<Rightarrow> (string \<Rightarrow> err + url_values) \<Rightarrow> json_enc \<Rightarrow> int \<Rightarrow> url_values \<Rightarrow> 'w pool
     \<Rightarrow> exchange_lookup \<Rightarrow> (((response \<Rightarrow> response) + 'f query \<times> int \<times> int) \<times> exchange_lookup) go"
where
  "search_query C Find ParseQuery enc now qo pool lookup =
     go_bind (QueryFilter C now qo (Query (\<lambda>r. True))) (\<lambda>(q, errs).
     go_map (\<lambda>p. case p of
        Inl e \<Rightarrow> (Inl (search_returnError (''Pool filter error: '' @ e) 404), lookup)
      | Inr q1 \<Rightarrow> (case filterByNetworkId Find qo q1 lookup of (narrowed, lookup') \<Rightarrow>
                     (paged_query enc qo errs narrowed, lookup'))) (Pool_Filter C ParseQuery now pool q))"

text \<open>The ordering that \<open>SearchHandler\<close> asks for is given to a query that is not used.\<close>

definition SearchHandler ::
  "crypto \<Rightarrow> exchange_find \<Rightarrow> (string \<Rightarrow> err + url_values) \<Rightarrow> json_enc \<Rightarrow> 'f num_text \<Rightarrow> uri_with \<Rightarrow> int
     \<Rightarrow> 'f db_order list \<Rightarrow> response \<Rightarrow> request \<Rightarrow> 'w pool \<Rightarrow> exchange_lookup \<Rightarrow> (response \<times> exchange_lookup) go"
where
  "SearchHandler C Find ParseQuery enc num uri now rows w r pool lookup =
     go_bind (search_query C Find ParseQuery enc now (query_get r) pool lookup) (\<lambda>(x, lookup'). case x of
       Inl refuse \<Rightarrow> Ret (refuse w, lookup')
     | Inr (q, page, perPage) \<Rightarrow>
         (case fetch_page q page perPage rows of
            (matched, Inl e) \<Rightarrow> Ret (search_returnError e 500 w, lookup')
          | (matched, Inr orders) \<Rightarrow>
              go_bind (accept_format r) (\<lambda>format.
                go_map (\<lambda>x. (search_reply uri r page x w, lookup'))
                  (FormatResponse enc num orders format (int matched) page perPage))))"

section \<open>One order\<close>

definition is_hex_char :: "char \<Rightarrow> bool" where "is_hex_char c = (from_hex_char c \<noteq> None)"

text \<open>The group of the expression \<open>.*PREFIX([0-9a-fA-F]+)\<close> for one of some prefixes: the greedy \<open>.*\<close>
  takes the last place where it matches. Paths have no line breaks.\<close>

definition hash_here :: "string list \<Rightarrow> string \<Rightarrow> string option" where
  "hash_here prefixes s =
     (case filter (has_prefix s) prefixes of
        [] \<Rightarrow> None
      | p # _ \<Rightarrow>
          (let h = takeWhile is_hex_char (drop (length p) s) in if h = [] then None else Some h))"

fun last_hash :: "string list \<Rightarrow> string \<Rightarrow> string option" where
  "last_hash prefixes [] = None"
| "last_hash prefixes (c # cs) =
     (case last_hash prefixes cs of Some h \<Rightarrow> Some h | None \<Rightarrow> hash_here prefixes (c # cs))"

definition search_order_prefixes :: "string list" where "search_order_prefixes = [''/order/0x'']"

text \<open>\<open>First\<close> of the row with a hash.\<close>

type_synonym 'f order_first = "bytes \<Rightarrow> err + 'f db_order"

definition table_order :: "'f db_order list \<Rightarrow> 'f order_first" where
  "table_order rows h = (case find (\<lambda>r. OrderHash r = h) rows of None \<Rightarrow> Inl record_not_found | Some r \<Rightarrow> Inr r)"

definition OrderHandler ::
  "json_enc \<Rightarrow> 'f num_text \<Rightarrow> 'f order_first \<Rightarrow> response \<Rightarrow> request \<Rightarrow> response go"
where
  "OrderHandler enc num First w r =
     (case last_hash search_order_prefixes (rq_Path r) of
        None \<Rightarrow> Ret (search_returnError ''Malformed order hash'' 404 w)
      | Some hashHex \<Rightarrow>
          (case hex_DecodeString hashHex of
             Inl e \<Rightarrow> Ret (search_returnError e 400 w)
           | Inr hashBytes \<Rightarrow>
               (case First hashBytes of
                  Inl e \<Rightarrow> Ret (search_returnError e (if e = record_not_found then 404 else 500) w)
                | Inr row \<Rightarrow>
                    go_bind (accept_format r) (\<lambda>format. go_map (\<lambda>x. case x of
                        Inl e \<Rightarrow> search_returnError e 500 w
                      | Inr (body, contentType) \<Rightarrow>
                          write_body body (set_header ''Content-Type'' contentType (WriteHeader 200 w)))
                      (FormatSingleResponse enc num row format)))))"

section \<open>The order book\<close>

definition book_key :: "'f db_order \<Rightarrow> 'f \<times> 'f \<times> nat" where
  "book_key r = (Price r, FeeRate r, be_nat (ExpirationTimestampInSec (types_Order r)))"

text \<open>One side: the number of its orders and one page of them by price, fee rate and expiration.\<close>

definition book_side ::
  "'f query \<Rightarrow> asset_data \<Rightarrow> asset_data \<Rightarrow> int \<Rightarrow> int \<Rightarrow> ('f :: linorder) db_order list \<Rightarrow> nat \<times> 'f db_order list"
where
  "book_side q makerData takerData page perPage rows =
     (let orders = sort_key book_key (query_rows (column_where
            (\<lambda>ord. MakerAssetData ord = makerData \<and> TakerAssetData ord = takerData) q) rows);
          offset = page_offset page perPage
      in (length orders, if int (length orders) > offset then page_rows offset perPage orders else []))"

definition OrderBookHandler ::
  "crypto \<Rightarrow> (string \<Rightarrow> err + url_values) \<Rightarrow> json_enc \<Rightarrow> 'f num_text \<Rightarrow> int \<Rightarrow> ('f :: linorder) db_order list
     \<Rightarrow> response \<Rightarrow> request \<Rightarrow> 'w pool \<Rightarrow> response go"
where
  "OrderBookHandler C ParseQuery enc num now rows w r pool =
     (let qo = query_get r; base = qo ''baseAssetData''; quote = qo ''quoteAssetData'' in
      case getPages qo of ((page, perPage), pe) \<Rightarrow>
      if base = [] \<or> quote = []
      then Ret (search_returnError ''Must provide baseAssetData and quoteAssetData '' 404 w)
      else let data = (\<lambda>field s. case HexToAssetData s of
                   Inl e \<Rightarrow> [\<lparr>se_Err = e, se_Code = 1001, se_Field = field\<rparr>] | Inr d \<Rightarrow> []);
               asset = (\<lambda>s. case HexToAssetData s of Inl e \<Rightarrow> [] | Inr d \<Rightarrow> d);
               current = getExpTime now qo in
        go_bind (Pool_Filter C ParseQuery now pool
            (Query (\<lambda>r. Status r = StatusOpen \<and> bytes_compare (ExpirationTimestampInSec (types_Order r)) current > 0))) (\<lambda>p.
          let errs = page_error pe @ data ''baseAssetData'' base @ data ''quoteAssetData'' quote @
                (case p of Inl e \<Rightarrow> [\<lparr>se_Err = e, se_Code = 1001, se_Field = ''pool''\<rparr>] | Inr _ \<Rightarrow> [])
          in case p of
               Inl e \<Rightarrow> Ret (returnErrorList enc errs w)
             | Inr q \<Rightarrow>
                 if errs \<noteq> [] then Ret (returnErrorList enc errs w)
                 else (case book_side q (asset quote) (asset base) page perPage rows of (bidCount, bids) \<Rightarrow>
                       case book_side q (asset base) (asset quote) page perPage rows of (askCount, asks) \<Rightarrow>
                       go_bind (format_orders num asks) (\<lambda>formattedAsks. go_map (\<lambda>formattedBids.
                         case (formattedAsks, formattedBids) of
                           (Inr as, Inr bs) \<Rightarrow>
                             write_body (enc (JObject
                                 [(''asks'', GetPagedResult (int askCount) page perPage (JArray as)),
                                  (''bids'', GetPagedResult (int bidCount) page perPage (JArray bs))]))
                               (content_json (WriteHeader 200 w))
                         | (Inl e, _) \<Rightarrow> search_returnError e 500 w
                         | (_, Inl e) \<Rightarrow> search_returnError e 500 w) (format_orders num bids)))))"

section \<open>What a search answers\<close>

lemma page_rows_beyond: "int (length xs) \<le> offset \<Longrightarrow> page_rows offset per xs = []"
  by (auto simp: page_rows_def Let_def)

lemma fetch_page_orders:
  assumes "fetch_page q page perPage rows = (n, Inr orders)"
  shows "orders = page_rows (page_offset page perPage) perPage (query_rows q rows)"
  using assms by (auto simp: fetch_page_def Let_def page_rows_beyond split: if_splits)

text \<open>The rows that answer a request: those its parameters and the pool's search terms select on the
  exchange of its network.\<close>

definition selected ::
  "crypto \<Rightarrow> int \<Rightarrow> url_values \<Rightarrow> url_values \<Rightarrow> exchange_row list \<Rightarrow> 'f db_order \<Rightarrow> bool"
where
  "selected C now qo terms exs row \<longleftrightarrow>
     Status row = StatusOpen \<and> order_matches C qo (types_Order row) \<and> unexpired now qo (types_Order row) \<and>
     order_matches C terms (types_Order row) \<and> unexpired now terms (types_Order row) \<and>
     map ex_Address (filter (\<lambda>e. ex_Network e = network_id qo) exs) = [ExchangeAddress (types_Order row)]"

lemma error_status [simp]:
  "resp_status (search_returnError e s new_response) = Some s"
  "resp_status (returnErrorList enc errs new_response) = Some 400"
  by (simp_all add: search_returnError_def returnErrorList_def response_defs)

lemma search_reply_ok:
  "resp_status (search_reply uri r page x new_response) = Some 200 \<Longrightarrow>
    \<exists>body ct. x = Inr (body, ct) \<and> resp_body (search_reply uri r page x new_response) = body"
proof (cases x)
  case (Inr y)
  then show ?thesis by (cases y) (simp add: search_reply_def response_defs Let_def)
qed (simp add: search_reply_def)

lemma search_query_steps:
  fixes r :: "((response \<Rightarrow> response) + 'f query \<times> int \<times> int) \<times> exchange_lookup"
  assumes "search_query C Find ParseQuery enc now qo pool lookup = Ret r"
  shows "\<exists>q0 errs p. QueryFilter C now qo (Query (\<lambda>r :: 'f db_order. True)) = Ret (q0, errs) \<and>
    Pool_Filter C ParseQuery now pool q0 = Ret p \<and>
    r = (case p of
      Inl e \<Rightarrow> (Inl (search_returnError (''Pool filter error: '' @ e) 404), lookup)
    | Inr q1 \<Rightarrow> (paged_query enc qo errs (fst (filterByNetworkId Find qo q1 lookup)),
                 snd (filterByNetworkId Find qo q1 lookup)))"
proof (cases "QueryFilter C now qo (Query (\<lambda>r :: 'f db_order. True))")
  case (Ret y)
  obtain q0 errs where y: "y = (q0, errs)" by (metis prod.exhaust)
  show ?thesis
  proof (cases "Pool_Filter C ParseQuery now pool q0")
    case p: (Ret p)
    show ?thesis
      using assms Ret y p by (cases p) (simp_all add: search_query_def case_prod_unfold)
  qed (use assms Ret y in \<open>simp add: search_query_def\<close>)
qed (use assms in \<open>simp add: search_query_def\<close>)

lemma paged_query_refuses: "paged_query enc qo errs narrowed = Inl refuse \<Longrightarrow> resp_status (refuse new_response) = Some 400"
  by (auto simp: paged_query_def Let_def split: prod.splits if_splits)

lemma search_query_refuses:
  fixes x :: "(response \<Rightarrow> response) + 'f query \<times> int \<times> int"
  assumes "search_query C Find ParseQuery enc now qo pool lookup = Ret (x, l)" and "x = Inl refuse"
  shows "resp_status (refuse new_response) \<noteq> Some 200"
proof -
  obtain q0 :: "'f query" and errs p where "(x, l) = (case p of
      Inl e \<Rightarrow> (Inl (search_returnError (''Pool filter error: '' @ e) 404), lookup)
    | Inr q1 \<Rightarrow> (paged_query enc qo errs (fst (filterByNetworkId Find qo q1 lookup)),
                 snd (filterByNetworkId Find qo q1 lookup)))"
    using search_query_steps [OF assms(1)] by blast
  with assms(2) show ?thesis by (cases p) (auto dest: paged_query_refuses [OF sym])
qed

lemma search_query_selects:
  fixes q :: "'f query"
  assumes h: "search_query C (table_find exs) ParseQuery enc now qo pool lookup = Ret (Inr (q, page, perPage), lookup')"
    and ok: "lookup_ok exs lookup"
  shows "getPages qo = ((page, perPage), None) \<and> lookup_ok exs lookup' \<and>
    (\<exists>terms. ParseQuery (SearchTerms pool) = Inr terms \<and>
       (\<forall>rows. query_rows q rows = filter (selected C now qo terms exs) rows))"
proof -
  obtain q0 errs p where q0: "QueryFilter C now qo (Query (\<lambda>r :: 'f db_order. True)) = Ret (q0, errs)"
    and p: "Pool_Filter C ParseQuery now pool q0 = Ret p"
    and r: "(Inr (q, page, perPage), lookup') = (case p of
      Inl e \<Rightarrow> (Inl (search_returnError (''Pool filter error: '' @ e) 404), lookup)
    | Inr q1 \<Rightarrow> (paged_query enc qo errs (fst (filterByNetworkId (table_find exs) qo q1 lookup)),
                 snd (filterByNetworkId (table_find exs) qo q1 lookup)))"
    using search_query_steps [OF h] by blast
  then obtain q1 narrowed where q1: "p = Inr q1"
    and n: "filterByNetworkId (table_find exs) qo q1 lookup = (narrowed, lookup')"
    and i: "paged_query enc qo errs narrowed = Inr (q, page, perPage)"
    by (cases p) (auto, metis prod.collapse)
  obtain ne where ne: "narrowed = (q, ne)" and none: "errs = []" "ne = None"
    and g: "getPages qo = ((page, perPage), None)"
    using i by (cases narrowed) (auto simp: paged_query_def network_error_def page_error_def Let_def
        split: prod.splits if_splits option.splits)
  obtain terms where t: "ParseQuery (SearchTerms pool) = Inr terms"
    "\<And>rows. query_rows q1 rows = filter (\<lambda>r. Status r = StatusOpen \<and> order_matches C terms (types_Order r) \<and>
      unexpired now terms (types_Order r)) (query_rows q0 rows)"
    using Pool_Filter_selects p q1 by blast
  have n': "filterByNetworkId (table_find exs) qo q1 lookup = ((q, None), lookup')"
    using n ne none by simp
  have "query_rows q rows = filter (selected C now qo terms exs) rows" for rows
    using filterByNetworkId_selects [OF ok n', of rows] t(2) [of rows]
      QueryFilter_selects [OF q0 [unfolded none], of rows]
    by (simp add: selected_def conj_ac cong: filter_cong)
  with t(1) g filterByNetworkId_selects [OF ok n'] show ?thesis by blast
qed


definition sample_search :: request where
  "sample_search =
     \<lparr>rq_Method = ''GET'', rq_Path = ''/v2/orders'', rq_Header = [''Accept'' \<mapsto> [''application/octet-stream'']],
      rq_Query = [], rq_Read = (\<lambda>n. ([], None)), rq_All = ([], None)\<rparr>"

definition sample_open_row :: "unit db_order" where
  "sample_open_row = sample_row\<lparr>types_Order := sample_taker_order\<lparr>ExpirationTimestampInSec := zero_bytes 31 @ [5]\<rparr>\<rparr>"

definition sample_exchange :: exchange_row where
  "sample_exchange = \<lparr>ex_Address = zero_address, ex_Network = 1\<rparr>"

lemma sample_search_get: "query_get sample_search = no_params"
  by (simp add: query_get_def sample_search_def no_params_def fun_eq_iff)

lemma sample_accept: "accept_format sample_search = Ret ''application/octet-stream''"
  by (simp add: accept_format_def media_type_def sample_search_def go_index_def)

lemma sample_network: "Atoi (no_params ''networkId'') = Inl ''invalid syntax''"
  by (simp add: no_params_def Atoi_def big_SetString_def dec_parse_nat_def)

lemma sample_pages: "getPages no_params = ((1, 20), None)"
  by (simp add: getPages_def no_params_def Atoi_def big_SetString_def dec_parse_nat_def from_dec_char_def char_values Let_def)

lemma sample_query:
  "\<exists>Q l. search_query sample_crypto (table_find [sample_exchange]) (\<lambda>s. Inr no_params) (\<lambda>j. []) 0 no_params
      (empty_pool :: unit pool) NewExchangeLookup = Ret (Inr (Query Q, 1, 20), l)"
  by (simp add: search_query_def QueryFilter_no_params Pool_Filter_def filterByNetworkId_def sample_network
      GetExchangesByNetwork_def NewExchangeLookup_def table_find_def sample_exchange_def Let_def
      paged_query_def sample_pages network_error_def page_error_def column_where_def)

lemma sample_selected: "selected sample_crypto 0 no_params no_params [sample_exchange] sample_open_row"
proof -
  have "abi_U256 (int (be_nat zero_uint256)) = zero_uint256" by (rule abi_U256_of_be_nat) simp
  then have "getExpTime 0 no_params = zero_uint256"
    by (simp add: getExpTime_def no_params_def zero_uint256_def go_copy_same_length)
  moreover have z: "zero_uint256 = zero_bytes 31 @ [0]"
    using replicate_add [of 31 1 "0 :: byte"] by (simp add: zero_uint256_def zero_bytes_def)
  have "bytes_compare (zero_bytes 31 @ [5]) zero_uint256 > 0" unfolding z by simp
  ultimately have "unexpired 0 no_params (types_Order sample_open_row)"
    by (simp add: unexpired_def sample_open_row_def)
  moreover have "ExchangeAddress (types_Order sample_open_row) = zero_address"
    by (simp add: sample_open_row_def sample_taker_order_def sample_order_def Initialize_def)
  moreover have "Status sample_open_row = StatusOpen" by (simp add: sample_open_row_def sample_row_def)
  ultimately show ?thesis
    by (simp add: selected_def order_matches_def given_def network_id_def sample_network)
      (simp add: no_params_def sample_exchange_def)
qed


section \<open>The order book's pages\<close>

lemma book_side_page:
  assumes "1 \<le> p" and "p * per < 2 ^ 62"
  shows "snd (book_side (Query Q) makerData takerData (int p) (int per) rows) =
    take per (drop ((p - 1) * per) (sort_key book_key (filter (\<lambda>r. Q r \<and>
      MakerAssetData (types_Order r) = makerData \<and> TakerAssetData (types_Order r) = takerData) rows)))"
proof -
  define xs where "xs = sort_key book_key (filter (\<lambda>r. Q r \<and>
      MakerAssetData (types_Order r) = makerData \<and> TakerAssetData (types_Order r) = takerData) rows)"
  have "snd (book_side (Query Q) makerData takerData (int p) (int per) rows) =
      (if int (length xs) > int ((p - 1) * per) then page_rows (int ((p - 1) * per)) (int per) xs else [])"
    by (simp add: book_side_def Let_def column_where_def page_offset_small [OF assms] xs_def del: of_nat_mult)
  also have "\<dots> = take per (drop ((p - 1) * per) xs)"
    by (simp add: page_rows_def del: of_nat_mult)
  finally show ?thesis by (simp add: xs_def)
qed



end
