(* ===== verification/Listings.thy ===== *)
theory Listings
  imports SearchApi
begin

text \<open>
  The lists the search API offers besides orders: the token pairs of the order table
  (\<open>db/pairs.go\<close>, \<open>search/pairs.go\<close>) and the fee recipients (\<open>search/fee_recipients.go\<close>); its health check
  (\<open>search/healthcheck.go\<close>), the decorator that puts the last block hash into a request
  (\<open>search/search.go\<close>) and the routes of \<open>cmd/searchapi\<close>.
\<close>

section \<open>Token pairs\<close>

type_synonym token_pair = "asset_data \<times> asset_data"

definition json_of_pair :: "token_pair \<Rightarrow> json" where
  "json_of_pair p =
     (let side = (\<lambda>d. JObject [(''assetData'', JString (sprintf_hex d)), (''minAmount'', JString ''1''),
         (''maxAmount'', JString (big_String (2 ^ 256 - 1))), (''precision'', JNumber ''5'')])
      in JObject [(''assetDataA'', side (fst p)), (''assetDataB'', side (snd p))])"

text \<open>\<open>LEAST\<close> and \<open>GREATEST\<close> of two \<open>bytea\<close> values; \<open>SELECT DISTINCT\<close> of the pairs that are traded on
  the exchanges of a network.\<close>

definition pair_of :: "token_pair \<Rightarrow> token_pair" where
  "pair_of p = (if bytes_compare (fst p) (snd p) \<le> 0 then p else (snd p, fst p))"

definition network_exchanges :: "exchange_row list \<Rightarrow> int \<Rightarrow> address list" where
  "network_exchanges exs networkID = map ex_Address (filter (\<lambda>e. int (ex_Network e) = networkID) exs)"

definition traded_pairs :: "exchange_row list \<Rightarrow> int \<Rightarrow> 'f db_order list \<Rightarrow> token_pair list" where
  "traded_pairs exs networkID rows =
     remdups (map (\<lambda>r. (MakerAssetData (types_Order r), TakerAssetData (types_Order r)))
       (filter (\<lambda>r. ExchangeAddress (types_Order r) \<in> set (network_exchanges exs networkID)) rows))"

definition GetAllTokenPairs ::
  "exchange_row list \<Rightarrow> int \<Rightarrow> int \<Rightarrow> int \<Rightarrow> 'f db_order list \<Rightarrow> token_pair list \<times> nat"
where
  "GetAllTokenPairs exs offset lim networkID rows =
     (let pairs = remdups (map pair_of (traded_pairs exs networkID rows))
      in (page_rows offset lim pairs, length pairs))"

definition GetTokenAPairs ::
  "exchange_row list \<Rightarrow> asset_data \<Rightarrow> int \<Rightarrow> int \<Rightarrow> int \<Rightarrow> 'f db_order list \<Rightarrow> token_pair list \<times> nat"
where
  "GetTokenAPairs exs tokenA offset lim networkID rows =
     (let pairs = remdups (map pair_of
            (filter (\<lambda>(m, t). t = tokenA \<or> m = tokenA) (traded_pairs exs networkID rows)))
      in (page_rows offset lim pairs, length pairs))"

definition GetTokenABPairs ::
  "exchange_row list \<Rightarrow> asset_data \<Rightarrow> asset_data \<Rightarrow> int \<Rightarrow> 'f db_order list \<Rightarrow> token_pair list \<times> nat"
where
  "GetTokenABPairs exs tokenA tokenB networkID rows =
     (let pairs = remdups (map pair_of
            (filter (\<lambda>(m, t). t = tokenA \<and> m = tokenB \<or> m = tokenA \<and> t = tokenB) (traded_pairs exs networkID rows)))
      in (pairs, length pairs))"

definition PairHandler ::
  "json_enc \<Rightarrow> exchange_row list \<Rightarrow> 'f db_order list \<Rightarrow> response \<Rightarrow> request \<Rightarrow> response"
where
  "PairHandler enc exs rows w r =
     (let qo = query_get r;
          swap = (qo ''assetDataA'' = [] \<and> qo ''assetDataB'' \<noteq> []);
          tokenA = (if swap then qo ''assetDataB'' else qo ''assetDataA'');
          tokenB = (if swap then [] else qo ''assetDataB'');
          networkID = (case Atoi (qo ''networkId'') of Inl e \<Rightarrow> 1 | Inr n \<Rightarrow> n) in
      case getPages qo of ((page, perPage), pe) \<Rightarrow>
      let offset = page_offset page perPage in
      case pe of
        Some e \<Rightarrow> search_returnError e 400 w
      | None \<Rightarrow>
          (case (if tokenA = [] then Inr (GetAllTokenPairs exs offset perPage networkID rows)
                 else try_bind (HexToAssetData tokenA) (\<lambda>a.
                        if tokenB = [] then Inr (GetTokenAPairs exs a offset perPage networkID rows)
                        else try_bind (HexToAssetData tokenB) (\<lambda>b. Inr (GetTokenABPairs exs a b networkID rows)))) of
             Inl e \<Rightarrow> search_returnError e 400 w
           | Inr (pairs, n) \<Rightarrow>
               write_body (enc (GetPagedResult (int n) page perPage (JArray (map json_of_pair pairs))))
                 (content_json (WriteHeader 200 w))))"

lemma pair_of_ordered: "bytes_compare (fst (pair_of p)) (snd (pair_of p)) \<le> 0"
  using bytes_compare_swap [of "snd p" "fst p"] by (auto simp: pair_of_def)

lemma bytes_compare_both: "bytes_compare a b \<le> 0 \<Longrightarrow> bytes_compare b a \<le> 0 \<Longrightarrow> a = b"
  using bytes_compare_swap [of a b] bytes_compare_0 [of a b] by auto

text \<open>C26: every pair of tokens that is traded on the network, in whichever direction, is listed once and
  nothing else is: the total counts them, and a page of that size holds them all.\<close>

theorem token_pairs_listed_once:
  "\<exists>pairs. GetAllTokenPairs exs 0 (int (snd (GetAllTokenPairs exs 0 0 networkID rows))) networkID rows = (pairs, length pairs) \<and>
     distinct pairs \<and>
     set pairs = {pair_of (MakerAssetData (types_Order r), TakerAssetData (types_Order r)) | r.
       r \<in> set rows \<and> ExchangeAddress (types_Order r) \<in> set (network_exchanges exs networkID)} \<and>
     inj_on (\<lambda>p. {fst p, snd p}) (set pairs)"
proof -
  define pairs where "pairs = remdups (map pair_of (traded_pairs exs networkID rows))"
  have "GetAllTokenPairs exs 0 (int (snd (GetAllTokenPairs exs 0 0 networkID rows))) networkID rows = (pairs, length pairs)"
    by (simp add: GetAllTokenPairs_def pairs_def Let_def page_rows_def)
  moreover have "set pairs = {pair_of (MakerAssetData (types_Order r), TakerAssetData (types_Order r)) | r.
       r \<in> set rows \<and> ExchangeAddress (types_Order r) \<in> set (network_exchanges exs networkID)}"
    by (auto simp: pairs_def traded_pairs_def)
  moreover have "p = q" if "p \<in> set pairs" "q \<in> set pairs" "{fst p, snd p} = {fst q, snd q}" for p q
  proof -
    from that(1,2) obtain x y where "p = pair_of x" "q = pair_of y" by (auto simp: pairs_def)
    with that(3) show ?thesis
      using pair_of_ordered [of x] pair_of_ordered [of y]
      by (cases "pair_of x"; cases "pair_of y") (auto simp: doubleton_eq_iff dest: bytes_compare_both)
  qed
  then have "inj_on (\<lambda>p. {fst p, snd p}) (set pairs)" by (intro inj_onI)
  moreover have "distinct pairs" by (simp add: pairs_def)
  ultimately show ?thesis by blast
qed

section \<open>Fee recipients\<close>

text \<open>A slice of a list, which panics when the bounds are out of order or range.\<close>

definition go_slice_int :: "'a list \<Rightarrow> int \<Rightarrow> int \<Rightarrow> 'a list go" where
  "go_slice_int xs lo hi =
     (if 0 \<le> lo \<and> lo \<le> hi \<and> hi \<le> int (length xs) then Ret (take (nat (hi - lo)) (drop (nat lo) xs))
      else Panic IndexOutOfRange)"

definition FeeRecipientHandler ::
  "json_enc \<Rightarrow> err + address list \<Rightarrow> response \<Rightarrow> request \<Rightarrow> response go"
where
  "FeeRecipientHandler enc affiliates w r =
     (case getPages (query_get r) of ((page, perPage), pe) \<Rightarrow>
      case affiliates of
        Inl e \<Rightarrow> Ret (search_returnError e 500 w)
      | Inr as \<Rightarrow>
          if page_error pe \<noteq> [] then Ret (returnErrorList enc (page_error pe) w)
          else (let n = int (length as);
                    startIndex = min (page_offset page perPage) n;
                    endIndex = min (int64_of (page * perPage)) n
                in go_map (\<lambda>records. write_body
                      (enc (GetPagedResult n page perPage (JArray (map (\<lambda>a. JString (sprintf_hex a)) records))))
                      (content_json (WriteHeader 200 w))) (go_slice_int as startIndex endIndex)))"

text \<open>A page before the first panics.\<close>

lemma FeeRecipientHandler_page_0:
  assumes "getPages (query_get r) = ((0, 20), None)"
  shows "FeeRecipientHandler enc (Inr as) w r = Panic IndexOutOfRange"
  using assms
  by (simp add: FeeRecipientHandler_def page_error_def page_offset_def int64_of_def go_slice_int_def Let_def)

section \<open>Health check and block hash\<close>

text \<open>\<open>strings.Trim(hash, "\"")\<close>; \<open>db\<close> is the error of a test query, when there is a database.\<close>

definition search_HealthCheckHandler :: "json_enc \<Rightarrow> err option \<Rightarrow> string \<Rightarrow> response \<Rightarrow> response" where
  "search_HealthCheckHandler enc db blockHash w =
     (let hash = trim_chars quote_set blockHash in
      if hash = [] then search_returnError ''Got empty blockhash'' 500 w
      else (case db of
              Some e \<Rightarrow> search_returnError e 500 w
            | None \<Rightarrow> write_body (enc (JObject [(''BlockHash'', JString hash)])) (content_json (WriteHeader 200 w))))"

text \<open>\<open>http.Redirect\<close>: a GET request is also given a note with the location.\<close>

definition http_Redirect :: "(string \<Rightarrow> string) \<Rightarrow> string \<Rightarrow> nat \<Rightarrow> request \<Rightarrow> response \<Rightarrow> response" where
  "http_Redirect note location status r w =
     (let w' = WriteHeader status (set_header ''Location'' location w)
      in if rq_Method r = ''GET'' then write_body (note location) w' else w')"

definition BlockHashDecorator ::
  "(string \<Rightarrow> string) \<Rightarrow> uri_with \<Rightarrow> string \<Rightarrow> (response \<Rightarrow> request \<Rightarrow> 'w \<Rightarrow> (response \<times> 'w) go)
     \<Rightarrow> response \<Rightarrow> request \<Rightarrow> 'w \<Rightarrow> (response \<times> 'w) go"
where
  "BlockHashDecorator note uri blockHash fn w r v =
     (if query_get r ''blockhash'' = []
      then Ret (http_Redirect note
             (uri r (values_set ''blockhash'' (trim_chars quote_set blockHash) (rq_Query r))) 307 r
             (set_header ''Cache-Control'' ''max-age=5, public'' w), v)
      else fn w r v)"

section \<open>The routes\<close>

text \<open>\<open>corsDecorator\<close> of \<open>cmd/searchapi\<close>.\<close>

definition corsDecorator ::
  "(response \<Rightarrow> request \<Rightarrow> 'w \<Rightarrow> (response \<times> 'w) go) \<Rightarrow> response \<Rightarrow> request \<Rightarrow> 'w \<Rightarrow> (response \<times> 'w) go"
where
  "corsDecorator fn w r v =
     (let w1 = set_header ''Access-Control-Allow-Methods'' ''GET'' (set_header ''Access-Control-Allow-Origin'' ''*'' w);
          h = header_get r ''Access-Control-Request-Headers'' in
      if rq_Method r = ''OPTIONS''
      then Ret (if h = [] then w1
                else WriteHeader 200 (set_header ''Cache-Control'' ''no-cache, no-store, must-revalidate''
                       (set_header ''Access-Control-Allow-Headers'' h w1)), v)
      else fn w1 r v)"

text \<open>The expressions \<open>^(/[^/]+)?SUFFIX$\<close>.\<close>

definition route_match :: "string \<Rightarrow> string \<Rightarrow> bool" where
  "route_match suffix path =
     (path = suffix \<or>
      (case path of
         [] \<Rightarrow> False
       | c # rest \<Rightarrow> c = CHR ''/'' \<and> takeWhile (\<lambda>x. x \<noteq> CHR ''/'') rest \<noteq> [] \<and>
           dropWhile (\<lambda>x. x \<noteq> CHR ''/'') rest = suffix))"

text \<open>\<open>ServeHTTP\<close>: the first route whose pattern matches.\<close>

definition ServeHTTP :: "((string \<Rightarrow> bool) \<times> 'h) list \<Rightarrow> string \<Rightarrow> 'h option" where
  "ServeHTTP routes path = map_option snd (find (\<lambda>(p, h). p path) routes)"

datatype search_route = SearchRoute | OrderRoute | PairRoute | BookRoute | RecipientRoute | HealthRoute

definition search_routes :: "((string \<Rightarrow> bool) \<times> search_route) list" where
  "search_routes =
     [(route_match ''/v2/orders'', SearchRoute), (route_match ''/v2/order/'', OrderRoute),
      (route_match ''/v2/asset_pairs'', PairRoute), (route_match ''/v2/orderbook'', BookRoute),
      (route_match ''/v2/fee_recipients'', RecipientRoute), (\<lambda>path. path = ''/_hc'', HealthRoute)]"

lemma last_hash_skip: "CHR ''/'' \<notin> set seg \<Longrightarrow> last_hash search_order_prefixes (seg @ rest) = last_hash search_order_prefixes rest"
  by (induction seg) (auto simp: hash_here_def search_order_prefixes_def has_prefix_def split: option.split)

lemma no_hash_after_order: "last_hash search_order_prefixes ''/v2/order/'' = None"
  by (simp add: hash_here_def search_order_prefixes_def has_prefix_def)

lemma no_order_in_segment:
  assumes "CHR ''/'' \<notin> set seg"
  shows "hash_here search_order_prefixes (CHR ''/'' # seg @ ''/v2/order/'') = None"
proof -
  have "\<not> has_prefix (CHR ''/'' # seg @ ''/v2/order/'') ''/order/0x''"
  proof
    assume "has_prefix (CHR ''/'' # seg @ ''/v2/order/'') ''/order/0x''"
    then have "take 8 (seg @ ''/v2/order/'') = ''order/0x''" by (simp add: has_prefix_def numeral_eq_Suc)
    then have "seg @ CHR ''/'' # ''v2/order/'' = ''order'' @ CHR ''/'' # ''0x'' @ drop 8 (seg @ ''/v2/order/'')"
      using append_take_drop_id [of 8 "seg @ ''/v2/order/''"] by simp
    with assms have "''v2/order/'' = ''0x'' @ drop 8 (seg @ ''/v2/order/'')"
      by (subst (asm) append_sep_inj) auto
    then show False by simp
  qed
  then show ?thesis by (simp add: hash_here_def search_order_prefixes_def)
qed

lemma order_route_no_hash:
  assumes "route_match ''/v2/order/'' path"
  shows "last_hash search_order_prefixes path = None"
proof (cases "path = ''/v2/order/''")
  case True
  then show ?thesis by (simp only: no_hash_after_order)
next
  case False
  with assms obtain rest where p: "path = CHR ''/'' # rest" "dropWhile (\<lambda>x. x \<noteq> CHR ''/'') rest = ''/v2/order/''"
    by (auto simp: route_match_def split: list.splits)
  define seg where "seg = takeWhile (\<lambda>x. x \<noteq> CHR ''/'') rest"
  have "rest = seg @ ''/v2/order/''"
    using p(2) takeWhile_dropWhile_id [of "\<lambda>x. x \<noteq> CHR ''/''" rest] by (simp add: seg_def)
  moreover have "CHR ''/'' \<notin> set seg" unfolding seg_def by (auto dest: set_takeWhileD)
  ultimately show ?thesis
    using p(1) last_hash_skip [of seg "''/v2/order/''"] no_hash_after_order no_order_in_segment [of seg]
    by simp
qed

text \<open>The search API's route for a single order only takes paths that end in \<open>/order/\<close>, so no path
  that reaches its handler holds an order hash: every such request is answered with 404.\<close>

lemma search_order_route_dead:
  assumes "ServeHTTP search_routes (rq_Path r) = Some OrderRoute"
  shows "OrderHandler enc num First w r = Ret (search_returnError ''Malformed order hash'' 404 w)"
proof -
  have "route_match ''/v2/order/'' (rq_Path r)"
    using assms by (auto simp: ServeHTTP_def search_routes_def split: if_splits)
  then show ?thesis by (simp add: OrderHandler_def order_route_no_hash)
qed

end
