(* ===== verification/Assets.thy ===== *)
theory Assets
  imports Exchanges Queries
begin

text \<open>
  The tables of supported assets, their proxies and the pairs they are traded in (\<open>db/asset.go\<close>,
  \<open>db/asset_proxy.go\<close>, \<open>db/asset_pair.go\<close>). The lists are in the order of the primary keys, and a
  new key is taken to be the last; joins are list comprehensions.
\<close>

text \<open>\<open>gorm\<close> leaves out a limit or offset that is no \<open>int64\<close>.\<close>

definition sql_bound :: "nat \<Rightarrow> int" where "sql_bound n = (if n < 2 ^ 63 then int n else -1)"

section \<open>Asset tables\<close>

record asset =
  as_Symbol :: string
  as_Name :: string
  as_Address :: address
  as_Decimals :: nat
  as_ProxyID :: bytes
  as_Data :: "asset_data option"
  as_Precision :: nat
  as_MinTradeAmount :: uint256
  as_MaxTradeAmount :: uint256
  as_ZeroEx :: bool
  as_Active :: bool
  as_Quote :: bool

record asset_proxy =
  px_ID :: bytes
  px_Name :: string
  px_Address :: address
  px_ExchangeAddress :: address
  px_ZeroEx :: bool

record asset_pair =
  ap_ID :: nat
  ap_SymbolA :: string
  ap_SymbolB :: string
  ap_Active :: bool

text \<open>\<open>db_Fault\<close> is the error of every query, if the database has one.\<close>

record asset_db =
  db_Assets :: "asset list"
  db_Proxies :: "asset_proxy list"
  db_Pairs :: "asset_pair list"
  db_Exchanges :: "exchange_row list"
  db_Fault :: "err option"

definition first_row :: "asset_db \<Rightarrow> 'r list \<Rightarrow> ('r \<Rightarrow> bool) \<Rightarrow> err + 'r" where
  "first_row db rows P =
     (case db_Fault db of
        Some e \<Rightarrow> Inl e
      | None \<Rightarrow> (case find P rows of None \<Rightarrow> Inl record_not_found | Some r \<Rightarrow> Inr r))"

definition right_of :: "'e + 'r \<Rightarrow> 'r option" where
  "right_of x = (case x of Inl e \<Rightarrow> None | Inr r \<Rightarrow> Some r)"

definition GetAssetBySymbol :: "asset_db \<Rightarrow> string \<Rightarrow> asset option" where
  "GetAssetBySymbol db symbol = right_of (first_row db (db_Assets db) (\<lambda>a. as_Symbol a = symbol))"

definition GetAssetByName :: "asset_db \<Rightarrow> string \<Rightarrow> asset option" where
  "GetAssetByName db name = right_of (first_row db (db_Assets db) (\<lambda>a. as_Name a = name))"

definition GetAssetProxyByID :: "asset_db \<Rightarrow> bytes \<Rightarrow> asset_proxy option" where
  "GetAssetProxyByID db n = right_of (first_row db (db_Proxies db) (\<lambda>p. px_ID p = n))"

definition GetAssetProxyByName :: "asset_db \<Rightarrow> string \<Rightarrow> asset_proxy option" where
  "GetAssetProxyByName db name = right_of (first_row db (db_Proxies db) (\<lambda>p. px_Name p = name))"

section \<open>Saving\<close>

text \<open>\<open>FirstOrCreate\<close> without a condition: the first row with the primary key of the new one, or any
  row when that key is blank (which \<open>gorm\<close> decides by the field \<open>id\<close> where there are several), is read
  into the argument; only when there is none is the argument inserted.\<close>

definition FirstOrCreate ::
  "err option \<Rightarrow> bool \<Rightarrow> ('r \<Rightarrow> 'r \<Rightarrow> bool) \<Rightarrow> ('r \<Rightarrow> err + 'r) \<Rightarrow> 'r \<Rightarrow> 'r list \<Rightarrow> err option \<times> 'r \<times> 'r list"
where
  "FirstOrCreate fault blank same create row rows =
     (case fault of
        Some e \<Rightarrow> (Some e, row, rows)
      | None \<Rightarrow>
          (case find (\<lambda>r. blank \<or> same row r) rows of
             Some r \<Rightarrow> (None, r, rows)
           | None \<Rightarrow> (case create row of Inl e \<Rightarrow> (Some e, row, rows) | Inr r \<Rightarrow> (None, r, rows @ [r]))))"

definition Asset_Save :: "(asset \<Rightarrow> err + asset) \<Rightarrow> asset \<Rightarrow> asset_db \<Rightarrow> err option \<times> asset \<times> asset_db" where
  "Asset_Save create a db =
     (case FirstOrCreate (db_Fault db) (as_Symbol a = []) (\<lambda>x y. as_Symbol x = as_Symbol y) create a (db_Assets db) of
        (e, a', rows) \<Rightarrow> (e, a', db\<lparr>db_Assets := rows\<rparr>))"

definition AssetProxy_Save ::
  "(asset_proxy \<Rightarrow> err + asset_proxy) \<Rightarrow> asset_proxy \<Rightarrow> asset_db \<Rightarrow> err option \<times> asset_proxy \<times> asset_db"
where
  "AssetProxy_Save create x db =
     (case FirstOrCreate (db_Fault db) (px_ID x = []) (\<lambda>x y. px_ID x = px_ID y) create x (db_Proxies db) of
        (e, x', rows) \<Rightarrow> (e, x', db\<lparr>db_Proxies := rows\<rparr>))"

definition AssetPair_Save ::
  "(asset_pair \<Rightarrow> err + asset_pair) \<Rightarrow> asset_pair \<Rightarrow> asset_db \<Rightarrow> err option \<times> asset_pair \<times> asset_db"
where
  "AssetPair_Save create p db =
     (case FirstOrCreate (db_Fault db) (ap_ID p = 0)
         (\<lambda>x y. ap_ID x = ap_ID y \<and> ap_SymbolA x = ap_SymbolA y \<and> ap_SymbolB x = ap_SymbolB y) create p (db_Pairs db) of
        (e, p', rows) \<Rightarrow> (e, p', db\<lparr>db_Pairs := rows\<rparr>))"

section \<open>Pairs and joins\<close>

text \<open>A pair with the assets that \<open>Preload\<close> finds for its symbols.\<close>

type_synonym loaded_pair = "asset_pair \<times> asset option \<times> asset option"

definition Preload :: "asset_db \<Rightarrow> asset_pair \<Rightarrow> loaded_pair" where
  "Preload db p =
     (p, find (\<lambda>a. as_Symbol a = ap_SymbolA p) (db_Assets db), find (\<lambda>a. as_Symbol a = ap_SymbolB p) (db_Assets db))"

definition find_pairs ::
  "asset_db \<Rightarrow> (asset_pair list \<Rightarrow> asset_pair list) \<Rightarrow> asset_pair list \<Rightarrow> loaded_pair list \<times> nat \<times> err option"
where
  "find_pairs db limits pairs =
     (case db_Fault db of
        Some e \<Rightarrow> ([], 0, Some e)
      | None \<Rightarrow> (map (Preload db) (limits pairs), length pairs, None))"

text \<open>The pairs joined with their assets.\<close>

definition joined_assets :: "asset_db \<Rightarrow> (asset_pair \<times> asset \<times> asset) list" where
  "joined_assets db =
     [(p, a, b). p \<leftarrow> db_Pairs db, a \<leftarrow> db_Assets db, as_Symbol a = ap_SymbolA p,
        b \<leftarrow> db_Assets db, as_Symbol b = ap_SymbolB p]"

text \<open>The exchanges an asset is traded on in a network, as often as the joins give them.\<close>

definition asset_exchanges :: "asset_db \<Rightarrow> nat \<Rightarrow> asset \<Rightarrow> exchange_row list" where
  "asset_exchanges db networkID a =
     [e. x \<leftarrow> db_Proxies db, px_ID x = as_ProxyID a, e \<leftarrow> db_Exchanges db,
        ex_Address e = px_ExchangeAddress x, ex_Network e = networkID]"

definition pairs_where :: "asset_db \<Rightarrow> nat \<Rightarrow> (asset \<Rightarrow> asset \<Rightarrow> bool) \<Rightarrow> asset_pair list" where
  "pairs_where db networkID P =
     [p. (p, a, b) \<leftarrow> joined_assets db, _ \<leftarrow> asset_exchanges db networkID a, _ \<leftarrow> asset_exchanges db networkID b, P a b]"

definition db_GetAssetPairs :: "asset_db \<Rightarrow> nat \<Rightarrow> nat \<Rightarrow> nat \<Rightarrow> loaded_pair list \<times> nat \<times> err option" where
  "db_GetAssetPairs db offset limit networkID =
     find_pairs db (page_rows (sql_bound offset) (sql_bound limit)) (db_Pairs db)"

definition GetAssetPairsByAssetData ::
  "asset_db \<Rightarrow> asset_data \<Rightarrow> nat \<Rightarrow> nat \<Rightarrow> nat \<Rightarrow> loaded_pair list \<times> nat \<times> err option"
where
  "GetAssetPairsByAssetData db data offset limit networkID =
     find_pairs db (page_rows (sql_bound offset) (sql_bound limit))
       (pairs_where db networkID (\<lambda>a b. as_Data a = Some data \<or> as_Data b = Some data))"

definition GetAssetPairsByAssetDatas ::
  "asset_db \<Rightarrow> asset_data \<Rightarrow> asset_data \<Rightarrow> nat \<Rightarrow> loaded_pair list \<times> nat \<times> err option"
where
  "GetAssetPairsByAssetDatas db dataA dataB networkID =
     find_pairs db (\<lambda>ps. ps) (pairs_where db networkID
       (\<lambda>a b. as_Data a = Some dataA \<and> as_Data b = Some dataB \<or> as_Data a = Some dataB \<and> as_Data b = Some dataA))"

definition GetAssetPairByID :: "asset_db \<Rightarrow> nat \<Rightarrow> err + loaded_pair" where
  "GetAssetPairByID db n = map_sum id (Preload db) (first_row db (db_Pairs db) (\<lambda>p. ap_ID p = n))"

definition GetAssetPairByAssetSymbols :: "asset_db \<Rightarrow> string \<Rightarrow> string \<Rightarrow> err + loaded_pair" where
  "GetAssetPairByAssetSymbols db symbolA symbolB =
     map_sum id (Preload db) (first_row db (db_Pairs db) (\<lambda>p. ap_SymbolA p = symbolA \<and> ap_SymbolB p = symbolB))"

text \<open>This one does not load the assets, and looks for the two in this order only.\<close>

definition GetAssetPairByAssetDatas :: "asset_db \<Rightarrow> asset_data \<Rightarrow> asset_data \<Rightarrow> err + loaded_pair" where
  "GetAssetPairByAssetDatas db dataA dataB =
     map_sum id (\<lambda>(p, a, b). (p, None, None))
       (first_row db (joined_assets db) (\<lambda>(p, a, b). as_Data a = Some dataA \<and> as_Data b = Some dataB))"

section \<open>What the queries find\<close>

text \<open>A pair is found by the data of its assets when both of them are known and their proxies belong to
  exchanges of the network; the order in which the two are named does not matter.\<close>

lemma set_pairs_where:
  "p \<in> set (pairs_where db networkID P) \<longleftrightarrow>
     (\<exists>a b. (p, a, b) \<in> set (joined_assets db) \<and> P a b \<and>
        asset_exchanges db networkID a \<noteq> [] \<and> asset_exchanges db networkID b \<noteq> [])"
  by (auto simp: pairs_where_def neq_Nil_conv) blast+

lemma set_joined_assets:
  "(p, a, b) \<in> set (joined_assets db) \<longleftrightarrow>
     p \<in> set (db_Pairs db) \<and> a \<in> set (db_Assets db) \<and> b \<in> set (db_Assets db) \<and>
     as_Symbol a = ap_SymbolA p \<and> as_Symbol b = ap_SymbolB p"
  by (auto simp: joined_assets_def)

lemma GetAssetPairsByAssetDatas_sym:
  "GetAssetPairsByAssetDatas db a b networkID = GetAssetPairsByAssetDatas db b a networkID"
  unfolding GetAssetPairsByAssetDatas_def by (simp only: disj_commute)

text \<open>The unfiltered list looks at no network.\<close>

lemma db_GetAssetPairs_any_network:
  "db_GetAssetPairs db offset limit n = db_GetAssetPairs db offset limit m"
  by (simp add: db_GetAssetPairs_def)

text \<open>A pair that has no id yet is not saved once the table has a row: the caller gets that row.\<close>

lemma AssetPair_Save_first:
  "ap_ID p = 0 \<Longrightarrow> db_Fault db = None \<Longrightarrow> db_Pairs db = q # qs \<Longrightarrow> AssetPair_Save create p db = (None, q, db)"
  by (simp add: AssetPair_Save_def FirstOrCreate_def)

text \<open>A row that is there is not saved again, and a new asset can be read back.\<close>

lemma Asset_Save_twice:
  assumes "Asset_Save Inr a db = (None, a', db')" and "as_Symbol a \<noteq> []"
  shows "GetAssetBySymbol db' (as_Symbol a) = Some a' \<and> Asset_Save Inr a db' = (None, a', db')"
  using assms
  by (auto simp: Asset_Save_def FirstOrCreate_def GetAssetBySymbol_def first_row_def right_of_def find_append
      eq_commute [of "as_Symbol a"] split: option.splits)

end
