(* ===== verification/ApiListings.thy ===== *)
theory ApiListings
  imports ApiOrders Listings Assets
begin

text \<open>
  What the standard relayer API lists (\<open>api/handlers/common.go\<close>, \<open>get_asset_pairs.go\<close>,
  \<open>get_fee_recipients.go\<close>, \<open>get_health_check.go\<close>, \<open>get_order.go\<close>, \<open>decorator_block_hash.go\<close>) from the
  tables of \<open>Assets\<close> and the order table, and its routes (\<open>cmd/api\<close>).
\<close>

section \<open>Orders in replies\<close>

text \<open>Base 64 with padding, the form of a byte slice in JSON.\<close>

definition base64_alphabet :: string where
  "base64_alphabet = ''ABCDEFGHIJKLMNOPQRSTUVWXYZabcdefghijklmnopqrstuvwxyz0123456789+/''"

definition base64_char :: "nat \<Rightarrow> char" where "base64_char n = base64_alphabet ! (n mod 64)"

fun base64 :: "bytes \<Rightarrow> string" where
  "base64 [] = []"
| "base64 [a] = [base64_char (unat a div 4), base64_char (unat a mod 4 * 16), CHR ''='', CHR ''='']"
| "base64 [a, b] =
     [base64_char (unat a div 4), base64_char (unat a mod 4 * 16 + unat b div 16), base64_char (unat b mod 16 * 4), CHR ''='']"
| "base64 (a # b # c # bs) =
     [base64_char (unat a div 4), base64_char (unat a mod 4 * 16 + unat b div 16),
      base64_char (unat b mod 16 * 4 + unat c div 64), base64_char (unat c)] @ base64 bs"

text \<open>\<open>json.Marshal(dbOrder.Order)\<close>: the value is not addressable, so the \<open>MarshalJSON\<close> of its pointer is
  not used and the fields are written under their own names; a nil pointer is null. An absent pool id
  is written as null too.\<close>

definition json_of_order_value :: "order \<Rightarrow> json" where
  "json_of_order_value ord =
     (let addr = (\<lambda>a. if a = [] then JNull else JString (sprintf_hex a));
          amount = (\<lambda>u. if u = [] then JNull else JString (big_String (int (be_nat u)))) in
      JObject
       [(''Maker'', addr (Maker ord)), (''Taker'', addr (Taker ord)),
        (''MakerAssetAddress'', addr (MakerAssetAddress ord)), (''TakerAssetAddress'', addr (TakerAssetAddress ord)),
        (''MakerAssetData'', JString (sprintf_hex (MakerAssetData ord))),
        (''TakerAssetData'', JString (sprintf_hex (TakerAssetData ord))),
        (''FeeRecipient'', addr (FeeRecipient ord)), (''ExchangeAddress'', addr (ExchangeAddress ord)),
        (''SenderAddress'', addr (SenderAddress ord)),
        (''MakerAssetAmount'', amount (MakerAssetAmount ord)), (''TakerAssetAmount'', amount (TakerAssetAmount ord)),
        (''MakerFee'', amount (MakerFee ord)), (''TakerFee'', amount (TakerFee ord)),
        (''ExpirationTimestampInSec'', amount (ExpirationTimestampInSec ord)), (''Salt'', amount (Salt ord)),
        (''Signature'', JString (sprintf_hex (Signature ord))),
        (''TakerAssetAmountFilled'', amount (TakerAssetAmountFilled ord)), (''Cancelled'', JBool (Cancelled ord)),
        (''PoolID'', if PoolID ord = [] then JNull else JString (base64 (PoolID ord)))])"

text \<open>The order is copied through its JSON; the pointer is nil when that fails.\<close>

definition api_getFormattedOrder :: "'f db_order \<Rightarrow> 'f zx_order_ex option go" where
  "api_getFormattedOrder row =
     (case unmarshal_zx_order (json_of_order_value (types_Order row)) of
        Inl e \<Rightarrow> Ret None
      | Inr z \<Rightarrow>
          go_map (\<lambda>remaining. Some
              \<lparr>ox_Order = z,
               ox_Metadata = \<lparr>om_Hash = sprintf_hex (OrderHash row), om_FeeRate = FeeRate row, om_Status = Status row,
                 om_TakerAssetAmountRemaining = remaining\<rparr>\<rparr>)
            (taker_remaining (types_Order row)))"

fun api_format_orders :: "'f db_order list \<Rightarrow> 'f zx_order_ex option list go" where
  "api_format_orders [] = Ret []"
| "api_format_orders (r # rs) =
     go_bind (api_getFormattedOrder r) (\<lambda>x. go_map (\<lambda>xs. x # xs) (api_format_orders rs))"

definition createPaginatedRecords :: "nat \<Rightarrow> nat \<Rightarrow> nat \<Rightarrow> 'a \<Rightarrow> 'a zx_page" where
  "createPaginatedRecords total' page perPage records =
     \<lparr>pg_Total = total', pg_Page = page, pg_PerPage = perPage, pg_Records = records\<rparr>"

definition createPaginatedOrders :: "nat \<Rightarrow> nat \<Rightarrow> nat \<Rightarrow> 'f zx_order_ex list \<Rightarrow> 'f zx_order_ex list zx_page" where
  "createPaginatedOrders total' page perPage records =
     \<lparr>pg_Total = total', pg_Page = page, pg_PerPage = perPage, pg_Records = records\<rparr>"

definition formatResponse ::
  "json_enc \<Rightarrow> 'f num_text \<Rightarrow> 'f db_order list \<Rightarrow> string \<Rightarrow> nat \<Rightarrow> nat \<Rightarrow> nat \<Rightarrow> (err + string \<times> string) go"
where
  "formatResponse enc num orders format total' page perPage =
     (if format = ''application/octet-stream''
      then Ret (Inr (concat (map (\<lambda>r. string_of_bytes (Order_Bytes (types_Order r))) orders), format))
      else go_map (\<lambda>xs. try_bind (marshal_all (json_of_order_ex num) xs) (\<lambda>js.
             Inr (enc (json_of_page JArray (createPaginatedRecords total' page perPage js)), ''application/json'')))
             (api_format_orders orders))"

definition formatSingleResponse ::
  "json_enc \<Rightarrow> 'f num_text \<Rightarrow> 'f db_order \<Rightarrow> string \<Rightarrow> (err + string \<times> string) go"
where
  "formatSingleResponse enc num row format =
     (if format = ''application/octet-stream''
      then Ret (Inr (string_of_bytes (Order_Bytes (types_Order row)), format))
      else go_map (\<lambda>x. try_bind (json_of_order_ex num x) (\<lambda>j. Inr (enc j, ''application/json'')))
             (api_getFormattedOrder row))"

section \<open>Pagination\<close>

text \<open>A number that does not parse becomes 1; a zero parses, and its nil error is asked for its text.\<close>

definition page_number :: "string \<Rightarrow> nat go" where
  "page_number s = (case ParseUint64 s of Inl e \<Rightarrow> Ret 1 | Inr n \<Rightarrow> if n = 0 then Panic NilDereference else Ret n)"

definition extractPagination :: "url_values \<Rightarrow> (nat \<times> nat) go" where
  "extractPagination queryObject =
     (let or_default = (\<lambda>k d. if queryObject k = [] then d else queryObject k) in
      go_bind (page_number (or_default ''page'' ''1'')) (\<lambda>page.
        go_map (\<lambda>perPage. (page, perPage)) (page_number (or_default ''perPage'' ''20''))))"

text \<open>Products of 64-bit numbers.\<close>

definition mul64 :: "nat \<Rightarrow> nat \<Rightarrow> nat" where "mul64 a b = a * b mod 2 ^ 64"

section \<open>Asset pairs\<close>

definition zx_asset_of :: "asset option \<Rightarrow> zx_asset go" where
  "zx_asset_of x =
     (case x of
        None \<Rightarrow> Panic NilDereference
      | Some a \<Rightarrow>
          go_bind (Uint256_String (as_MinTradeAmount a)) (\<lambda>minAmount. go_bind (Uint256_String (as_MaxTradeAmount a)) (\<lambda>maxAmount.
            (case as_Data a of
               None \<Rightarrow> Panic NilDereference
             | Some d \<Rightarrow> Ret \<lparr>za_MinAmount = minAmount, za_MaxAmount = maxAmount, za_Precision = as_Precision a,
                 za_AssetData = sprintf_hex d\<rparr>))))"

fun zx_asset_pairs :: "loaded_pair list \<Rightarrow> zx_asset_pair list go" where
  "zx_asset_pairs [] = Ret []"
| "zx_asset_pairs ((p, a, b) # ps) =
     go_bind (zx_asset_of a) (\<lambda>za. go_bind (zx_asset_of b) (\<lambda>zb.
       go_map (\<lambda>zs. \<lparr>zp_AssetDataA = za, zp_AssetDataB = zb\<rparr> # zs) (zx_asset_pairs ps)))"

definition createPaginatedAssetPairs :: "nat \<Rightarrow> nat \<Rightarrow> nat \<Rightarrow> loaded_pair list \<Rightarrow> zx_asset_pair list zx_page go" where
  "createPaginatedAssetPairs total' page perPage records =
     go_map (\<lambda>zs. \<lparr>pg_Total = total', pg_Page = page, pg_PerPage = perPage, pg_Records = zs\<rparr>) (zx_asset_pairs records)"

text \<open>The pairs of a query, or the reason of a refusal. The error of the lookup of two assets goes to a
  variable that is not looked at.\<close>

definition queried_pairs ::
  "asset_db \<Rightarrow> string \<Rightarrow> string \<Rightarrow> nat \<Rightarrow> nat \<Rightarrow> nat \<Rightarrow> string + loaded_pair list \<times> nat"
where
  "queried_pairs db dataA dataB offset perPage networkID =
     (let malformed_data = ''Unable to parse asset data specified in query'';
          checked = (\<lambda>(pairs, n, e). if e = None then Inr (pairs, n) else Inl ''Unable to get asset pairs from DB'') in
      if dataA = [] then checked (db_GetAssetPairs db offset perPage networkID)
      else (case HexToAssetData dataA of
              Inl e \<Rightarrow> Inl malformed_data
            | Inr a \<Rightarrow>
                if dataB = [] then checked (GetAssetPairsByAssetData db a offset perPage networkID)
                else (case HexToAssetData dataB of
                        Inl e \<Rightarrow> Inl malformed_data
                      | Inr b \<Rightarrow> (case GetAssetPairsByAssetDatas db a b networkID of (pairs, n, e) \<Rightarrow> Inr (pairs, n)))))"

definition GetAssetPairs :: "json_enc \<Rightarrow> asset_db \<Rightarrow> response \<Rightarrow> request \<Rightarrow> response go" where
  "GetAssetPairs enc db w r =
     (let qo = query_get r;
          swap = (qo ''assetDataA'' = [] \<and> qo ''assetDataB'' \<noteq> []);
          dataA = (if swap then qo ''assetDataB'' else qo ''assetDataA'');
          dataB = (if swap then [] else qo ''assetDataB'');
          networkID = (case ParseUint64 (qo ''networkId'') of Inl e \<Rightarrow> 1 | Inr n \<Rightarrow> n) in
      go_bind (extractPagination qo) (\<lambda>(page, perPage).
        case queried_pairs db dataA dataB (mul64 (page - 1) perPage) perPage networkID of
          Inl reason \<Rightarrow> Ret (respondError enc (fst (failed 100 reason 400)) 400 w)
        | Inr (pairs, total') \<Rightarrow>
            go_map (\<lambda>p. write_body (enc (json_of_page (\<lambda>zs. JArray (map json_of_zx_asset_pair zs)) p))
                (WriteHeader 200 (content_json w)))
              (createPaginatedAssetPairs total' page perPage pairs)))"

section \<open>Fee recipients, health and single orders\<close>

definition api_FeeRecipientHandler :: "json_enc \<Rightarrow> err + address list \<Rightarrow> response \<Rightarrow> request \<Rightarrow> response go" where
  "api_FeeRecipientHandler enc affiliates w r =
     go_bind (extractPagination (query_get r)) (\<lambda>(page, perPage).
       case affiliates of
         Inl e \<Rightarrow> Ret (respondError enc (fst (failed 100 (''Internal server error: '' @ e) 500)) 500 w)
       | Inr as \<Rightarrow>
           (let n = length as;
                startIndex = min (int64_of (int (mul64 (page - 1) perPage))) (int n);
                endIndex = min (int64_of (int (mul64 page perPage))) (int n)
            in go_map (\<lambda>records. write_body
                 (enc (json_of_page (\<lambda>as. JArray (map (\<lambda>a. JString (sprintf_hex a)) as))
                   (createPaginatedRecords n page perPage records)))
                 (WriteHeader 200 (content_json w))) (go_slice_int as startIndex endIndex)))"

text \<open>\<open>time\<close> is the reply of \<open>TIME\<close>, \<open>db\<close> the error of the query. An empty hash is reported with the
  text of an error that is nil.\<close>

definition GetHealthCheck ::
  "json_enc \<Rightarrow> err + string list \<Rightarrow> err option \<Rightarrow> string \<Rightarrow> response \<Rightarrow> response go"
where
  "GetHealthCheck enc time db blockHash w =
     (let internal = respondError enc (fst (failed 102 ''Internal error'' 500)) 500 w;
          hash = trim_chars quote_set blockHash in
      case time of
        Inl e \<Rightarrow> Ret internal
      | Inr t \<Rightarrow>
          if db \<noteq> None then Ret internal
          else if hash = [] then Panic NilDereference
          else Ret (write_body (enc (JObject [(''Time'', JArray (map JString t)), (''BlockHash'', JString hash)]))
            (WriteHeader 200 (content_json w))))"

definition api_order_prefixes :: "string list" where
  "api_order_prefixes = [''/order/0x'', ''/order/0X'']"

definition api_OrderHandler ::
  "json_enc \<Rightarrow> 'f num_text \<Rightarrow> 'f order_first \<Rightarrow> response \<Rightarrow> request \<Rightarrow> response go"
where
  "api_OrderHandler enc num First w r =
     (let malformed_hash = (\<lambda>reason. \<lparr>he_Code = 100, he_Reason = ''Malformed order hash'',
            he_Validation = [\<lparr>ve_Field = ''orderHash'', ve_Code = 1001, ve_Reason = reason\<rparr>]\<rparr>);
          error = (\<lambda>reason status. respondError enc (fst (failed 100 reason status)) status w) in
      case last_hash api_order_prefixes (rq_Path r) of
        None \<Rightarrow> Ret (respondError enc (malformed_hash ''Order hash is not specified or specified incorrectly'') 404 w)
      | Some orderHashHex \<Rightarrow>
          (case hex_DecodeString orderHashHex of
             Inl e \<Rightarrow> Ret (respondError enc (malformed_hash ''Order hash is specified incorrectly'') 400 w)
           | Inr orderHash \<Rightarrow>
               (case First orderHash of
                  Inl e \<Rightarrow>
                    Ret (if e = record_not_found
                         then error (''Order with specified hash '' @ sprintf_hex orderHash @ '' is not found'') 404
                         else error (''Internal server error happened during seaching requested order: '' @ e) 500)
                | Inr row \<Rightarrow>
                    go_bind (accept_format r) (\<lambda>format. go_map (\<lambda>x. case x of
                        Inl e \<Rightarrow> error (''Internal server error happened during preparing order response: '' @ e) 500
                      | Inr (body, contentType) \<Rightarrow>
                          write_body body (WriteHeader 200 (set_header ''Content-Type'' contentType w)))
                      (formatSingleResponse enc num row format)))))"

definition api_BlockHashDecorator ::
  "(string \<Rightarrow> string) \<Rightarrow> uri_with \<Rightarrow> string \<Rightarrow> (response \<Rightarrow> request \<Rightarrow> 'w \<Rightarrow> (response \<times> 'w) go)
     \<Rightarrow> response \<Rightarrow> request \<Rightarrow> 'w \<Rightarrow> (response \<times> 'w) go"
where
  "api_BlockHashDecorator note uri blockHash fn w r v =
     (if query_get r ''blockhash'' = []
      then Ret (http_Redirect note
             (uri r (values_set ''blockhash'' (trim_chars quote_set blockHash) (rq_Query r))) 307 r
             (set_header ''Cache-Control'' ''max-age=5, public'' w), v)
      else fn w r v)"

section \<open>Routes\<close>

datatype api_route =
    AssetPairsRoute | OrdersRoute | SingleOrderRoute | OrderBookRoute | FeeRecipientsRoute
  | OrderConfigRoute | PostOrderRoute | HealthCheckRoute

text \<open>The method of a route is not looked at.\<close>

definition api_routes :: "((string \<Rightarrow> bool) \<times> api_route) list" where
  "api_routes =
     [(route_match ''/0x/v2/asset_pairs'', AssetPairsRoute), (route_match ''/0x/v2/orders'', OrdersRoute),
      (route_match ''/0x/v2/order/'', SingleOrderRoute), (route_match ''/0x/v2/orderbook'', OrderBookRoute),
      (route_match ''/0x/v2/fee_recipients'', FeeRecipientsRoute), (route_match ''/0x/v2/order_config'', OrderConfigRoute),
      (route_match ''/0x/v2/order'', PostOrderRoute), (\<lambda>path. path = ''/_hc'', HealthCheckRoute)]"

section \<open>What a reply says of an order\<close>

lemma lower_keys:
  "map to_lower ''makerAddress'' = ''makeraddress''" "map to_lower ''takerAddress'' = ''takeraddress''"
  "map to_lower ''senderAddress'' = ''senderaddress''"
  "map to_lower ''feeRecipientAddress'' = ''feerecipientaddress''" "map to_lower ''makerFee'' = ''makerfee''"
  "map to_lower ''takerFee'' = ''takerfee''" "map to_lower ''makerAssetAmount'' = ''makerassetamount''"
  "map to_lower ''takerAssetAmount'' = ''takerassetamount''" "map to_lower ''makerAssetData'' = ''makerassetdata''"
  "map to_lower ''takerAssetData'' = ''takerassetdata''" "map to_lower ''salt'' = ''salt''"
  "map to_lower ''exchangeAddress'' = ''exchangeaddress''"
  "map to_lower ''expirationTimeSeconds'' = ''expirationtimeseconds''" "map to_lower ''signature'' = ''signature''"
  "map to_lower ''Maker'' = ''maker''" "map to_lower ''Taker'' = ''taker''"
  "map to_lower ''MakerAssetAddress'' = ''makerassetaddress''"
  "map to_lower ''TakerAssetAddress'' = ''takerassetaddress''" "map to_lower ''MakerAssetData'' = ''makerassetdata''"
  "map to_lower ''TakerAssetData'' = ''takerassetdata''" "map to_lower ''FeeRecipient'' = ''feerecipient''"
  "map to_lower ''ExchangeAddress'' = ''exchangeaddress''" "map to_lower ''SenderAddress'' = ''senderaddress''"
  "map to_lower ''MakerAssetAmount'' = ''makerassetamount''"
  "map to_lower ''TakerAssetAmount'' = ''takerassetamount''" "map to_lower ''MakerFee'' = ''makerfee''"
  "map to_lower ''TakerFee'' = ''takerfee''"
  "map to_lower ''ExpirationTimestampInSec'' = ''expirationtimestampinsec''" "map to_lower ''Salt'' = ''salt''"
  "map to_lower ''Signature'' = ''signature''" "map to_lower ''TakerAssetAmountFilled'' = ''takerassetamountfilled''"
  "map to_lower ''Cancelled'' = ''cancelled''" "map to_lower ''PoolID'' = ''poolid''"
  by (simp_all add: to_lower_def char_of_def bit_0)

lemma zeroex_fields:
  "json_field zeroex_order_keys ''Maker'' = None" "json_field zeroex_order_keys ''Taker'' = None"
  "json_field zeroex_order_keys ''MakerAssetAddress'' = None" "json_field zeroex_order_keys ''TakerAssetAddress'' = None"
  "json_field zeroex_order_keys ''MakerAssetData'' = Some ''makerAssetData''"
  "json_field zeroex_order_keys ''TakerAssetData'' = Some ''takerAssetData''"
  "json_field zeroex_order_keys ''FeeRecipient'' = None"
  "json_field zeroex_order_keys ''ExchangeAddress'' = Some ''exchangeAddress''"
  "json_field zeroex_order_keys ''SenderAddress'' = Some ''senderAddress''"
  "json_field zeroex_order_keys ''MakerAssetAmount'' = Some ''makerAssetAmount''"
  "json_field zeroex_order_keys ''TakerAssetAmount'' = Some ''takerAssetAmount''"
  "json_field zeroex_order_keys ''MakerFee'' = Some ''makerFee''"
  "json_field zeroex_order_keys ''TakerFee'' = Some ''takerFee''"
  "json_field zeroex_order_keys ''ExpirationTimestampInSec'' = None"
  "json_field zeroex_order_keys ''Salt'' = Some ''salt''"
  "json_field zeroex_order_keys ''Signature'' = Some ''signature''"
  "json_field zeroex_order_keys ''TakerAssetAmountFilled'' = None"
  "json_field zeroex_order_keys ''Cancelled'' = None" "json_field zeroex_order_keys ''PoolID'' = None"
  by (simp_all add: json_field_def zeroex_order_keys_def fold_equal_def lower_keys del: list.map)

text \<open>What arrives in the copy.\<close>

definition copied_order :: "order \<Rightarrow> zx_order" where
  "copied_order ord =
     (let amount = (\<lambda>u. big_String (int (be_nat u))) in
      \<lparr>zx_MakerAddress = [], zx_TakerAddress = [], zx_SenderAddress = sprintf_hex (SenderAddress ord),
       zx_FeeRecipientAddress = [], zx_MakerFee = amount (MakerFee ord), zx_TakerFee = amount (TakerFee ord),
       zx_MakerAssetAmount = amount (MakerAssetAmount ord), zx_TakerAssetAmount = amount (TakerAssetAmount ord),
       zx_MakerAssetData = sprintf_hex (MakerAssetData ord), zx_TakerAssetData = sprintf_hex (TakerAssetData ord),
       zx_Salt = amount (Salt ord), zx_ExchangeAddress = sprintf_hex (ExchangeAddress ord),
       zx_ExpirationTimeSeconds = [], zx_Signature = sprintf_hex (Signature ord)\<rparr>)"

lemma unmarshal_order_value:
  assumes "wf_order ord"
  shows "unmarshal_zx_order (json_of_order_value ord) = Inr (copied_order ord)"
proof -
  have n: "Maker ord \<noteq> []" "Taker ord \<noteq> []" "MakerAssetAddress ord \<noteq> []" "TakerAssetAddress ord \<noteq> []"
    "FeeRecipient ord \<noteq> []" "ExchangeAddress ord \<noteq> []" "SenderAddress ord \<noteq> []" "MakerAssetAmount ord \<noteq> []"
    "TakerAssetAmount ord \<noteq> []" "MakerFee ord \<noteq> []" "TakerFee ord \<noteq> []" "ExpirationTimestampInSec ord \<noteq> []"
    "Salt ord \<noteq> []" "TakerAssetAmountFilled ord \<noteq> []"
    using assms by (auto simp: wf_order_def wf_address_def wf_uint256_def)
  show ?thesis
    by (simp add: unmarshal_zx_order_def json_strings_def json_of_order_value_def Let_def zeroex_fields n
        zx_order_of_def copied_order_def)
qed

text \<open>C40: an order in a reply of the API carries its asset data, amounts, fees, salt, sender, exchange
  and signature, but its maker, taker, fee recipient and expiration are always empty; its metadata are
  the hash, fee rate and status of the row and what remains to be filled.\<close>

theorem api_order_fields:
  assumes "wf_order (types_Order row)"
  shows "api_getFormattedOrder row = Ret (Some
    \<lparr>ox_Order = copied_order (types_Order row),
     ox_Metadata = \<lparr>om_Hash = sprintf_hex (OrderHash row), om_FeeRate = FeeRate row, om_Status = Status row,
       om_TakerAssetAmountRemaining = big_String (int (be_nat (TakerAssetAmount (types_Order row))) -
         int (be_nat (TakerAssetAmountFilled (types_Order row))))\<rparr>\<rparr>)"
proof -
  have "taker_remaining (types_Order row) = Ret (big_String (int (be_nat (TakerAssetAmount (types_Order row))) -
      int (be_nat (TakerAssetAmountFilled (types_Order row)))))"
    using assms by (simp add: taker_remaining_def wf_order_def wf_uint256_def Uint256_Big_def)
  then show ?thesis by (simp add: api_getFormattedOrder_def unmarshal_order_value [OF assms])
qed

theorem api_order_fields_witness:
  "api_getFormattedOrder sample_row = Ret (Some
    \<lparr>ox_Order = copied_order (types_Order sample_row),
     ox_Metadata = \<lparr>om_Hash = sprintf_hex (OrderHash sample_row), om_FeeRate = FeeRate sample_row, om_Status = Status sample_row,
       om_TakerAssetAmountRemaining = big_String (int (be_nat (TakerAssetAmount (types_Order sample_row))) -
         int (be_nat (TakerAssetAmountFilled (types_Order sample_row))))\<rparr>\<rparr>)"
  by (rule api_order_fields) (simp add: sample_row_def wf_sample_taker_order)

section \<open>Boundaries\<close>

text \<open>A page or page size of zero panics.\<close>

lemma extractPagination_zero:
  "qo ''page'' = ''0'' \<Longrightarrow> extractPagination qo = Panic NilDereference"
  by (simp add: extractPagination_def page_number_def ParseUint64_def dec_parse_nat_def from_dec_char_def)

lemma extractPagination_positive:
  assumes "extractPagination qo = Ret (page, perPage)"
  shows "0 < page \<and> page < 2 ^ 64 \<and> 0 < perPage \<and> perPage < 2 ^ 64"
proof -
  have "0 < n \<and> n < 2 ^ 64" if "page_number s = Ret n" for s n
    using that by (auto simp: page_number_def dest: ParseUint64_range split: sum.splits if_splits)
  with assms show ?thesis unfolding extractPagination_def Let_def by (auto simp: go_simps)
qed

text \<open>An error of the lookup of two assets is answered as an empty list.\<close>

lemma pair_lookup_error_swallowed:
  "db_Fault db = Some e \<Longrightarrow> dataA \<noteq> [] \<Longrightarrow> dataB \<noteq> [] \<Longrightarrow> HexToAssetData dataA = Inr a \<Longrightarrow>
   HexToAssetData dataB = Inr b \<Longrightarrow> queried_pairs db dataA dataB offset perPage networkID = Inr ([], 0)"
  by (simp add: queried_pairs_def GetAssetPairsByAssetDatas_def find_pairs_def)

end
