(* ===== verification/Terms.thy ===== *)
theory Terms
  imports Http FundConsumers
begin

unbundle bit_operations_syntax

text \<open>
  The terms of service (\<open>db/terms.go\<close>): the msk that the hash of a signed text has to match, the
  search for a nonce, signatures and new terms. The tables are lists of rows by primary key; \<open>First\<close>
  orders by it, so it takes the first row of the list. Random numbers are a stream \<open>draw\<close>; the two
  loops that draw until they are content are partial functions, with no value when they never end.
\<close>

section \<open>Tables\<close>

record terms_row =
  tm_ID :: nat
  tm_Current :: bool
  tm_Lang :: string
  tm_Text :: string
  tm_Valid :: bool
  tm_Difficulty :: int

record terms_sig =
  ts_Signer :: address
  ts_Timestamp :: string
  ts_IP :: string
  ts_Nonce :: bytes
  ts_Banned :: bool
  ts_Signature :: signature
  ts_TermsID :: nat

text \<open>Times are counted in nanoseconds.\<close>

record hash_mask =
  hm_ID :: nat
  hm_Mask :: bytes
  hm_Expiration :: int

definition hour :: int where "hour = 3600000000000"

section \<open>Masks\<close>

text \<open>The inner loop: \<open>val\<close> is doubled as a byte.\<close>

fun ones_loop :: "nat \<Rightarrow> byte \<Rightarrow> byte \<Rightarrow> nat \<Rightarrow> nat" where
  "ones_loop 0 d val n = n"
| "ones_loop (Suc j) d val n = ones_loop j d (val * 2) (if d AND val \<noteq> 0 then n + 1 else n)"

definition OnesCount :: "bytes \<Rightarrow> nat" where
  "OnesCount data = fold (\<lambda>d n. ones_loop 8 d 1 n) data 0"

definition CheckMask :: "bytes \<Rightarrow> bytes \<Rightarrow> bool" where
  "CheckMask msk hash = (be_nat hash AND be_nat msk = be_nat msk)"

text \<open>The mask grows by random bits, below bit 255, until it has enough of them.\<close>

partial_function (option) mask_loop :: "(nat \<Rightarrow> nat) \<Rightarrow> int \<Rightarrow> nat \<Rightarrow> nat \<Rightarrow> nat option" where
  "mask_loop draw difficulty i msk =
     (if int (OnesCount (min_bytes msk)) < difficulty
      then mask_loop draw difficulty (Suc i) (msk OR 2 ^ draw i)
      else Some msk)"

text \<open>\<open>expires\<close> is the expiration of a new msk, \<open>stored\<close> the id the table gives it or the error; a msk
  that is not stored has no id.\<close>

definition GetNewHashMask ::
  "(nat \<Rightarrow> nat) \<Rightarrow> int \<Rightarrow> int \<Rightarrow> (hash_mask \<Rightarrow> err + nat) \<Rightarrow> terms_row \<Rightarrow> (nat \<rightharpoonup> hash_mask)
     \<Rightarrow> ((bytes \<times> nat \<times> err option) \<times> (nat \<rightharpoonup> hash_mask)) option"
where
  "GetNewHashMask draw now expires stored terms cache =
     (let fresh = (\<lambda>hm. now + hour div 2 < hm_Expiration hm);
          generate = map_option (\<lambda>msk.
            let hm = \<lparr>hm_ID = 0, hm_Mask = min_bytes msk, hm_Expiration = expires\<rparr> in
            case stored hm of
              Inl e \<Rightarrow> ((min_bytes msk, 0, Some e), cache)
            | Inr n \<Rightarrow> ((min_bytes msk, n, None), cache(tm_ID terms \<mapsto> hm\<lparr>hm_ID := n\<rparr>)))
            (mask_loop draw (tm_Difficulty terms) 0 0)
      in case cache (tm_ID terms) of
           Some hm \<Rightarrow> if fresh hm then Some ((hm_Mask hm, hm_ID hm, None), cache) else generate
         | None \<Rightarrow> generate)"

definition GetHashMaskById :: "hash_mask list \<Rightarrow> nat \<Rightarrow> err + bytes" where
  "GetHashMaskById masks n =
     (case find (\<lambda>hm. hm_ID hm = n) masks of None \<Rightarrow> Inl record_not_found | Some hm \<Rightarrow> Inr (hm_Mask hm))"

definition ClearExpiredHashMasks :: "int \<Rightarrow> hash_mask list \<Rightarrow> hash_mask list" where
  "ClearExpiredHashMasks now masks = filter (\<lambda>hm. \<not> hm_Expiration hm < now) masks"

section \<open>Signing\<close>

definition terms_message :: "string \<Rightarrow> string \<Rightarrow> bytes \<Rightarrow> bytes" where
  "terms_message text timestamp nonce =
     bytes_of_string (text @ [CHR 0x0A] @ timestamp @ [CHR 0x0A] @ sprintf_hex nonce)"

text \<open>The signature is a pointer, which may be nil.\<close>

definition CheckSig ::
  "crypto \<Rightarrow> terms_row \<Rightarrow> signature option \<Rightarrow> address \<Rightarrow> string \<Rightarrow> bytes \<Rightarrow> bytes \<Rightarrow> (err + bool) go"
where
  "CheckSig C terms sig addr timestamp nonce msk =
     (let signedMessage = terms_message (tm_Text terms) timestamp nonce;
          hash = keccak256 C signedMessage in
      if \<not> CheckMask msk hash
      then Ret (Inl (''Hash must match mask: '' @ sprintf_hex msk @ '', got '' @ sprintf_hex hash))
      else (case sig of
              None \<Rightarrow> Panic NilDereference
            | Some s \<Rightarrow> go_map Inr (Signature_Verify C s addr signedMessage)))"

text \<open>The terms are the first of the table, whichever \<open>id\<close> was asked for.\<close>

definition first_terms :: "terms_row list \<Rightarrow> err + terms_row" where
  "first_terms rows = (case rows of [] \<Rightarrow> Inl record_not_found | r # _ \<Rightarrow> Inr r)"

definition CheckTerms ::
  "crypto \<Rightarrow> terms_row list \<Rightarrow> nat \<Rightarrow> signature option \<Rightarrow> address \<Rightarrow> string \<Rightarrow> bytes \<Rightarrow> bytes \<Rightarrow> (err + bool) go"
where
  "CheckTerms C rows n sig addr timestamp nonce msk =
     (case first_terms rows of
        Inl e \<Rightarrow> Ret (Inl e)
      | Inr terms \<Rightarrow> CheckSig C terms sig addr timestamp nonce msk)"

text \<open>\<open>create\<close> inserts the row.\<close>

definition SaveSig ::
  "crypto \<Rightarrow> terms_row list \<Rightarrow> (terms_sig \<Rightarrow> 'v \<Rightarrow> err option \<times> 'v) \<Rightarrow> nat \<Rightarrow> signature option \<Rightarrow> address \<Rightarrow> string
     \<Rightarrow> string \<Rightarrow> bytes \<Rightarrow> bytes \<Rightarrow> 'v \<Rightarrow> (err option \<times> 'v) go"
where
  "SaveSig C rows create n sig addr timestamp host_ip nonce msk v =
     (case first_terms rows of
        Inl e \<Rightarrow> Ret (Some e, v)
      | Inr terms \<Rightarrow>
          go_map (\<lambda>checked. case checked of
              Inl e \<Rightarrow> (Some e, v)
            | Inr ok \<Rightarrow>
                if \<not> ok then (Some ''Signature invalid'', v)
                else create \<lparr>ts_Signer = addr, ts_Timestamp = timestamp, ts_IP = host_ip, ts_Nonce = nonce,
                  ts_Banned = False, ts_Signature = the sig, ts_TermsID = tm_ID terms\<rparr> v)
            (CheckSig C terms sig addr timestamp nonce msk))"

text \<open>The hash starts empty and the nonce as zeros.\<close>

partial_function (option) nonce_loop ::
  "crypto \<Rightarrow> (nat \<Rightarrow> bytes) \<Rightarrow> string \<Rightarrow> string \<Rightarrow> bytes \<Rightarrow> nat \<Rightarrow> bytes \<Rightarrow> bytes \<Rightarrow> bytes option"
where
  "nonce_loop C draw text timestamp msk i hash nonce =
     (if CheckMask msk hash then Some nonce
      else nonce_loop C draw text timestamp msk (Suc i)
             (keccak256 C (terms_message text timestamp (draw i))) (draw i))"

definition FindValidNonce ::
  "crypto \<Rightarrow> (nat \<Rightarrow> bytes) \<Rightarrow> string \<Rightarrow> string \<Rightarrow> bytes \<Rightarrow> bytes option"
where
  "FindValidNonce C draw text timestamp msk =
     nonce_loop C draw text timestamp msk 0 [] (zero_bytes 32)"

definition CheckAddress :: "address \<Rightarrow> bool" where
  "CheckAddress addr = True"

section \<open>New terms\<close>

definition GetTerms :: "terms_row list \<Rightarrow> string \<Rightarrow> err + terms_row" where
  "GetTerms rows language =
     (case find (\<lambda>r. tm_Lang r = language \<and> tm_Current r) rows of
        None \<Rightarrow> Inl record_not_found | Some r \<Rightarrow> Inr r)"

text \<open>What may fail: the lookup, the beginning of the transaction, the two writes, the commit.\<close>

record tx_faults =
  f_Find :: "err option"
  f_Begin :: "err option"
  f_Save :: "err option"
  f_Create :: "err option"
  f_Commit :: "err option"

text \<open>\<open>newID\<close> is the key the table gives to the new row. A manager made by \<open>NewTxTermsManager\<close> works in
  a transaction of its caller: it does not commit, and a rollback goes back to \<open>start\<close>, where that
  transaction began; otherwise to the table as it was.\<close>

definition save_row :: "terms_row \<Rightarrow> terms_row list \<Rightarrow> terms_row list" where
  "save_row r rows = map (\<lambda>x. if tm_ID x = tm_ID r then r else x) rows"

definition UpdateTerms ::
  "tx_faults \<Rightarrow> bool \<Rightarrow> terms_row list \<Rightarrow> nat \<Rightarrow> string \<Rightarrow> string \<Rightarrow> terms_row list \<Rightarrow> err option \<times> terms_row list"
where
  "UpdateTerms faults isTx start newID lang text rows =
     (let oldTerms = (case f_Find faults of Some e \<Rightarrow> Inl e | None \<Rightarrow> GetTerms rows lang);
          back = (if isTx then start else rows) in
      case f_Begin faults of
        Some e \<Rightarrow> (Some e, rows)
      | None \<Rightarrow>
          (case (case oldTerms of
                   Inl e \<Rightarrow> Inr (rows, 3)
                 | Inr old \<Rightarrow>
                     (case f_Save faults of
                        Some e \<Rightarrow> Inl e
                      | None \<Rightarrow> Inr (save_row (old\<lparr>tm_Current := False\<rparr>) rows, tm_Difficulty old))) of
             Inl e \<Rightarrow> (Some e, back)
           | Inr (saved, difficulty) \<Rightarrow>
               (case f_Create faults of
                  Some e \<Rightarrow> (Some e, back)
                | None \<Rightarrow>
                    let created = saved @ [\<lparr>tm_ID = newID, tm_Current = True, tm_Lang = lang, tm_Text = text,
                          tm_Valid = True, tm_Difficulty = difficulty\<rparr>] in
                    if isTx then (None, created)
                    else (case f_Commit faults of Some e \<Rightarrow> (Some e, rows) | None \<Rightarrow> (None, created)))))"

section \<open>Counting bits\<close>

lemma ones_loop_bits: "ones_loop j d (2 ^ i) n = n + card {k. i \<le> k \<and> k < i + j \<and> bit d k}"
proof (induction j arbitrary: i n)
  case 0
  then show ?case by simp
next
  case (Suc j)
  let ?S = "{k. Suc i \<le> k \<and> k < Suc i + j \<and> bit d k}"
  have "{k. i \<le> k \<and> k < i + Suc j \<and> bit d k} = (if bit d i then insert i ?S else ?S)"
    by (auto simp: Suc_le_eq le_less)
  then have "card {k. i \<le> k \<and> k < i + Suc j \<and> bit d k} = of_bool (bit d i) + card ?S" by simp
  then show ?case
    using Suc [of "Suc i"] by (simp add: and_exp_eq_0_iff_not_bit mult.commute)
qed

lemma finite_bits: "finite {k. bit (n :: nat) k}"
proof -
  have "{k. bit n k} \<subseteq> {..n}"
    by (auto simp: bit_iff_odd) (metis div_less even_zero less_exp linorder_not_le order_less_trans)
  then show ?thesis by (rule finite_subset) simp
qed

lemma div_add_exp: "(a + c * 2 ^ k) div 2 ^ k = c + a div (2 :: nat) ^ k"
  by (rule div_mult_self1) simp

lemma bits_be_nat_snoc:
  "{k. bit (be_nat (bs @ [b])) k} = {j. j < 8 \<and> bit b j} \<union> (\<lambda>k. k + 8) ` {k. bit (be_nat bs) k}"
proof -
  have "bit (be_nat (bs @ [b])) k \<longleftrightarrow> (if k < 8 then bit b k else bit (be_nat bs) (k - 8))" for k
  proof (cases "k < 8")
    case True
    then have "(2 :: nat) ^ (8 - k) * 2 ^ k = 256" by (simp flip: power_add)
    then have "be_nat bs * 256 + unat b = unat b + (be_nat bs * 2 ^ (8 - k)) * 2 ^ k"
      by (simp only: mult.assoc)
    then have "(be_nat bs * 256 + unat b) div 2 ^ k = be_nat bs * 2 ^ (8 - k) + unat b div 2 ^ k"
      by (simp only: div_add_exp)
    moreover have "bit (unat b) k = bit b k" by (simp add: bit_simps)
    ultimately show ?thesis using True by (simp add: bit_iff_odd [of "_ :: nat"])
  next
    case False
    then have "(2 :: nat) ^ k = 256 * 2 ^ (k - 8)" using power_add [of "2 :: nat" 8 "k - 8"] by simp
    then have "(be_nat bs * 256 + unat b) div 2 ^ k = be_nat bs div 2 ^ (k - 8)"
      by (simp add: div_mult2_eq)
    with False show ?thesis by (simp add: bit_iff_odd)
  qed
  then show ?thesis by (force simp: image_iff)
qed

lemma OnesCount_card: "OnesCount bs = card {k. bit (be_nat bs) k}"
proof (induction bs rule: rev_induct)
  case Nil
  then show ?case by (simp add: OnesCount_def)
next
  case (snoc b bs)
  have "card {k. bit (be_nat (bs @ [b])) k} = card {j. j < 8 \<and> bit b j} + card {k. bit (be_nat bs) k}"
    unfolding bits_be_nat_snoc
    by (subst card_Un_disjoint) (auto simp: finite_bits card_image inj_on_def)
  with snoc show ?case using ones_loop_bits [of 8 b 0] by (simp add: OnesCount_def)
qed

lemma CheckMask_bits: "CheckMask msk hash \<longleftrightarrow> (\<forall>k. bit (be_nat msk) k \<longrightarrow> bit (be_nat hash) k)"
  by (auto simp: CheckMask_def bit_eq_iff bit_and_iff)

section \<open>New masks\<close>

lemma mask_loop_simps:
  "mask_loop draw d i msk =
     (if int (card {k. bit msk k}) < d then mask_loop draw d (Suc i) (msk OR 2 ^ draw i) else Some msk)"
  by (subst mask_loop.simps) (simp add: OnesCount_card)

lemma bits_or_exp: "{k. bit (msk OR 2 ^ j :: nat) k} = insert j {k. bit msk k}"
  by (auto simp: bit_simps)

text \<open>The mask after some draws has exactly the drawn bits; it never has more than asked for.\<close>

lemma drawn_Suc: "draw ` {..<Suc i} = insert (draw i) (draw ` {..<i})"
  by (auto simp: lessThan_Suc)

lemma mask_loop_Some:
  assumes "mask_loop draw d i msk = Some m" and "{k. bit msk k} = draw ` {..<i}"
    and "int (card (draw ` {..<i})) \<le> max 0 d"
  shows "\<exists>j. {k. bit m k} = draw ` {..<j} \<and> int (card (draw ` {..<j})) = max 0 d"
  using assms
proof (induction draw d i msk m rule: mask_loop.raw_induct [rotated, consumes 1, case_names step])
  case (step f draw d i msk m)
  show ?case
  proof (cases "int (card (draw ` {..<i})) < d")
    case True
    then have "int (card (draw ` {..<Suc i})) \<le> max 0 d" unfolding drawn_Suc
      by (simp add: card_insert_if)
    moreover have "f draw d (Suc i) (msk OR 2 ^ draw i) = Some m"
      using True step by (simp add: OnesCount_card)
    ultimately show ?thesis using step by (simp add: bits_or_exp drawn_Suc)
  next
    case False
    with step show ?thesis by (intro exI [of _ i]) (auto simp: OnesCount_card)
  qed
qed

lemma mask_loop_enough:
  assumes "d \<le> int (card (draw ` {..<i + n}))" and "{k. bit msk k} = draw ` {..<i}"
  shows "\<exists>m. mask_loop draw d i msk = Some m"
  using assms
proof (induction n arbitrary: i msk)
  case 0
  then show ?case by (subst mask_loop_simps) simp
next
  case (Suc n)
  have "\<exists>m. mask_loop draw d (Suc i) (msk OR 2 ^ draw i) = Some m"
    using Suc.prems by (intro Suc.IH) (simp_all add: bits_or_exp drawn_Suc)
  then show ?case by (subst mask_loop_simps) simp
qed

lemma range_drawn:
  assumes "finite (range draw)"
  shows "\<exists>n. draw ` {..<n :: nat} = range draw"
proof -
  obtain S where S: "finite S" "draw ` S = range draw"
    using finite_subset_image [OF assms, of draw UNIV] by auto
  then obtain n where "\<forall>s\<in>S. s < n" by (auto simp: finite_nat_set_iff_bounded)
  with S(2) show ?thesis by (intro exI [of _ n]) blast
qed

lemma finite_draws: "\<forall>i :: nat. draw i < (255 :: nat) \<Longrightarrow> finite (range draw)"
  by (auto intro: finite_subset [of _ "{..<255}"])

lemma small_255: "(255 :: nat) < 256" by simp

lemma length_min_bytes_bits:
  assumes "\<And>k. bit m k \<Longrightarrow> k < 256"
  shows "length (min_bytes m) \<le> 32"
proof -
  have "take_bit 256 m = m" using assms by (intro bit_eqI) (auto simp: bit_take_bit_iff)
  then have "m < 2 ^ 256" by (metis take_bit_nat_less_exp)
  then show ?thesis by (intro length_min_bytes_le) simp
qed

text \<open>C36: generating a mask ends exactly when the random bits hold as many different ones as the terms'
  difficulty, so never for a difficulty above 255; the mask then has exactly that many bits set, all of
  them drawn, and fits into the 32 bytes it is copied to.\<close>

theorem mask_loop_ends:
  assumes draw: "\<forall>i. draw i < 255"
  shows "if difficulty \<le> int (card (range draw))
    then \<exists>m. mask_loop draw difficulty 0 0 = Some m \<and> OnesCount (min_bytes m) = nat difficulty \<and>
      {k. bit m k} \<subseteq> range draw \<and> length (min_bytes m) \<le> 32
    else mask_loop draw difficulty 0 0 = None"
proof (cases "mask_loop draw difficulty 0 0")
  case None
  obtain n where "draw ` {..<n} = range draw" using range_drawn [of draw] finite_draws [OF draw] by blast
  with None show ?thesis using mask_loop_enough [of difficulty draw 0 n 0] by auto
next
  case (Some m)
  then obtain j where j: "{k. bit m k} = draw ` {..<j}" "int (card (draw ` {..<j})) = max 0 difficulty"
    using mask_loop_Some [of draw difficulty 0 0 m] by auto
  have "card (draw ` {..<j}) \<le> card (range draw)" using finite_draws [OF draw] by (intro card_mono) auto
  with j have "difficulty \<le> int (card (range draw))" by linarith
  moreover have "length (min_bytes m) \<le> 32" using j(1) draw by (intro length_min_bytes_bits) (metis (mono_tags) imageE mem_Collect_eq order.strict_trans small_255)
  ultimately show ?thesis using j Some by (auto simp: OnesCount_card)
qed

theorem mask_loop_ends_witness:
  "(\<exists>m. mask_loop (\<lambda>i. i mod 8) 3 0 0 = Some m \<and> OnesCount (min_bytes m) = 3) \<and>
   mask_loop (\<lambda>i. 7) 3 0 0 = None"
proof -
  have "range (\<lambda>i :: nat. i mod 8) = {..<8}"
    by (auto simp: image_iff intro: mod_less [symmetric])
  moreover have "\<forall>i. i mod 8 < (255 :: nat)" by (simp add: order.strict_trans [OF mod_less_divisor])
  ultimately show ?thesis
    using mask_loop_ends [of "\<lambda>i. i mod 8" 3] mask_loop_ends [of "\<lambda>i. 7" 3]
    by (auto simp: image_constant_conv)
qed

section \<open>Nonces and signatures\<close>

lemma CheckMask_Nil: "CheckMask msk [] \<Longrightarrow> CheckMask msk hash"
  by (simp add: CheckMask_bits)

lemma nonce_loop_found:
  assumes "nonce_loop C draw body timestamp msk i hash nonce = Some found"
    and "CheckMask msk hash \<Longrightarrow> CheckMask msk (keccak256 C (terms_message body timestamp nonce))"
  shows "CheckMask msk (keccak256 C (terms_message body timestamp found))"
  using assms
proof (induction C draw body timestamp msk i hash nonce found
    rule: nonce_loop.raw_induct [rotated, consumes 1, case_names step])
  case (step f C draw body timestamp msk i h nonce found)
  then show ?case by (auto split: if_splits)
qed

text \<open>A nonce that is found passes the mask, so the signature alone decides.\<close>

lemma found_nonce_passes:
  assumes "FindValidNonce C draw (tm_Text terms) timestamp msk = Some nonce"
  shows "CheckSig C terms (Some sig) addr timestamp nonce msk =
    go_map Inr (Signature_Verify C sig addr (terms_message (tm_Text terms) timestamp nonce))"
  using nonce_loop_found [OF assms [unfolded FindValidNonce_def] CheckMask_Nil] by (simp add: CheckSig_def)

text \<open>The id of the terms makes no difference.\<close>

lemma CheckTerms_ignores_id: "CheckTerms C rows n = CheckTerms C rows m" "SaveSig C rows create n = SaveSig C rows create m"
  by (intro ext; simp add: CheckTerms_def SaveSig_def)+

section \<open>One current version of the terms\<close>

definition terms_ok :: "terms_row list \<Rightarrow> bool" where
  "terms_ok rows = (distinct (map tm_ID rows) \<and> distinct (map tm_Lang (filter tm_Current rows)))"

lemma GetTerms_Inr: "GetTerms rows lang = Inr r \<Longrightarrow> r \<in> set rows \<and> tm_Lang r = lang \<and> tm_Current r"
  by (auto simp: GetTerms_def find_Some_iff split: option.splits)

lemma GetTerms_Inl: "GetTerms rows lang = Inl e \<longleftrightarrow> e = record_not_found \<and> (\<forall>r\<in>set rows. tm_Current r \<longrightarrow> tm_Lang r \<noteq> lang)"
  by (auto simp: GetTerms_def find_None_iff find_Some_iff split: option.splits)

lemma save_row_IDs [simp]: "map tm_ID (save_row r rows) = map tm_ID rows"
  by (simp add: save_row_def)

lemma save_row_current:
  "\<not> tm_Current r \<Longrightarrow> filter tm_Current (save_row r rows) = filter (\<lambda>x. tm_Current x \<and> tm_ID x \<noteq> tm_ID r) rows"
  by (induction rows) (auto simp: save_row_def)

lemma same_ID: "distinct (map tm_ID rows) \<Longrightarrow> x \<in> set rows \<Longrightarrow> y \<in> set rows \<Longrightarrow> tm_ID x = tm_ID y \<Longrightarrow> x = y"
  by (meson distinct_map inj_onD)

lemma one_current:
  "terms_ok rows \<Longrightarrow> x \<in> set rows \<Longrightarrow> y \<in> set rows \<Longrightarrow> tm_Current x \<Longrightarrow> tm_Current y \<Longrightarrow> tm_Lang x = tm_Lang y \<Longrightarrow> x = y"
  by (auto simp: terms_ok_def distinct_map dest: inj_onD)

lemma GetTerms_other:
  assumes "GetTerms rows lang = Inr old" and "l \<noteq> lang" and "distinct (map tm_ID rows)"
  shows "GetTerms (save_row (old\<lparr>tm_Current := False\<rparr>) rows) l = GetTerms rows l"
proof -
  have "find (\<lambda>r. tm_Lang r = l \<and> tm_Current r) (save_row (old\<lparr>tm_Current := False\<rparr>) xs) =
      find (\<lambda>r. tm_Lang r = l \<and> tm_Current r) xs" if "set xs \<subseteq> set rows" for xs
    using that
  proof (induction xs)
    case (Cons x xs)
    then have "tm_ID x = tm_ID old \<Longrightarrow> x = old"
      using same_ID [OF assms(3), of x old] GetTerms_Inr [OF assms(1)] by auto
    with Cons show ?case using GetTerms_Inr [OF assms(1)] assms(2) by (auto simp: save_row_def)
  qed (simp add: save_row_def)
  then show ?thesis by (simp add: GetTerms_def)
qed

lemma GetTerms_snoc:
  "GetTerms (rows @ [r]) l = (case GetTerms rows l of
     Inl e \<Rightarrow> if tm_Lang r = l \<and> tm_Current r then Inr r else Inl record_not_found | Inr x \<Rightarrow> Inr x)"
  by (induction rows) (auto simp: GetTerms_def)

text \<open>What is written before the new row, and the difficulty it takes over.\<close>

definition retired :: "terms_row list \<Rightarrow> string \<Rightarrow> terms_row list \<times> int" where
  "retired rows lang =
     (case GetTerms rows lang of
        Inl e \<Rightarrow> (rows, 3)
      | Inr old \<Rightarrow> (save_row (old\<lparr>tm_Current := False\<rparr>) rows, tm_Difficulty old))"

lemma retired_ok:
  assumes "terms_ok rows"
  shows "map tm_ID (fst (retired rows lang)) = map tm_ID rows"
    and "distinct (map tm_Lang (filter tm_Current (fst (retired rows lang))))"
    and "\<forall>r\<in>set (fst (retired rows lang)). tm_Current r \<longrightarrow> tm_Lang r \<noteq> lang"
    and "l \<noteq> lang \<Longrightarrow> GetTerms (fst (retired rows lang)) l = GetTerms rows l"
proof -
  consider e where "GetTerms rows lang = Inl e" | old where "GetTerms rows lang = Inr old"
    by (cases "GetTerms rows lang")
  then have "map tm_ID (fst (retired rows lang)) = map tm_ID rows \<and>
    distinct (map tm_Lang (filter tm_Current (fst (retired rows lang)))) \<and>
    (\<forall>r\<in>set (fst (retired rows lang)). tm_Current r \<longrightarrow> tm_Lang r \<noteq> lang) \<and>
    (l \<noteq> lang \<longrightarrow> GetTerms (fst (retired rows lang)) l = GetTerms rows l)"
  proof cases
    case 1
    then have "\<forall>r\<in>set rows. tm_Current r \<longrightarrow> tm_Lang r \<noteq> lang" by (simp add: GetTerms_Inl)
    with 1 assms show ?thesis by (simp add: retired_def terms_ok_def)
  next
    case 2
    note old = GetTerms_Inr [OF 2]
    have "filter (\<lambda>x. tm_Current x \<and> tm_ID x \<noteq> tm_ID old) rows =
        filter (\<lambda>x. tm_ID x \<noteq> tm_ID old) (filter tm_Current rows)"
      by (simp add: conj_commute)
    then have "distinct (map tm_Lang (filter (\<lambda>x. tm_Current x \<and> tm_ID x \<noteq> tm_ID old) rows))"
      using assms by (simp only: terms_ok_def distinct_map_filter)
    moreover have "tm_Lang r \<noteq> lang" if "r \<in> set rows" "tm_Current r" "tm_ID r \<noteq> tm_ID old" for r
      using one_current [OF assms that(1), of old] that old by auto
    ultimately show ?thesis
      using 2 GetTerms_other [OF 2] assms
      by (simp add: retired_def save_row_current terms_ok_def) (auto simp: save_row_def)
  qed
  then show "map tm_ID (fst (retired rows lang)) = map tm_ID rows"
    "distinct (map tm_Lang (filter tm_Current (fst (retired rows lang))))"
    "\<forall>r\<in>set (fst (retired rows lang)). tm_Current r \<longrightarrow> tm_Lang r \<noteq> lang"
    "l \<noteq> lang \<Longrightarrow> GetTerms (fst (retired rows lang)) l = GetTerms rows l"
    by blast+
qed


definition sample_terms :: "terms_row list" where
  "sample_terms =
     [\<lparr>tm_ID = 1, tm_Current = True, tm_Lang = ''en'', tm_Text = ''old'', tm_Valid = True, tm_Difficulty = 5\<rparr>,
      \<lparr>tm_ID = 2, tm_Current = True, tm_Lang = ''de'', tm_Text = ''alt'', tm_Valid = True, tm_Difficulty = 4\<rparr>]"

definition no_faults :: tx_faults where
  "no_faults = \<lparr>f_Find = None, f_Begin = None, f_Save = None, f_Create = None, f_Commit = None\<rparr>"


text \<open>When the lookup of the old version fails, it stays current beside the new one.\<close>

lemma UpdateTerms_failed_lookup:
  "\<not> terms_ok (snd (UpdateTerms (no_faults\<lparr>f_Find := Some ''timeout''\<rparr>) False [] 3 ''en'' ''new'' sample_terms))"
  by (simp add: UpdateTerms_def no_faults_def sample_terms_def terms_ok_def)

end
