(* ===== verification/TermsApi.thy ===== *)
theory TermsApi
  imports Terms IndexConsumers SearchApi
begin

text \<open>
  The terms-of-service endpoints (\<open>terms/terms.go\<close>, \<open>terms/healthcheck.go\<close>): the current terms with a
  mask, the submission of a signature, and the check of an address. Times are nanoseconds; \<open>remote\<close> is
  the address of the peer.
\<close>

section \<open>Replies\<close>

definition no_store :: "response \<Rightarrow> response" where
  "no_store = set_header ''Cache-Control'' ''no-cache, no-store, must-revalidate''"

definition terms_returnError :: "json_enc \<Rightarrow> int \<Rightarrow> string \<Rightarrow> nat \<Rightarrow> response \<Rightarrow> response" where
  "terms_returnError enc code reason status w =
     write_body (enc (JObject [(''code'', JNumber (big_String code)), (''reason'', JString reason)]))
       (WriteHeader status (no_store (content_json w)))"

section \<open>Offering the terms\<close>

text \<open>The mask is copied to the end of 32 bytes.\<close>

definition json_of_terms :: "terms_row \<Rightarrow> bytes \<Rightarrow> nat \<Rightarrow> json go" where
  "json_of_terms terms msk mask_id =
     (if length msk > 32 then Panic IndexOutOfRange
      else Ret (JObject [(''text'', JString (tm_Text terms)), (''id'', JNumber (big_String (int (tm_ID terms)))),
             (''mask'', JString (big_String (int (be_nat (zero_bytes (32 - length msk) @ msk))))),
             (''maskId'', JNumber (big_String (int mask_id)))]))"

definition terms_get ::
  "json_enc \<Rightarrow> (nat \<Rightarrow> nat) \<Rightarrow> int \<Rightarrow> int \<Rightarrow> (hash_mask \<Rightarrow> err + nat) \<Rightarrow> terms_row list \<Rightarrow> response \<Rightarrow> request
     \<Rightarrow> (nat \<rightharpoonup> hash_mask) \<Rightarrow> (response \<times> (nat \<rightharpoonup> hash_mask)) go option"
where
  "terms_get enc draw now expires stored rows w r cache =
     (let lang = (if query_get r ''lang'' = [] then ''en'' else query_get r ''lang'') in
      case GetTerms rows lang of
        Inl e \<Rightarrow> Some (Ret (terms_returnError enc 101 e 404 w, cache))
      | Inr terms \<Rightarrow>
          map_option (\<lambda>((msk, mask_id, err), cache').
            case err of
              Some e \<Rightarrow> Ret (terms_returnError enc 101 e 500 w, cache')
            | None \<Rightarrow> go_map (\<lambda>j.
                (write_body (enc j) (WriteHeader 200
                   (set_header ''Cache-Control'' ''max-age=1500, public'' (content_json w))), cache'))
                (json_of_terms terms msk mask_id))
            (GetNewHashMask draw now expires stored terms cache))"

section \<open>Accepting a signature\<close>

record sig_payload =
  sp_TermsID :: nat
  sp_MaskID :: nat
  sp_Signature :: "signature option"
  sp_Address :: address
  sp_Timestamp :: string
  sp_Nonce :: string

definition sig_payload_keys :: "string list" where
  "sig_payload_keys = [''terms_id'', ''mask_id'', ''sig'', ''address'', ''timestamp'', ''nonce'']"

text \<open>The state of the decoder: the struct, its error, and whether it stopped at it; a value of the
  wrong kind is an error it goes on after, one of a custom decoder ends it.\<close>

definition sig_member ::
  "string \<times> json \<Rightarrow> sig_payload \<times> err option \<times> bool \<Rightarrow> (sig_payload \<times> err option \<times> bool) go"
where
  "sig_member m s =
     (case s of (p, e, stopped) \<Rightarrow>
        if stopped then Ret s
        else case json_field sig_payload_keys (fst m) of
          None \<Rightarrow> Ret s
        | Some f \<Rightarrow>
            (let v = snd m in
             if f = ''sig''
             then (if v = JNull then Ret (p\<lparr>sp_Signature := None\<rparr>, e, False)
                   else (case Signature_UnmarshalJSON (json_raw v) (case sp_Signature p of None \<Rightarrow> [] | Some x \<Rightarrow> x) of
                           Inl x \<Rightarrow> Ret (p, Some x, True)
                         | Inr x \<Rightarrow> Ret (p\<lparr>sp_Signature := Some x\<rparr>, e, False)))
             else if f = ''address''
             then (if v = JNull then Ret (p\<lparr>sp_Address := []\<rparr>, e, False)
                   else go_map (\<lambda>(a, x). (p\<lparr>sp_Address := a\<rparr>, if x = None then e else x, x \<noteq> None))
                     (Address_UnmarshalJSON (json_raw v) (if sp_Address p = [] then zero_address else sp_Address p)))
             else if v = JNull then Ret s
             else if f = ''timestamp'' \<and> is_jstring v then Ret (p\<lparr>sp_Timestamp := jstring v\<rparr>, e, False)
             else if f = ''nonce'' \<and> is_jstring v then Ret (p\<lparr>sp_Nonce := jstring v\<rparr>, e, False)
             else (case (f, v) of
                     (_, JNumber t) \<Rightarrow>
                       (case ParseUint64 t of
                          Inl x \<Rightarrow> Ret (p, Some json_err_type, False)
                        | Inr n \<Rightarrow>
                            if f = ''terms_id'' then Ret (p\<lparr>sp_TermsID := n\<rparr>, e, False)
                            else if f = ''mask_id'' then Ret (p\<lparr>sp_MaskID := n\<rparr>, e, False)
                            else Ret (p, Some json_err_type, False))
                   | _ \<Rightarrow> Ret (p, Some json_err_type, False))))"

text \<open>The payload, nil for \<open>null\<close>.\<close>

definition sig_payload_of_json :: "json \<Rightarrow> (err + sig_payload option) go" where
  "sig_payload_of_json j =
     (let p = \<lparr>sp_TermsID = 0, sp_MaskID = 0, sp_Signature = Some (zero_bytes 66), sp_Address = [],
               sp_Timestamp = [], sp_Nonce = []\<rparr> in
      case j of
        JNull \<Rightarrow> Ret (Inr None)
      | JObject ms \<Rightarrow> go_map (\<lambda>(p, e, stopped). case e of None \<Rightarrow> Inr (Some p) | Some x \<Rightarrow> Inl x)
          (go_fold sig_member ms (p, None, False))
      | _ \<Rightarrow> Ret (Inl json_err_type))"

text \<open>Seconds since the year 1, as \<open>time.Time\<close> counts them.\<close>

definition unix_internal :: "int \<Rightarrow> int" where "unix_internal s = int64_of (s + 62135596800)"

definition in_future :: "int \<Rightarrow> int \<Rightarrow> bool" where
  "in_future now s = (unix_internal (now div 1000000000) < unix_internal s)"

definition stale :: "int \<Rightarrow> int \<Rightarrow> bool" where
  "stale now s =
     (let t = int64_of (unix_internal s + 300); n = unix_internal (now div 1000000000)
      in t < n \<or> (t = n \<and> 0 < now mod 1000000000))"

text \<open>The reason of a refusal, or the nonce.\<close>

definition timely_nonce :: "int \<Rightarrow> sig_payload \<Rightarrow> string + bytes" where
  "timely_nonce now p =
     (case Atoi (sp_Timestamp p) of
        Inl e \<Rightarrow> Inl ''Invalid Timestamp''
      | Inr seconds \<Rightarrow>
          if in_future now seconds then Inl ''Timestamp in the future''
          else if stale now seconds then Inl ''Timestamp stale''
          else (case hex_DecodeString (trim_prefix (sp_Nonce p) ''0x'') of
                  Inl e \<Rightarrow> Inl ''Malformed Nonce'' | Inr nonce \<Rightarrow> Inr nonce))"

text \<open>Behind a proxy, the address it forwards.\<close>

definition signer_ip :: "request \<Rightarrow> string \<Rightarrow> string" where
  "signer_ip r remote = (let f = header_get r ''X-Forwarded-For'' in if f = [] then remote else f)"

definition terms_post ::
  "crypto \<Rightarrow> json_parse \<Rightarrow> json_enc \<Rightarrow> int \<Rightarrow> string \<Rightarrow> terms_row list \<Rightarrow> hash_mask list
     \<Rightarrow> (terms_sig \<Rightarrow> 'v \<Rightarrow> err option \<times> 'v) \<Rightarrow> response \<Rightarrow> request \<Rightarrow> 'v \<Rightarrow> (response \<times> 'v) go"
where
  "terms_post C parse enc now remote rows masks create w r v =
     (case rq_Read r 1024 of (data, e) \<Rightarrow>
        if read_failed e then Ret (terms_returnError enc 100 ''Error reading content'' 500 w, v)
        else go_bind (case parse (string_of_bytes data) of Inl x \<Rightarrow> Ret (Inl x) | Inr j \<Rightarrow> sig_payload_of_json j) (\<lambda>d.
          case d of
            Inl x \<Rightarrow> Ret (terms_returnError enc 101 ''Malformed JSON'' 400 w, v)
          | Inr None \<Rightarrow> Panic NilDereference
          | Inr (Some p) \<Rightarrow>
              (case GetHashMaskById masks (sp_MaskID p) of
                 Inl x \<Rightarrow> Ret (terms_returnError enc 101 ''Invalid HashMask ID'' 400 w, v)
               | Inr hashMask \<Rightarrow>
                   (case timely_nonce now p of
                      Inl reason \<Rightarrow> Ret (terms_returnError enc 101 reason 400 w, v)
                    | Inr nonce \<Rightarrow>
                        go_map (\<lambda>(err, v'). case err of
                            Some x \<Rightarrow> (terms_returnError enc 101 x 400 w, v')
                          | None \<Rightarrow> (WriteHeader 202 w, v'))
                          (SaveSig C rows create (sp_TermsID p) (sp_Signature p) (sp_Address p) (sp_Timestamp p)
                             (signer_ip r remote) nonce hashMask v)))))"

definition TermsHandler ::
  "crypto \<Rightarrow> json_parse \<Rightarrow> json_enc \<Rightarrow> (nat \<Rightarrow> nat) \<Rightarrow> int \<Rightarrow> int \<Rightarrow> string \<Rightarrow> (hash_mask \<Rightarrow> err + nat) \<Rightarrow> terms_row list
     \<Rightarrow> hash_mask list \<Rightarrow> (terms_sig \<Rightarrow> 'v \<Rightarrow> err option \<times> 'v) \<Rightarrow> response \<Rightarrow> request
     \<Rightarrow> (nat \<rightharpoonup> hash_mask) \<times> 'v \<Rightarrow> (response \<times> (nat \<rightharpoonup> hash_mask) \<times> 'v) go option"
where
  "TermsHandler C parse enc draw now expires remote stored rows masks create w r s =
     (case s of (cache, v) \<Rightarrow>
        if rq_Method r = ''GET''
        then map_option (go_map (\<lambda>(w', cache'). (w', cache', v))) (terms_get enc draw now expires stored rows w r cache)
        else if rq_Method r = ''POST''
        then Some (go_map (\<lambda>(w', v'). (w', cache, v')) (terms_post C parse enc now remote rows masks create w r v))
        else Some (Ret (terms_returnError enc 100 (''Unsupported Method: '' @ rq_Method r) 405 w, cache, v)))"

section \<open>Checking an address\<close>

definition tos_prefixes :: "string list" where "tos_prefixes = [''/_tos/0x'']"

definition TermsCheckHandler :: "json_enc \<Rightarrow> response \<Rightarrow> request \<Rightarrow> response" where
  "TermsCheckHandler enc w r =
     (if rq_Method r = ''GET''
      then (case last_hash tos_prefixes (rq_Path r) of
              None \<Rightarrow> terms_returnError enc 100 ''Malformed address'' 404 w
            | Some hashHex \<Rightarrow>
                (case hex_DecodeString hashHex of
                   Inl e \<Rightarrow> terms_returnError enc 100 e 404 w
                 | Inr hashBytes \<Rightarrow>
                     if CheckAddress (go_copy zero_address hashBytes) then WriteHeader 204 w
                     else WriteHeader 404 (no_store w)))
      else terms_returnError enc 100 (''Unsupported Method: '' @ rq_Method r) 405 w)"

text \<open>\<open>db\<close> is nothing without a database, else the error of the query it is asked.\<close>

definition terms_HealthCheckHandler :: "json_enc \<Rightarrow> err option option \<Rightarrow> response \<Rightarrow> response" where
  "terms_HealthCheckHandler enc db w =
     (case db of
        Some (Some e) \<Rightarrow> terms_returnError enc 100 e 500 w
      | _ \<Rightarrow> write_body ''{\"status\": \"ok\"}'' (content_json (WriteHeader 200 w)))"

text \<open>Every address is one that has signed.\<close>

lemma TermsCheckHandler_204:
  "rq_Method r = ''GET'' \<Longrightarrow> last_hash tos_prefixes (rq_Path r) = Some h \<Longrightarrow> hex_DecodeString h = Inr a \<Longrightarrow>
   TermsCheckHandler enc w r = WriteHeader 204 w"
  by (simp add: TermsCheckHandler_def CheckAddress_def)

text \<open>A body of \<open>null\<close> panics.\<close>

lemma terms_post_null:
  "rq_Read r 1024 = (data, None) \<Longrightarrow> parse (string_of_bytes data) = Inr JNull \<Longrightarrow>
   terms_post C parse enc now remote rows masks create w r v = Panic NilDereference"
  by (simp add: terms_post_def read_failed_def sig_payload_of_json_def)

text \<open>A timestamp is taken when it lies in the last five minutes.\<close>

lemma timely_window:
  assumes "0 \<le> s" "s < 2 ^ 62" "0 \<le> now" "now < 2 ^ 62"
  shows "\<not> in_future now s \<and> \<not> stale now s \<longleftrightarrow> s * 1000000000 \<le> now \<and> now \<le> (s + 300) * 1000000000"
proof -
  have n: "now = now div 1000000000 * 1000000000 + now mod 1000000000" "0 \<le> now mod 1000000000"
    "now mod 1000000000 < 1000000000" "0 \<le> now div 1000000000"
    using assms by (simp_all add: pos_imp_zdiv_nonneg_iff)
  then have "now div 1000000000 \<le> now" by linarith
  have i: "unix_internal s = s + 62135596800" "int64_of (62135597100 + s) = 62135597100 + s"
    "unix_internal (now div 1000000000) = now div 1000000000 + 62135596800"
    using assms n \<open>now div 1000000000 \<le> now\<close> unfolding unix_internal_def by (auto intro!: int64_of_small)
  have "in_future now s \<longleftrightarrow> now div 1000000000 < s" by (simp add: in_future_def i)
  moreover have "stale now s \<longleftrightarrow> s + 300 < now div 1000000000 \<or> (s + 300 = now div 1000000000 \<and> 0 < now mod 1000000000)"
    by (auto simp: stale_def Let_def i)
  moreover obtain q m where q: "now div 1000000000 = q" "now mod 1000000000 = m" by blast
  ultimately have "in_future now s \<longleftrightarrow> q < s" "stale now s \<longleftrightarrow> s + 300 < q \<or> (s + 300 = q \<and> 0 < m)" by simp_all
  moreover have "now = q * 1000000000 + m" "0 \<le> m" "m < 1000000000" using n q by simp_all
  ultimately show ?thesis by auto
qed

definition store_sig :: "terms_sig \<Rightarrow> terms_sig list \<Rightarrow> err option \<times> terms_sig list" where
  "store_sig s v = (None, v @ [s])"


definition sample_sig_json :: json where
  "sample_sig_json =
     JObject [(''sig'', JString (sprintf_hex sample_signature)), (''address'', JString (sprintf_hex sample_signer)),
              (''timestamp'', JString (big_String 100)), (''mask_id'', JNumber (big_String 7))]"

definition sample_sig_payload :: sig_payload where
  "sample_sig_payload =
     \<lparr>sp_TermsID = 0, sp_MaskID = 7, sp_Signature = Some sample_signature, sp_Address = sample_signer,
      sp_Timestamp = big_String 100, sp_Nonce = []\<rparr>"

lemma sample_sig_payload: "sig_payload_of_json sample_sig_json = Ret (Inr (Some sample_sig_payload))"
proof -
  have "Signature_UnmarshalJSON (quoted (sprintf_hex sample_signature)) (zero_bytes 66) = Inr sample_signature"
    by (rule signature_text) (simp_all add: sample_signature_def)
  moreover have "Address_UnmarshalJSON (quoted (sprintf_hex sample_signer)) zero_address = Ret (sample_signer, None)"
    by (rule address_text) (simp_all add: sample_signer_def)
  moreover have "ParseUint64 (big_String 7) = Inr 7" by (simp add: ParseUint64_def big_String_def)
  ultimately show ?thesis
    by (simp add: sig_payload_of_json_def sample_sig_json_def sig_member_def sig_payload_keys_def json_raw_def
        is_jstring_def jstring_def sample_sig_payload_def)
qed

lemma sample_timely: "timely_nonce 100000000000 sample_sig_payload = Inr []"
proof -
  have "\<not> in_future 100000000000 100 \<and> \<not> stale 100000000000 100" by (simp add: timely_window)
  then show ?thesis
    by (simp add: timely_nonce_def sample_sig_payload_def Atoi_big_String trim_prefix_def has_prefix_def hex_DecodeString_def)
qed


end
