(* ===== verification/BlockHash.thy ===== *)
theory BlockHash
  imports EventLogs
begin

text \<open>
  The latest block hash (\<open>blockhash/blockhash.go\<close>): a consumer hands the hash of each block to the
  goroutine that \<open>Start\<close> runs, which remembers the last one and answers \<open>Get\<close>. Both channels are
  unbuffered, so the goroutine takes one message or one question at a time; a run is the list of
  what it took.
\<close>

section \<open>The consumer\<close>

text \<open>\<open>Source\<close> is the send to the goroutine.\<close>

definition ChanneledBlockHashConsumer_Consume ::
  "block_parse \<Rightarrow> (string \<Rightarrow> 'v \<Rightarrow> 'v) \<Rightarrow> 'v delivery \<Rightarrow> 'v \<Rightarrow> 'v"
where
  "ChanneledBlockHashConsumer_Consume parse Source msg v =
     (case parse (Payload msg) of
        (block, Some e) \<Rightarrow> snd (Reject msg v)
      | (block, None) \<Rightarrow> snd (Ack msg (Source (sprintf_hex (sb_Hash block)) v)))"

section \<open>The goroutine\<close>

record block_hash =
  bh_started :: bool
  bh_currentHash :: string

definition NewChanneledBlockHash :: block_hash where
  "NewChanneledBlockHash = \<lparr>bh_started = False, bh_currentHash = []\<rparr>"

definition bh_Start :: "block_hash \<Rightarrow> block_hash" where
  "bh_Start rbh = \<lparr>bh_started = True, bh_currentHash = ''initializing''\<rparr>"

definition bh_source :: "string \<Rightarrow> block_hash \<Rightarrow> block_hash" where
  "bh_source msg rbh = rbh\<lparr>bh_currentHash := msg\<rparr>"

definition bh_Get :: "block_hash \<Rightarrow> string \<times> block_hash" where
  "bh_Get rbh = (let s = (if bh_started rbh then rbh else bh_Start rbh) in (bh_currentHash s, s))"

text \<open>Messages are only taken once it runs: a delivery before that waits in its channel.\<close>

datatype bh_event = Delivered string | Asked

fun bh_run :: "block_parse \<Rightarrow> bh_event list \<Rightarrow> block_hash \<times> trace \<Rightarrow> string list \<times> block_hash \<times> trace" where
  "bh_run parse [] s = ([], s)"
| "bh_run parse (Asked # es) (rbh, t) =
     (case bh_Get rbh of (answer, rbh') \<Rightarrow>
      case bh_run parse es (rbh', t) of (answers, s') \<Rightarrow> (answer # answers, s'))"
| "bh_run parse (Delivered p # es) (rbh, t) =
     bh_run parse es
       (ChanneledBlockHashConsumer_Consume parse (\<lambda>h (b, t). (bh_source h b, t))
          \<lparr>Payload = p, Ack = (\<lambda>(b, t). (True, b, t @ [Acked])), Reject = (\<lambda>(b, t). (True, b, t @ [Rejected])),
            Return = (\<lambda>(b, t). (True, b, t @ [Returned]))\<rparr> (rbh, t))"

text \<open>The reference: the hash of the last block that could be read, at each question.\<close>

fun bh_answers :: "block_parse \<Rightarrow> bh_event list \<Rightarrow> string \<Rightarrow> string list" where
  "bh_answers parse [] latest = []"
| "bh_answers parse (Asked # es) latest = latest # bh_answers parse es latest"
| "bh_answers parse (Delivered p # es) latest =
     bh_answers parse es (case parse p of (b, None) \<Rightarrow> sprintf_hex (sb_Hash b) | (b, Some e) \<Rightarrow> latest)"

lemma bh_run_Asked:
  "fst (bh_run parse (Asked # es) (rbh, t)) = fst (bh_Get rbh) # fst (bh_run parse es (snd (bh_Get rbh), t))"
  "snd (bh_run parse (Asked # es) (rbh, t)) = snd (bh_run parse es (snd (bh_Get rbh), t))"
  by (simp_all add: case_prod_beta)

lemma bh_run_Delivered:
  "bh_run parse (Delivered p # es) (rbh, t) =
     (case parse p of
        (b, None) \<Rightarrow> bh_run parse es (bh_source (sprintf_hex (sb_Hash b)) rbh, t @ [Acked])
      | (b, Some e) \<Rightarrow> bh_run parse es (rbh, t @ [Rejected]))"
  by (simp add: ChanneledBlockHashConsumer_Consume_def split: prod.split option.split)

declare bh_run.simps(2, 3) [simp del]

lemma bh_run_answers:
  "bh_started rbh \<Longrightarrow> fst (bh_run parse es (rbh, t)) = bh_answers parse es (bh_currentHash rbh)"
proof (induction es arbitrary: rbh t)
  case (Cons e es)
  then show ?case
    by (cases e) (simp_all add: bh_run_Asked bh_run_Delivered bh_Get_def bh_source_def
        split: prod.split option.split)
qed simp

text \<open>Every question after the first is answered with the last block read; the first, which starts the
  goroutine, with a placeholder.\<close>

lemma block_hash_latest:
  "fst (bh_run parse (Asked # es) (NewChanneledBlockHash, t)) = ''initializing'' # bh_answers parse es ''initializing''"
  using bh_run_answers [of "bh_Start NewChanneledBlockHash" parse es t]
  by (simp add: bh_run_Asked bh_Get_def NewChanneledBlockHash_def bh_Start_def)

text \<open>Each delivery is settled once.\<close>

lemma bh_settles:
  "settle_count (snd (snd (bh_run parse es (rbh, t)))) =
     settle_count t + length (filter (\<lambda>e. e \<noteq> Asked) es)"
proof (induction es arbitrary: rbh t)
  case (Cons e es)
  then show ?case
    by (cases e) (simp_all add: bh_run_Asked bh_run_Delivered settle_count_def split: prod.split option.split)
qed simp

end
