(* ===== verification/Workers.thy ===== *)
theory Workers
  imports Channels "HOL-Library.Sublist"
begin

text \<open>
  A consumer at work: the goroutine that fetches from the queue, the channel of deliveries it fills, the
  goroutine that takes deliveries from that channel (\<open>channels/queue_consumer.go\<close>), and the goroutines a
  relay starts for them, as many as its semaphore lets in (\<open>channels/relay.go\<close>, \<open>common/util.go\<close>). Every
  interleaving of them is a run of the step relation. The consumers of \<open>funds\<close>, \<open>db\<close> and \<open>fillbloom\<close> take
  their deliveries behind the same semaphore.
\<close>

section \<open>State\<close>

text \<open>A goroutine of \<open>RelayConsumer.Consume\<close>: before the filter; before publishing to publisher \<open>k\<close>;
  before the acknowledgement; before the release of the semaphore.\<close>

datatype worker = Filtering string | Publishing string nat | Acking string | Releasing

datatype consuming = Polling | StopAsked | Stopped

text \<open>\<open>Workers\<close> counts publishers, \<open>Buffer\<close> is the capacity of the channel of deliveries and \<open>Slots\<close> that of
  the semaphore; \<open>Passes\<close> is what the filter answers for a payload.\<close>

record relay_config =
  Publishers :: nat
  Buffer :: nat
  Slots :: nat
  Passes :: "string \<Rightarrow> bool"

text \<open>The queue, oldest first, and the list of unacknowledged messages are in redis. \<open>rs_handing\<close> is the
  delivery the fetching goroutine has in hand, \<open>rs_taken\<close> that of the consuming goroutine while it waits
  for the semaphore. \<open>rs_out\<close> is what was published, with the number of the publisher; \<open>rs_acked\<close> and
  \<open>rs_sent\<close> are history: the messages acknowledged and those that were given to the queue.\<close>

record relay_state =
  rs_ready :: "string list"
  rs_unacked :: "string multiset"
  rs_handing :: "string option"
  rs_buffer :: "string list"
  rs_taken :: "string option"
  rs_sem :: nat
  rs_workers :: "worker list"
  rs_out :: "(nat \<times> string) list"
  rs_acked :: "string list"
  rs_sent :: "string list"
  rs_consuming :: consuming

text \<open>\<open>NewRelay\<close> makes a semaphore of the concurrency it is given, and \<open>StartConsuming\<close> a channel of the one
  the environment names; \<open>make\<close> panics for a negative size.\<close>

definition prefetchLimit :: int where "prefetchLimit = 5"

definition go_make :: "int \<Rightarrow> nat go" where
  "go_make n = (if n < 0 then Panic (Panicked ''makechan: size out of range'') else Ret (nat n))"

definition channel_capacity :: "string \<Rightarrow> int" where
  "channel_capacity env = (case Atoi env of Inl e \<Rightarrow> prefetchLimit | Inr n \<Rightarrow> n)"

definition NewRelay :: "nat \<Rightarrow> (string \<Rightarrow> bool) \<Rightarrow> int \<Rightarrow> string \<Rightarrow> relay_config go" where
  "NewRelay publishers flt concurrency env =
     go_bind (go_make concurrency) (\<lambda>slots. go_map (\<lambda>buffer.
         \<lparr>Publishers = publishers, Buffer = buffer, Slots = slots, Passes = flt\<rparr>)
       (go_make (channel_capacity env)))"

text \<open>The semaphore is a channel with a place for each slot: \<open>Acquire\<close> waits for a place, \<open>Release\<close> frees
  one.\<close>

definition Acquire :: "nat \<Rightarrow> nat \<Rightarrow> nat option" where
  "Acquire slots sem = (if sem < slots then Some (sem + 1) else None)"

definition Release :: "nat \<Rightarrow> nat" where "Release sem = sem - 1"

definition new_relay :: "string list \<Rightarrow> relay_state" where
  "new_relay msgs =
     \<lparr>rs_ready = msgs, rs_unacked = {#}, rs_handing = None, rs_buffer = [], rs_taken = None, rs_sem = 0,
      rs_workers = [], rs_out = [], rs_acked = [], rs_sent = msgs, rs_consuming = Polling\<rparr>"

section \<open>Steps\<close>

text \<open>A producer publishes to the queue.\<close>

definition rs_send :: "string \<Rightarrow> relay_state \<Rightarrow> relay_state" where
  "rs_send m s = s\<lparr>rs_ready := rs_ready s @ [m], rs_sent := rs_sent s @ [m]\<rparr>"

text \<open>A round of \<open>consume\<close>: the oldest message moves to the unacknowledged ones; a round that began before
  the stop was noticed is the last one.\<close>

definition rs_fetch :: "relay_state \<Rightarrow> relay_state" where
  "rs_fetch s =
     (case rs_ready s of
        [] \<Rightarrow> s
      | m # ms \<Rightarrow> s\<lparr>rs_ready := ms, rs_unacked := add_mset m (rs_unacked s), rs_handing := Some m\<rparr>)"

definition after_round :: "relay_state \<Rightarrow> relay_state" where
  "after_round s = (if rs_consuming s = StopAsked then s\<lparr>rs_consuming := Stopped\<rparr> else s)"

text \<open>Sending to the channel of deliveries: into its buffer, or to a receiver that waits for it.\<close>

definition rs_hand :: "string \<Rightarrow> relay_state \<Rightarrow> relay_state" where
  "rs_hand m s = after_round (s\<lparr>rs_handing := None, rs_buffer := rs_buffer s @ [m]\<rparr>)"

definition rs_pass :: "string \<Rightarrow> relay_state \<Rightarrow> relay_state" where
  "rs_pass m s = after_round (s\<lparr>rs_handing := None, rs_taken := Some m\<rparr>)"

definition rs_take :: "relay_state \<Rightarrow> relay_state" where
  "rs_take s = (case rs_buffer s of [] \<Rightarrow> s | m # ms \<Rightarrow> s\<lparr>rs_buffer := ms, rs_taken := Some m\<rparr>)"

text \<open>After \<open>Acquire\<close> the goroutine of the delivery is started.\<close>

definition rs_start :: "string \<Rightarrow> nat \<Rightarrow> relay_state \<Rightarrow> relay_state" where
  "rs_start m sem s = s\<lparr>rs_taken := None, rs_sem := sem, rs_workers := rs_workers s @ [Filtering m]\<rparr>"

text \<open>The next action of a goroutine: what becomes of it, what it publishes and what it acknowledges.\<close>

fun work :: "relay_config \<Rightarrow> worker \<Rightarrow> worker list \<times> (nat \<times> string) list \<times> string list" where
  "work R (Filtering m) = ([if Passes R m then Publishing m 0 else Acking m], [], [])"
| "work R (Publishing m k) = (if k < Publishers R then ([Publishing m (k + 1)], [(k, m)], []) else ([Acking m], [], []))"
| "work R (Acking m) = ([Releasing], [], [m])"
| "work R Releasing = ([], [], [])"

definition rs_work :: "relay_config \<Rightarrow> worker list \<Rightarrow> worker \<Rightarrow> worker list \<Rightarrow> relay_state \<Rightarrow> relay_state" where
  "rs_work R us w vs s =
     (case work R w of (ws, published, acked) \<Rightarrow>
        s\<lparr>rs_workers := us @ ws @ vs, rs_out := rs_out s @ published, rs_acked := rs_acked s @ acked,
          rs_unacked := rs_unacked s - mset acked, rs_sem := (if w = Releasing then Release (rs_sem s) else rs_sem s)\<rparr>)"

text \<open>The steps of the relay itself, and those of its surroundings.\<close>

inductive relay_step :: "relay_config \<Rightarrow> relay_state \<Rightarrow> relay_state \<Rightarrow> bool" for R where
  fetch: "rs_consuming s \<noteq> Stopped \<Longrightarrow> rs_handing s = None \<Longrightarrow> rs_ready s \<noteq> [] \<Longrightarrow> relay_step R s (rs_fetch s)"
| idle: "rs_consuming s = StopAsked \<Longrightarrow> rs_handing s = None \<Longrightarrow> relay_step R s (after_round s)"
| hand: "rs_handing s = Some m \<Longrightarrow> length (rs_buffer s) < Buffer R \<Longrightarrow> relay_step R s (rs_hand m s)"
| pass: "rs_handing s = Some m \<Longrightarrow> rs_buffer s = [] \<Longrightarrow> rs_taken s = None \<Longrightarrow> relay_step R s (rs_pass m s)"
| take: "rs_buffer s \<noteq> [] \<Longrightarrow> rs_taken s = None \<Longrightarrow> relay_step R s (rs_take s)"
| start: "rs_taken s = Some m \<Longrightarrow> Acquire (Slots R) (rs_sem s) = Some sem \<Longrightarrow> relay_step R s (rs_start m sem s)"
| work: "rs_workers s = us @ w # vs \<Longrightarrow> relay_step R s (rs_work R us w vs s)"

inductive relay_reachable :: "relay_config \<Rightarrow> relay_state \<Rightarrow> bool" for R where
  init: "relay_reachable R (new_relay msgs)"
| send: "relay_reachable R s \<Longrightarrow> relay_reachable R (rs_send m s)"
| stop: "relay_reachable R s \<Longrightarrow> rs_consuming s = Polling \<Longrightarrow> relay_reachable R (s\<lparr>rs_consuming := StopAsked\<rparr>)"
| step: "relay_reachable R s \<Longrightarrow> relay_step R s t \<Longrightarrow> relay_reachable R t"

lemma Acquire_Some [simp]: "Acquire slots sem = Some n \<longleftrightarrow> sem < slots \<and> n = sem + 1"
  by (auto simp: Acquire_def)

lemmas rs_defs = Release_def rs_send_def rs_fetch_def after_round_def rs_hand_def rs_pass_def rs_take_def rs_start_def rs_work_def

section \<open>The invariant\<close>

text \<open>What a goroutine still has to acknowledge, and what it has published to publisher \<open>k\<close> without
  having acknowledged it.\<close>

fun holds :: "worker \<Rightarrow> string list" where
  "holds (Filtering m) = [m]"
| "holds (Publishing m k) = [m]"
| "holds (Acking m) = [m]"
| "holds Releasing = []"

fun served :: "relay_config \<Rightarrow> nat \<Rightarrow> worker \<Rightarrow> string list" where
  "served R k (Filtering m) = []"
| "served R k (Publishing m j) = (if k < j then [m] else [])"
| "served R k (Acking m) = (if Passes R m then [m] else [])"
| "served R k Releasing = []"

fun worker_ok :: "relay_config \<Rightarrow> worker \<Rightarrow> bool" where
  "worker_ok R (Publishing m k) \<longleftrightarrow> Passes R m \<and> k \<le> Publishers R"
| "worker_ok R w \<longleftrightarrow> True"

definition sent_to :: "nat \<Rightarrow> (nat \<times> string) list \<Rightarrow> string list" where
  "sent_to k out = map snd (filter (\<lambda>(j, m). j = k) out)"

definition of_option :: "'a option \<Rightarrow> 'a list" where
  "of_option x = (case x of None \<Rightarrow> [] | Some a \<Rightarrow> [a])"

text \<open>The messages that were fetched and are not acknowledged, the oldest first as far as they wait.\<close>

definition in_hand :: "relay_state \<Rightarrow> string list" where
  "in_hand s = concat (map holds (rs_workers s)) @ of_option (rs_taken s) @ rs_buffer s @ of_option (rs_handing s)"

definition bounds_ok :: "relay_config \<Rightarrow> relay_state \<Rightarrow> bool" where
  "bounds_ok R s \<longleftrightarrow>
     rs_sem s = length (rs_workers s) \<and> rs_sem s \<le> Slots R \<and> length (rs_buffer s) \<le> Buffer R \<and>
     (\<forall>w \<in> set (rs_workers s). worker_ok R w)"

definition relay_inv :: "relay_config \<Rightarrow> relay_state \<Rightarrow> bool" where
  "relay_inv R s \<longleftrightarrow> bounds_ok R s \<and> rs_unacked s = mset (in_hand s) \<and>
     mset (rs_sent s) = mset (rs_acked s) + mset (in_hand s) + mset (rs_ready s) \<and>
     (\<forall>k < Publishers R. mset (sent_to k (rs_out s)) =
        filter_mset (Passes R) (mset (rs_acked s)) + mset (concat (map (served R k) (rs_workers s))))"

text \<open>With a single slot the order is kept as well.\<close>

definition order_inv :: "relay_config \<Rightarrow> relay_state \<Rightarrow> bool" where
  "order_inv R s \<longleftrightarrow> rs_sent s = rs_acked s @ in_hand s @ rs_ready s \<and>
     (\<forall>k < Publishers R. sent_to k (rs_out s) =
        filter (Passes R) (rs_acked s) @ concat (map (served R k) (rs_workers s)))"

lemma of_option_simps [simp]: "of_option None = []" "of_option (Some a) = [a]"
  by (simp_all add: of_option_def)

lemma sent_to_simps [simp]:
  "sent_to k [] = []" "sent_to k (xs @ ys) = sent_to k xs @ sent_to k ys"
  "sent_to k ((j, m) # xs) = (if j = k then m # sent_to k xs else sent_to k xs)"
  by (simp_all add: sent_to_def)

text \<open>What one action of a goroutine does to both sides of the invariant.\<close>

lemma work_holds:
  assumes "work R w = (ws, published, acked)"
  shows "acked @ concat (map holds ws) = holds w"
  using assms by (cases w) (auto split: if_splits)

lemma work_served:
  assumes "work R w = (ws, published, acked)" and "worker_ok R w" and "k < Publishers R"
  shows "filter (Passes R) acked @ concat (map (served R k) ws) = served R k w @ sent_to k published"
  using assms by (cases w) (auto split: if_splits)

lemma work_ok:
  assumes "work R w = (ws, published, acked)" and "worker_ok R w"
  shows "\<forall>x \<in> set ws. worker_ok R x" "length ws = (if w = Releasing then 0 else 1)"
  using assms by (cases w; auto split: if_splits)+

lemma rs_work_fields:
  assumes "work R w = (ws, published, acked)"
  shows "rs_workers (rs_work R us w vs s) = us @ ws @ vs" "rs_out (rs_work R us w vs s) = rs_out s @ published"
    "rs_acked (rs_work R us w vs s) = rs_acked s @ acked" "rs_unacked (rs_work R us w vs s) = rs_unacked s - mset acked"
    "rs_sem (rs_work R us w vs s) = (if w = Releasing then Release (rs_sem s) else rs_sem s)"
    "rs_ready (rs_work R us w vs s) = rs_ready s" "rs_sent (rs_work R us w vs s) = rs_sent s"
    "rs_taken (rs_work R us w vs s) = rs_taken s" "rs_handing (rs_work R us w vs s) = rs_handing s"
    "rs_buffer (rs_work R us w vs s) = rs_buffer s" "rs_consuming (rs_work R us w vs s) = rs_consuming s"
  using assms by (simp_all add: rs_work_def)

text \<open>Every other step moves messages along, in order.\<close>

definition moves :: "relay_config \<Rightarrow> relay_state \<Rightarrow> relay_state \<Rightarrow> bool" where
  "moves R s t \<longleftrightarrow> in_hand t @ rs_ready t = in_hand s @ rs_ready s \<and> rs_acked t = rs_acked s \<and>
     rs_out t = rs_out s \<and> rs_sent t = rs_sent s \<and>
     (\<forall>k. concat (map (served R k) (rs_workers t)) = concat (map (served R k) (rs_workers s)))"

lemma step_moves:
  assumes "relay_step R s t"
  obtains (moves) "moves R s t" "bounds_ok R s \<Longrightarrow> bounds_ok R t"
      "rs_unacked s = mset (in_hand s) \<Longrightarrow> rs_unacked t = mset (in_hand t)"
    | (work) us w vs where "rs_workers s = us @ w # vs" "t = rs_work R us w vs s"
  using assms
proof cases
  case fetch
  show ?thesis
    using fetch by (intro moves) (auto simp: moves_def bounds_ok_def in_hand_def rs_defs split: list.splits)
next
  case idle
  show ?thesis
    using idle by (intro moves) (auto simp: moves_def bounds_ok_def in_hand_def rs_defs)
next
  case (hand m)
  show ?thesis
    using hand by (intro moves) (auto simp: moves_def bounds_ok_def in_hand_def rs_defs)
next
  case (pass m)
  show ?thesis
    using pass by (intro moves) (auto simp: moves_def bounds_ok_def in_hand_def rs_defs)
next
  case take
  show ?thesis
    using take by (intro moves) (auto simp: moves_def bounds_ok_def in_hand_def rs_defs split: list.splits)
next
  case (start m)
  show ?thesis
    using start by (intro moves) (auto simp: moves_def bounds_ok_def in_hand_def rs_defs)
next
  case (work us w vs)
  then show ?thesis using that(2) by blast
qed

lemma bounds_ok_work:
  assumes "bounds_ok R s" and "rs_workers s = us @ w # vs"
  shows "bounds_ok R (rs_work R us w vs s)"
proof -
  obtain ws published acked where w: "work R w = (ws, published, acked)" by (cases "work R w") auto
  have "worker_ok R w" using assms by (simp add: bounds_ok_def)
  note ok = work_ok [OF w this]
  show ?thesis using assms ok by (auto simp: bounds_ok_def rs_work_fields [OF w] Release_def)
qed

lemma in_hand_work:
  assumes "work R w = (ws, published, acked)" and "rs_workers s = us @ w # vs"
  shows "mset (in_hand s) = mset acked + mset (in_hand (rs_work R us w vs s))"
  using assms(2) arg_cong [OF work_holds [OF assms(1)], of mset]
  by (simp add: in_hand_def rs_work_fields [OF assms(1)])

lemma relay_inv_work:
  assumes inv: "relay_inv R s" and s: "rs_workers s = us @ w # vs"
  shows "relay_inv R (rs_work R us w vs s)"
proof -
  obtain ws published acked where w: "work R w = (ws, published, acked)" by (cases "work R w") auto
  let ?t = "rs_work R us w vs s"
  have ok: "worker_ok R w" and bounds: "bounds_ok R s" using inv s by (simp_all add: relay_inv_def bounds_ok_def)
  note hand = in_hand_work [OF w s]
  have "mset (sent_to k (rs_out ?t)) =
      filter_mset (Passes R) (mset (rs_acked ?t)) + mset (concat (map (served R k) (rs_workers ?t)))"
    if k: "k < Publishers R" for k
  proof -
    have "mset (sent_to k (rs_out s)) = filter_mset (Passes R) (mset (rs_acked s)) +
        mset (concat (map (served R k) (us @ w # vs)))"
      using inv k s by (simp add: relay_inv_def)
    moreover have "filter_mset (Passes R) (mset acked) + mset (concat (map (served R k) ws)) =
        mset (served R k w) + mset (sent_to k published)"
      using arg_cong [OF work_served [OF w ok k], of mset] by simp
    ultimately show ?thesis by (simp add: rs_work_fields [OF w] ac_simps)
  qed
  then show ?thesis
    using inv hand bounds_ok_work [OF bounds s] by (simp add: relay_inv_def rs_work_fields [OF w])
qed

lemma relay_inv_step: "relay_inv R s \<Longrightarrow> relay_step R s t \<Longrightarrow> relay_inv R t"
proof (erule step_moves)
  assume inv: "relay_inv R s" and m: "moves R s t" "bounds_ok R s \<Longrightarrow> bounds_ok R t"
    "rs_unacked s = mset (in_hand s) \<Longrightarrow> rs_unacked t = mset (in_hand t)"
  have "mset (in_hand t) + mset (rs_ready t) = mset (in_hand s) + mset (rs_ready s)"
    using m(1) by (metis moves_def mset_append)
  then show "relay_inv R t" using inv m by (simp add: relay_inv_def moves_def add.assoc)
qed (simp add: relay_inv_work)

lemma relay_inv_reachable: "relay_reachable R s \<Longrightarrow> relay_inv R s"
proof (induction rule: relay_reachable.induct)
  case (init msgs)
  then show ?case by (simp add: relay_inv_def bounds_ok_def in_hand_def new_relay_def)
next
  case (send s m)
  then show ?case by (simp add: relay_inv_def bounds_ok_def in_hand_def rs_send_def)
next
  case (stop s)
  then show ?case by (simp add: relay_inv_def bounds_ok_def in_hand_def)
next
  case (step s t)
  then show ?case by (simp add: relay_inv_step)
qed

lemma order_inv_step:
  assumes "Slots R = 1" and inv: "relay_inv R s" "order_inv R s" and "relay_step R s t"
  shows "order_inv R t"
  using assms(4)
proof (cases rule: step_moves)
  case moves
  then show ?thesis using inv(2) by (simp add: order_inv_def moves_def)
next
  case (work us w vs)
  obtain ws published acked where w: "work R w = (ws, published, acked)" by (cases "work R w") auto
  have "length (rs_workers s) \<le> 1" using assms(1) inv(1) by (simp add: relay_inv_def bounds_ok_def)
  then have s: "rs_workers s = [w]" "us = []" "vs = []" using work(1) by simp_all
  have ok: "worker_ok R w" using inv(1) s by (simp add: relay_inv_def bounds_ok_def)
  show ?thesis
    using inv(2) work_holds [OF w] work_served [OF w ok]
    by (simp add: order_inv_def in_hand_def work(2) rs_work_fields [OF w] s)
qed

lemma order_inv_reachable:
  assumes "relay_reachable R s" and "Slots R = 1"
  shows "order_inv R s"
  using assms
proof (induction rule: relay_reachable.induct)
  case (init msgs)
  then show ?case by (simp add: order_inv_def in_hand_def new_relay_def)
next
  case (send s m)
  then show ?case by (simp add: order_inv_def in_hand_def rs_send_def)
next
  case (stop s)
  then show ?case by (simp add: order_inv_def in_hand_def)
next
  case (step s t)
  then show ?case using order_inv_step relay_inv_reachable by blast
qed

section \<open>Runs\<close>

text \<open>A scheduler: the goroutine that moves next, \<open>Work i\<close> being the \<open>i\<close>-th of the relay's.\<close>

datatype move = Fetch | Idle | Hand | Pass | Take | Start | Work nat

definition do_move :: "relay_config \<Rightarrow> move \<Rightarrow> relay_state \<Rightarrow> relay_state option" where
  "do_move R a s =
     (case a of
        Fetch \<Rightarrow> if rs_consuming s \<noteq> Stopped \<and> rs_handing s = None \<and> rs_ready s \<noteq> [] then Some (rs_fetch s) else None
      | Idle \<Rightarrow> if rs_consuming s = StopAsked \<and> rs_handing s = None then Some (after_round s) else None
      | Hand \<Rightarrow> (case rs_handing s of
            Some m \<Rightarrow> if length (rs_buffer s) < Buffer R then Some (rs_hand m s) else None | None \<Rightarrow> None)
      | Pass \<Rightarrow> (case rs_handing s of
            Some m \<Rightarrow> if rs_buffer s = [] \<and> rs_taken s = None then Some (rs_pass m s) else None | None \<Rightarrow> None)
      | Take \<Rightarrow> if rs_buffer s \<noteq> [] \<and> rs_taken s = None then Some (rs_take s) else None
      | Start \<Rightarrow> (case rs_taken s of
            Some m \<Rightarrow> map_option (\<lambda>sem. rs_start m sem s) (Acquire (Slots R) (rs_sem s)) | None \<Rightarrow> None)
      | Work i \<Rightarrow> if i < length (rs_workers s)
            then Some (rs_work R (take i (rs_workers s)) (rs_workers s ! i) (drop (Suc i) (rs_workers s)) s)
            else None)"

fun run_moves :: "relay_config \<Rightarrow> move list \<Rightarrow> relay_state \<Rightarrow> relay_state option" where
  "run_moves R [] s = Some s"
| "run_moves R (a # as) s = (case do_move R a s of None \<Rightarrow> None | Some t \<Rightarrow> run_moves R as t)"

lemma do_move_step: "do_move R a s = Some t \<Longrightarrow> relay_step R s t"
  by (cases a) (auto simp: do_move_def id_take_nth_drop [symmetric] intro!: relay_step.intros
      split: if_splits option.splits)

lemma run_moves_reachable: "run_moves R as s = Some t \<Longrightarrow> relay_reachable R s \<Longrightarrow> relay_reachable R t"
  by (induction as arbitrary: s) (auto dest: do_move_step intro: relay_reachable.step split: option.splits)

lemma run_moves_steps: "run_moves R as s = Some t \<Longrightarrow> (relay_step R ^^ length as) s t"
proof (induction as arbitrary: s)
  case (Cons a as)
  then obtain u where "do_move R a s = Some u" "run_moves R as u = Some t" by (auto split: option.splits)
  then have "relay_step R s u" "(relay_step R ^^ length as) u t" by (simp_all add: do_move_step Cons.IH)
  then show ?case unfolding list.size(4) One_nat_def add_Suc_right add_0_right by (rule relpowp_Suc_I2)
qed simp

text \<open>Every step brings the messages closer to their end.\<close>

fun worker_left :: "nat \<Rightarrow> worker \<Rightarrow> nat" where
  "worker_left n (Filtering m) = n + 4"
| "worker_left n (Publishing m k) = n - k + 3"
| "worker_left n (Acking m) = 2"
| "worker_left n Releasing = 1"

definition work_left :: "relay_config \<Rightarrow> relay_state \<Rightarrow> nat" where
  "work_left R s =
     (let n = Publishers R in
      sum_list (map (worker_left n) (rs_workers s)) + (n + 5) * length (of_option (rs_taken s)) +
      (n + 6) * length (rs_buffer s) + (n + 7) * length (of_option (rs_handing s)) + (n + 8) * length (rs_ready s) +
      (if rs_consuming s = StopAsked then 1 else 0))"

lemma worker_left_work:
  "work R w = (ws, published, acked) \<Longrightarrow> sum_list (map (worker_left (Publishers R)) ws) < worker_left (Publishers R) w"
  by (cases w) (auto split: if_splits)

lemma step_work_left: "relay_step R s t \<Longrightarrow> work_left R t < work_left R s"
proof (erule relay_step.cases, goal_cases)
  case (7 s' us w vs)
  obtain ws published acked where w: "work R w = (ws, published, acked)" by (cases "work R w") auto
  show ?case using 7 worker_left_work [OF w] by (simp add: work_left_def rs_work_fields [OF w] Let_def)
qed (auto simp: work_left_def rs_defs Let_def split: list.splits)

lemma steps_work_left: "(relay_step R ^^ n) s t \<Longrightarrow> n + work_left R t \<le> work_left R s"
proof (induction n arbitrary: t)
  case (Suc n)
  then obtain u where "(relay_step R ^^ n) s u" "relay_step R u t" by (auto elim: relpowp_Suc_E)
  with Suc.IH [of u] step_work_left [of R u t] show ?case by simp
qed simp

lemma steps_reachable: "(relay_step R)\<^sup>*\<^sup>* s t \<Longrightarrow> relay_reachable R s \<Longrightarrow> relay_reachable R t"
  by (induction rule: rtranclp_induct) (auto intro: relay_reachable.step)

text \<open>A relay that cannot move has nothing in hand.\<close>

lemma stuck_relay:
  assumes inv: "relay_inv R s" and slots: "0 < Slots R" and stuck: "\<nexists>t. relay_step R s t"
  shows "rs_workers s = []" "in_hand s = []" "rs_consuming s \<noteq> Stopped \<Longrightarrow> rs_ready s = []"
proof -
  show w: "rs_workers s = []"
    using stuck relay_step.work [of s "[]" _ _ R] by (cases "rs_workers s") auto
  then have "rs_sem s = 0" using inv by (simp add: relay_inv_def bounds_ok_def)
  then have t: "rs_taken s = None" using stuck slots relay_step.start [of s _ R 1] by (cases "rs_taken s") auto
  then have b: "rs_buffer s = []" using stuck relay_step.take [of s R] by auto
  then have h: "rs_handing s = None" using stuck t relay_step.pass [of s _ R] by (cases "rs_handing s") auto
  show "in_hand s = []" using w t b h by (simp add: in_hand_def)
  show "rs_consuming s \<noteq> Stopped \<Longrightarrow> rs_ready s = []" using stuck h relay_step.fetch [of s R] by auto
qed

section \<open>What a relay does\<close>

lemma served_holds:
  "\<forall>w \<in> set ws. worker_ok R w \<Longrightarrow>
   mset (concat (map (served R k) ws)) \<subseteq># filter_mset (Passes R) (mset (concat (map holds ws)))"
proof (induction ws)
  case (Cons w ws)
  then have "mset (served R k w) \<subseteq># filter_mset (Passes R) (mset (holds w))" by (cases w) auto
  with Cons show ?case by (simp add: subset_mset.add_mono)
qed simp

text \<open>C14: whatever the interleaving, a relay publishes each message once. At most as many messages as
  the semaphore has slots are being relayed; no message is lost: each is in the queue, unacknowledged or
  acknowledged; every publisher got each acknowledged message that passes the filter, and nothing but
  messages that pass it and were fetched, none more often than it was sent.\<close>

theorem relay_publishes_once:
  assumes "relay_reachable R s"
  shows "length (rs_workers s) \<le> Slots R \<and>
    mset (rs_sent s) = mset (rs_ready s) + rs_unacked s + mset (rs_acked s) \<and>
    (\<forall>k < Publishers R.
       filter_mset (Passes R) (mset (rs_acked s)) \<subseteq># mset (sent_to k (rs_out s)) \<and>
       mset (sent_to k (rs_out s)) \<subseteq># filter_mset (Passes R) (mset (rs_acked s) + rs_unacked s))"
proof -
  note inv = relay_inv_reachable [OF assms]
  have "mset (concat (map (served R k) (rs_workers s))) \<subseteq># filter_mset (Passes R) (rs_unacked s)" for k
  proof -
    have "mset (concat (map (served R k) (rs_workers s))) \<subseteq>#
        filter_mset (Passes R) (mset (concat (map holds (rs_workers s))))"
      using inv by (intro served_holds) (simp add: relay_inv_def bounds_ok_def)
    also have "\<dots> \<subseteq># filter_mset (Passes R) (rs_unacked s)"
      using inv by (simp add: relay_inv_def in_hand_def)
    finally show ?thesis .
  qed
  then show ?thesis using inv by (simp add: relay_inv_def bounds_ok_def ac_simps)
qed

definition sample_relay :: "nat \<Rightarrow> relay_config" where
  "sample_relay slots = \<lparr>Publishers = 2, Buffer = 1, Slots = slots, Passes = (\<lambda>m. m \<noteq> ''c'')\<rparr>"

text \<open>Of two messages the second one overtakes the first, which has reached one publisher.\<close>

definition sample_moves :: "move list" where
  "sample_moves =
     [Fetch, Pass, Start, Fetch, Hand, Take, Start, Work 0, Work 0, Work 1, Work 1, Work 1, Work 1, Work 1, Work 1, Fetch]"

definition sample_run :: relay_state where
  "sample_run =
     \<lparr>rs_ready = [], rs_unacked = {#''a'', ''c''#}, rs_handing = Some ''c'', rs_buffer = [], rs_taken = None,
      rs_sem = 1, rs_workers = [Publishing ''a'' 1], rs_out = [(0, ''a''), (0, ''b''), (1, ''b'')],
      rs_acked = [''b''], rs_sent = [''a'', ''b'', ''c''], rs_consuming = Polling\<rparr>"

lemma sample_run_moves: "run_moves (sample_relay 2) sample_moves (new_relay [''a'', ''b'', ''c'']) = Some sample_run"
  by (simp add: sample_moves_def sample_relay_def new_relay_def sample_run_def do_move_def rs_defs Acquire_def)

lemma sample_run_reachable: "relay_reachable (sample_relay 2) sample_run"
  by (rule run_moves_reachable [OF sample_run_moves relay_reachable.init])

theorem relay_publishes_once_witness:
  "length (rs_workers sample_run) \<le> 2 \<and>
   mset (rs_sent sample_run) = mset (rs_ready sample_run) + rs_unacked sample_run + {#''b''#} \<and>
   {#''b''#} \<subseteq># mset (sent_to 0 [(0, ''a''), (0, ''b''), (1, ''b'')]) \<and>
   mset (sent_to 0 [(0, ''a''), (0, ''b''), (1, ''b'')]) \<subseteq># {#''b'', ''a''#}"
  using relay_publishes_once [OF sample_run_reachable] by (simp add: sample_relay_def sample_run_def)

text \<open>C15: a relay comes to an end. From any state it can take only so many steps until more is sent; and
  when it can take none, it has acknowledged all it fetched, has fetched the whole queue unless it was
  stopped, and has published to every publisher exactly the acknowledged messages that pass the filter.\<close>

theorem relay_drains:
  assumes "relay_reachable R s" and "0 < Slots R"
  shows "(\<forall>n t. (relay_step R ^^ n) s t \<longrightarrow> n \<le> work_left R s) \<and>
    (\<forall>t. (relay_step R)\<^sup>*\<^sup>* s t \<and> (\<nexists>u. relay_step R t u) \<longrightarrow>
       rs_unacked t = {#} \<and> mset (rs_sent t) = mset (rs_acked t) + mset (rs_ready t) \<and>
       (rs_consuming t \<noteq> Stopped \<longrightarrow> rs_ready t = []) \<and>
       (\<forall>k < Publishers R. mset (sent_to k (rs_out t)) = filter_mset (Passes R) (mset (rs_acked t))))"
proof (intro conjI allI impI; (elim conjE)?)
  fix n t assume "(relay_step R ^^ n) s t"
  then show "n \<le> work_left R s" using steps_work_left [of n R s t] by simp
next
  fix t assume steps: "(relay_step R)\<^sup>*\<^sup>* s t" and stuck: "\<nexists>u. relay_step R t u"
  have inv: "relay_inv R t" by (rule relay_inv_reachable [OF steps_reachable [OF steps assms(1)]])
  note still = stuck_relay [OF inv assms(2) stuck]
  show "rs_unacked t = {#}" "mset (rs_sent t) = mset (rs_acked t) + mset (rs_ready t)"
    using inv still(2) by (simp_all add: relay_inv_def)
  show "rs_ready t = []" if "rs_consuming t \<noteq> Stopped" using still(3) that by simp
  show "mset (sent_to k (rs_out t)) = filter_mset (Passes R) (mset (rs_acked t))" if "k < Publishers R" for k
    using inv still(1) that by (simp add: relay_inv_def)
qed

definition sample_end :: relay_state where
  "sample_end = (new_relay [])\<lparr>rs_out := [(0, ''a''), (1, ''a'')], rs_acked := [''a''], rs_sent := [''a'']\<rparr>"

lemma sample_end_moves:
  "run_moves (sample_relay 1) [Fetch, Pass, Start, Work 0, Work 0, Work 0, Work 0, Work 0, Work 0] (new_relay [''a'']) =
     Some sample_end"
  by (simp add: sample_relay_def sample_end_def new_relay_def do_move_def rs_defs Acquire_def)

lemma sample_end_stuck: "\<nexists>u. relay_step (sample_relay 1) sample_end u"
  by (auto elim!: relay_step.cases simp: sample_end_def new_relay_def)

theorem relay_drains_witness:
  "9 \<le> work_left (sample_relay 1) (new_relay [''a'']) \<and> rs_unacked sample_end = {#} \<and>
   mset (sent_to 1 (rs_out sample_end)) = {#''a''#}"
proof -
  let ?R = "sample_relay 1" and ?s = "new_relay [''a'']"
  have run: "(relay_step ?R ^^ 9) ?s sample_end" using run_moves_steps [OF sample_end_moves] by (simp add: numeral_eq_Suc)
  note drains = relay_drains [OF relay_reachable.init [of ?R "[''a'']"]]
  have slots: "0 < Slots ?R" "1 < Publishers ?R" by (simp_all add: sample_relay_def)
  have "9 \<le> work_left ?R ?s" using drains [OF slots(1)] run by blast
  moreover have "rs_unacked sample_end = {#} \<and> (\<forall>k < Publishers ?R. mset (sent_to k (rs_out sample_end)) =
      filter_mset (Passes ?R) (mset (rs_acked sample_end)))"
    using drains [OF slots(1)] relpowp_imp_rtranclp [OF run] sample_end_stuck by blast
  moreover have "filter_mset (Passes ?R) (mset (rs_acked sample_end)) = {#''a''#}"
    by (simp add: sample_relay_def sample_end_def)
  ultimately show ?thesis using slots(2) by simp
qed

text \<open>C16: with a concurrency of one, which the delay relay has, messages keep their order: what is
  acknowledged and what each publisher got are the first of the messages sent, as far as they pass.\<close>

theorem relay_keeps_order:
  assumes "relay_reachable R s" and slots: "Slots R = 1" and k: "k < Publishers R"
  shows "prefix (rs_acked s) (rs_sent s) \<and> prefix (sent_to k (rs_out s)) (filter (Passes R) (rs_sent s))"
proof -
  note inv = relay_inv_reachable [OF assms(1)] order_inv_reachable [OF assms(1) slots]
  have ok: "\<forall>w \<in> set (rs_workers s). worker_ok R w" and "length (rs_workers s) \<le> 1"
    using inv(1) slots by (simp_all add: relay_inv_def bounds_ok_def)
  then consider "rs_workers s = []" | w where "rs_workers s = [w]" by (cases "rs_workers s") auto
  then have "prefix (concat (map (served R k) (rs_workers s))) (filter (Passes R) (concat (map holds (rs_workers s))))"
  proof cases
    case 2
    with ok show ?thesis by (cases w) auto
  qed simp
  then show ?thesis using inv(2) k by (auto simp: order_inv_def in_hand_def prefix_def)
qed

lemma sample_alone:
  "run_moves (sample_relay 1) [Fetch, Pass, Start, Fetch, Hand, Take, Work 0, Work 0]
     (new_relay [''a'', ''b'']) = Some
     \<lparr>rs_ready = [], rs_unacked = {#''a'', ''b''#}, rs_handing = None, rs_buffer = [], rs_taken = Some ''b'',
      rs_sem = 1, rs_workers = [Publishing ''a'' 1], rs_out = [(0, ''a'')], rs_acked = [], rs_sent = [''a'', ''b''],
      rs_consuming = Polling\<rparr>"
  by (simp add: sample_relay_def new_relay_def do_move_def rs_defs Acquire_def)

theorem relay_keeps_order_witness:
  "prefix (sent_to 0 [(0, ''a'')]) (filter (Passes (sample_relay 1)) [''a'', ''b''])"
  using relay_keeps_order [OF run_moves_reachable [OF sample_alone relay_reachable.init], of 0]
  by (simp add: sample_relay_def)

text \<open>With a concurrency of zero, which \<open>CONCURRENCY\<close> can name, the first delivery waits for ever; a negative
  one ends the program.\<close>

lemma NewRelay_negative: "concurrency < 0 \<Longrightarrow> \<exists>p. NewRelay publishers flt concurrency env = Panic p"
  by (simp add: NewRelay_def go_make_def)

lemma relay_without_slots:
  assumes "relay_reachable R s" and "Slots R = 0"
  shows "rs_out s = [] \<and> rs_acked s = []"
  using assms
proof (induction rule: relay_reachable.induct)
  case (step s t)
  have "rs_workers s = []"
    using relay_inv_reachable [OF step.hyps(1)] step.prems by (auto simp: relay_inv_def bounds_ok_def)
  with step.hyps(2) step.IH [OF step.prems] show ?case
    by (cases rule: step_moves) (auto simp: moves_def)
qed (simp_all add: new_relay_def rs_send_def)

end
