(* ===== verification/Commands.thy ===== *)
theory Commands
  imports Listings IndexConsumers Blocks Relays Workers "HOL-Library.Signed_Division"
begin

text \<open>
  What the programs under \<open>cmd/\<close> decide themselves before and around the components they start: the
  fund check relay (\<open>cmd/fundcheckrelay\<close>), the check of one order (\<open>cmd/validateorder\<close>), the arguments
  of the monitors and relays, the first settings (\<open>cmd/initialize\<close>, \<open>cmd/setdiscount\<close>), the queue
  monitor, the connection strings of the database (\<open>db/getDB.go\<close>), the stores of \<open>objectstorage\<close> and the
  routes of the servers. A process that ends with \<open>log.Fatalf\<close> is an error value here.
\<close>

section \<open>The fund check relay\<close>

definition FundFilter_Filter :: "crypto \<Rightarrow> 'w validator \<Rightarrow> 'w delivery \<Rightarrow> 'w \<Rightarrow> bool go" where
  "FundFilter_Filter C orderValidator delivery w =
     (case OrderFromBytes (bytes_of_string (Payload delivery)) of
        (ord, Some e) \<Rightarrow> Ret False
      | (ord, None) \<Rightarrow>
          go_bind (Order_Hash C ord) (\<lambda>h. go_bind (Signature_Verify C (Signature ord) (Maker ord) h) (\<lambda>ok.
            if \<not> ok then Ret False
            else go_map fst (ValidateOrder orderValidator ord w))))"

text \<open>The relay with that filter, inverted when the program was told so.\<close>

definition fund_relay ::
  "crypto \<Rightarrow> 'w validator \<Rightarrow> bool \<Rightarrow> 'w publisher list \<Rightarrow> 'w delivery \<Rightarrow> 'w \<Rightarrow> 'w go"
where
  "fund_relay C orderValidator invert publishers delivery w =
     go_map (\<lambda>valid.
         let fundFilter = (\<lambda>d w. (valid, w)) in
         Relay_Consume publishers (if invert then InvertFilter_Filter fundFilter else fundFilter) delivery w)
       (FundFilter_Filter C orderValidator delivery w)"

text \<open>Its arguments: a flag, the channel of invalidations (the last one given), and channel strings.\<close>

fun fund_arguments ::
  "string list \<Rightarrow> bool \<times> string list \<times> channel_kind option \<Rightarrow> err + bool \<times> string list \<times> channel_kind option"
where
  "fund_arguments [] s = Inr s"
| "fund_arguments (arg # args) (invert, channelStrings, invalidationChannel) =
     (if arg = ''--invert'' then fund_arguments args (True, channelStrings, invalidationChannel)
      else if has_prefix arg ''--invalidation=''
      then try_bind (ConsumerFromURI (trim_prefix arg ''--invalidation=''))
             (\<lambda>c. fund_arguments args (invert, channelStrings, Some c))
      else fund_arguments args (invert, channelStrings @ [arg], invalidationChannel))"

text \<open>\<open>CONCURRENCY\<close>: five unless the variable is a number.\<close>

definition concurrency_of :: "string \<Rightarrow> int" where
  "concurrency_of env = (case Atoi env of Inl e \<Rightarrow> 5 | Inr n \<Rightarrow> n)"

text \<open>A relay of these programs, \<open>cmd/simplerelay\<close> with the filter that lets everything through, has five
  slots unless the environment names another number; zero is one, with which nothing is ever relayed.\<close>

lemma relay_slots:
  assumes "NewRelay publishers flt (concurrency_of env) env = Ret R"
  shows "isl (Atoi env) \<Longrightarrow> Slots R = 5 \<and> Buffer R = 5" and "Atoi env = Inr n \<Longrightarrow> int (Slots R) = n \<and> Buffer R = Slots R"
  using assms by (auto simp: NewRelay_def concurrency_of_def channel_capacity_def prefetchLimit_def go_make_def
      split: sum.splits if_splits)

lemma relay_concurrency_zero:
  assumes "Atoi env = Inr 0" and "NewRelay publishers flt (concurrency_of env) env = Ret R" and "relay_reachable R s"
  shows "rs_out s = []"
  using relay_slots(2) [OF assms(2,1)] relay_without_slots [OF assms(3)] by simp

text \<open>An order has its funds when its maker signed it and balances and allowances cover what remains.\<close>

definition funded :: "crypto \<Rightarrow> order \<Rightarrow> int \<Rightarrow> int \<Rightarrow> int \<Rightarrow> int \<Rightarrow> bool" where
  "funded C ord b1 b2 a1 a2 \<longleftrightarrow>
     (\<exists>h. Order_Hash C ord = Ret h \<and> Signature_Verify C (Signature ord) (Maker ord) h = Ret True) \<and>
     int (remaining_of ord (MakerAssetAmount ord)) \<le> b1 \<and> int (remaining_of ord (MakerFee ord)) \<le> b2 \<and>
     int (remaining_of ord (MakerAssetAmount ord)) \<le> a1 \<and> int (remaining_of ord (MakerFee ord)) \<le> a2"

lemma FundFilter_malformed:
  "order_of_payload (Payload d) = (ord, Some e) \<Longrightarrow> FundFilter_Filter C funds d w = Ret False"
  by (simp add: FundFilter_Filter_def order_of_payload_def)

lemma FundFilter_order:
  assumes C: "crypto_ok C" and o': "order_of_payload (Payload d) = (ord, None)"
    and f: "maker_funds funds ord w fee makerProxy feeProxy b1 b2 a1 a2"
    and nn: "0 \<le> b1" "0 \<le> b2" "0 \<le> a1" "0 \<le> a2"
  shows "FundFilter_Filter C funds d w = Ret (funded C ord b1 b2 a1 a2)"
proof -
  have wf: "wf_order ord" by (rule order_of_payload_wf [OF o'])
  obtain h b where h: "Order_Hash C ord = Ret h" and b: "Signature_Verify C (Signature ord) (Maker ord) h = Ret b"
    using Order_Hash_wf [OF wf] Signature_Verify_returns [OF C, of "Maker ord"] wf
    by (fastforce simp: wf_order_def wf_address_def)
  show ?thesis
    using o' h b ValidateOrder_funds [OF wf f nn]
    by (simp add: FundFilter_Filter_def order_of_payload_def funded_def)
qed


definition trace_validator :: "int \<Rightarrow> trace validator" where
  "trace_validator b =
     \<lparr>balanceChecker = \<lparr>GetBalance = (\<lambda>a u w. Ret (Inr b)), GetAllowance = (\<lambda>a u q w. Ret (Inr b))\<rparr>,
      feeToken = (\<lambda>ord w. Ret (Inr (MakerAssetData ord))),
      tokenProxy = (\<lambda>ord w. Ret (Inr zero_address)),
      tokenProxyById = (\<lambda>ord q w. Ret (Inr zero_address))\<rparr>"

lemma sample_funded: "funded sample_crypto sample_signed_order b b b b \<longleftrightarrow> 75 \<le> b"
proof -
  have "MakerFee sample_signed_order = zero_uint256"
    by (simp add: sample_signed_order_def sample_taker_order_def sample_order_def Initialize_def)
  then have "remaining_of sample_signed_order (MakerFee sample_signed_order) = 0"
    "remaining_of sample_signed_order (MakerAssetAmount sample_signed_order) = 75"
    by (simp_all add: remaining_of_def getRemainingAmount_def sample_amounts zero_uint256_def)
  then show ?thesis
    using Order_Hash_wf [OF wf_sample_signed_order, of sample_crypto] sample_signature_valid
    by (auto simp: funded_def)
qed


section \<open>Validating one order\<close>

text \<open>\<open>cmd/validateorder\<close>. \<open>orderFile\<close> is what reading the file gives; its error is dropped and leaves the
  order empty. An error value stands for \<open>log.Fatalf\<close>.\<close>

definition read_order :: "json_parse \<Rightarrow> err + string \<Rightarrow> (order \<times> err option) go" where
  "read_order parse orderFile =
     (case orderFile of
        Inl e \<Rightarrow> Ret (nil_order, None)
      | Inr orderData \<Rightarrow>
          (case parse orderData of
             Inl e \<Rightarrow> Ret (nil_order, Some e)
           | Inr j \<Rightarrow> Order_UnmarshalJSON j nil_order))"

definition validateorder ::
  "crypto \<Rightarrow> json_parse \<Rightarrow> 'w exchange_rpc \<Rightarrow> 'w validator \<Rightarrow> err + string \<Rightarrow> 'w \<Rightarrow> (err + bool_or_err) go"
where
  "validateorder C parse rpc fundChecker orderFile w =
     go_bind (read_order parse orderFile) (\<lambda>(newOrder, e). case e of
         Some e \<Rightarrow> Ret (Inl e)
       | None \<Rightarrow>
     go_bind (rpc_GetAmountFilled C rpc None newOrder w) (\<lambda>(filled, e). case e of
         Some e \<Rightarrow> Ret (Inl e)
       | None \<Rightarrow>
     go_bind (rpc_GetCancelled C rpc None (newOrder\<lparr>TakerAssetAmountFilled := filled\<rparr>) w) (\<lambda>(cancelled, e). case e of
         Some e \<Rightarrow> Ret (Inl e)
       | None \<Rightarrow>
     go_map Inr (ValidateOrder fundChecker (newOrder\<lparr>TakerAssetAmountFilled := filled, Cancelled := cancelled\<rparr>) w))))"

text \<open>A file that cannot be read is not reported: the empty order has no exchange to ask.\<close>

lemma validateorder_unreadable: "validateorder C parse rpc fundChecker (Inl e) w = Panic NilDereference"
  by (simp add: validateorder_def read_order_def rpc_GetAmountFilled_def nil_order_def deref_def)

text \<open>The answer for an order of the file: its funds cover what remains after what the exchange has filled.\<close>

lemma validateorder_answers:
  assumes order: "parse orderData = Inr j" "Order_UnmarshalJSON j nil_order = Ret (ord, None)"
    and hash: "Order_Hash C ord = Ret h" "length h = 32"
    and exchange: "NewExchange rpc (ExchangeAddress ord) w = None"
      "ExchangeFilled rpc (ExchangeAddress ord) h w = Inr n" "0 \<le> n" "n < 2 ^ 256"
      "ExchangeCancelled rpc (ExchangeAddress ord) h w = Inr c"
    and funds: "\<And>filled. maker_funds fundChecker (ord\<lparr>TakerAssetAmountFilled := filled, Cancelled := c\<rparr>) w
      fee makerProxy feeProxy b1 b2 a1 a2"
    and nn: "0 \<le> b1" "0 \<le> b2" "0 \<le> a1" "0 \<le> a2"
  shows "\<exists>filled. be_nat filled = nat n \<and>
    (let ord' = ord\<lparr>TakerAssetAmountFilled := filled, Cancelled := c\<rparr> in
     validateorder C parse rpc fundChecker (Inr orderData) w = Ret (Inr (
       int (remaining_of ord' (MakerAssetAmount ord)) \<le> b1 \<and> int (remaining_of ord' (MakerFee ord)) \<le> b2 \<and>
       int (remaining_of ord' (MakerAssetAmount ord)) \<le> a1 \<and> int (remaining_of ord' (MakerFee ord)) \<le> a2, None)))"
proof -
  have wf: "wf_order ord" by (rule Order_UnmarshalJSON_wf [OF order(2)])
  obtain filled where filled: "rpc_GetAmountFilled C rpc None ord w = Ret (filled, None)" "length filled = 32"
      "be_nat filled = nat n"
    using rpc_GetAmountFilled_value [OF wf hash exchange(1-4), of None] by auto
  let ?ord' = "ord\<lparr>TakerAssetAmountFilled := filled, Cancelled := c\<rparr>"
  have "wf_order ?ord'" using wf filled(2) by (simp add: wf_order_def wf_uint256_def)
  note valid = ValidateOrder_funds [OF this funds nn]
  have "deref (ExchangeAddress ord) = Ret (ExchangeAddress ord)" using wf by (simp add: wf_order_def wf_address_def)
  then have "rpc_GetCancelled C rpc None (ord\<lparr>TakerAssetAmountFilled := filled\<rparr>) w = Ret (c, None)"
    using hash exchange by (simp add: rpc_GetCancelled_def)
  then show ?thesis
    using filled order valid by (intro exI [of _ filled]) (simp add: validateorder_def read_order_def Let_def)
qed

section \<open>Monitors and delay relays\<close>

text \<open>\<open>cmd/blockmonitor\<close>: the size of the ring buffer, the poll interval in seconds, and the key of the
  last block, which is named after the queue that blocks go to.\<close>

definition Atoi_or :: "int \<Rightarrow> string list \<Rightarrow> nat \<Rightarrow> err + int" where
  "Atoi_or unset args i = (if length args > i then Atoi (args ! i) else Inr unset)"

definition block_recorder_key :: "string \<Rightarrow> string go" where
  "block_recorder_key dst = go_map (\<lambda>name. name @ ''::blocknumber'') (go_index (split_str ''://'' [] dst) 1)"

definition blockmonitor :: "string list \<Rightarrow> (err + int \<times> int \<times> publisher_kind \<times> string) go" where
  "blockmonitor args =
     go_bind (go_index args 3) (\<lambda>dst.
       case Atoi_or 200 args 4 of
         Inl e \<Rightarrow> Ret (Inl e)
       | Inr brbSize \<Rightarrow>
           (case Atoi_or 3 args 5 of
              Inl e \<Rightarrow> Ret (Inl e)
            | Inr pollInterval \<Rightarrow>
                (case PublisherFromURI dst of
                   Inl e \<Rightarrow> Ret (Inl (''Error constructing publisher: '' @ e))
                 | Inr publisher \<Rightarrow> go_map (\<lambda>key. Inr (brbSize, pollInterval, publisher, key)) (block_recorder_key dst))))"

lemma split_str_not_Nil: "split_str sep acc s \<noteq> []"
proof (induction sep acc s rule: split_str.induct)
  case (1 sep acc s)
  then show ?case by (cases "sep = [] \<or> s = []") (simp_all add: split_str.simps [of sep acc s])
qed

lemma prefix_split: "has_prefix s p \<Longrightarrow> \<exists>t. s = p @ t"
  by (metis append_take_drop_id has_prefix_def)

text \<open>A destination that a publisher can be made of has a key.\<close>

lemma block_recorder_key_defined:
  assumes "PublisherFromURI dst = Inr p"
  shows "\<exists>key. block_recorder_key dst = Ret key"
proof -
  have "has_prefix dst ''topic://'' \<or> has_prefix dst ''queue://''"
    using assms by (simp add: PublisherFromURI_def split: if_splits)
  then obtain scheme name where s: "dst = scheme @ ''://'' @ name" "CHR '':'' \<notin> set scheme"
    using that [of "''topic''"] that [of "''queue''"] by (elim disjE) (auto dest!: prefix_split)
  have "split_str ''://'' [] dst = scheme # split_str ''://'' [] name"
    using split_str_part [OF s(2), of "''//''" "[]" name] s(1) by simp
  moreover have "split_str ''://'' [] name \<noteq> []" by (rule split_str_not_Nil)
  ultimately show ?thesis
    by (cases "split_str ''://'' [] name") (auto simp: block_recorder_key_def go_index_def)
qed

text \<open>\<open>cmd/delayrelay\<close>: an argument names the channel of signals and the channel string of a relay. The
  error for the first is overwritten by the second's, so a bad one is a nil channel.\<close>

definition delay_argument ::
  "string \<Rightarrow> err + (err + channel_kind) \<times> channel_kind \<times> publisher_kind list \<times> publisher_kind option"
where
  "delay_argument arg =
     (case split_on CHR '','' arg of
        [upstream, channelString] \<Rightarrow>
          if has_prefix channelString ''topic://'' then Inl ''Delay relay source must be queue, not topic''
          else try_bind (ParseChannels channelString) (\<lambda>c. Inr (ConsumerFromURI upstream, c))
      | _ \<Rightarrow> Inl (''Channel Strings must have two elements separated by ,''))"

text \<open>A signal flushes the relay, which may wait, then goes on to the next relay.\<close>

definition DelayConsumer_Consume :: "('w \<Rightarrow> 'w) \<Rightarrow> 'w publisher option \<Rightarrow> 'w delivery \<Rightarrow> 'w \<Rightarrow> 'w" where
  "DelayConsumer_Consume Flush pub delivery w =
     (let w1 = Flush w;
          w2 = (case pub of None \<Rightarrow> w1 | Some p \<Rightarrow> snd (p (Payload delivery) w1))
      in snd (Ack delivery w2))"

section \<open>The queue monitor\<close>

text \<open>One look at a queue: the threshold steps its length crossed since the last look; every third time a
  long queue is reported as it is. \<open>int64\<close> division truncates and panics at zero.\<close>

datatype queue_report = Increasing | Decreasing | Steady

definition queue_look :: "int \<Rightarrow> nat \<Rightarrow> int \<Rightarrow> int \<Rightarrow> queue_report option go" where
  "queue_look threshold counter v count' =
     (if threshold = 0 then Panic DivisionByZero
      else Ret (if count' sdiv threshold > v sdiv threshold then Some Increasing
        else if count' sdiv threshold < v sdiv threshold then Some Decreasing
        else if counter mod 3 = 0 \<and> count' > threshold then Some Steady
        else None))"

definition monitored_keys :: "string list \<Rightarrow> string list" where
  "monitored_keys queues = [queue @ modifier. queue \<leftarrow> queues, modifier \<leftarrow> [[], ''::unacked'', ''::rejected'']]"

section \<open>Settings\<close>

text \<open>\<open>cmd/initialize\<close>: the base fee, the affiliates, who share all of it, and the block to go on from.
  A number that does not parse leaves the value undefined: the parameter \<open>junk\<close>.\<close>

definition parsed_or :: "int \<Rightarrow> string \<Rightarrow> int" where
  "parsed_or junk s = (case big_SetString s of None \<Rightarrow> junk | Some n \<Rightarrow> n)"

definition add_affiliate :: "'r redis \<Rightarrow> (affiliate \<Rightarrow> string) \<Rightarrow> int \<Rightarrow> string \<Rightarrow> 'r \<Rightarrow> 'r go" where
  "add_affiliate R enc baseFee address w =
     go_bind (go_slice address 2 (length address)) (\<lambda>digits.
       case hex_DecodeString digits of
         Inl e \<Rightarrow> Ret w
       | Inr b \<Rightarrow>
           go_map snd (AffiliateService_Set R enc (go_copy zero_address b) \<lparr>aff_BaseFee = Some baseFee, FeePercent = 100\<rparr> w))"

definition initialize :: "'r redis \<Rightarrow> (affiliate \<Rightarrow> string) \<Rightarrow> int \<Rightarrow> string \<Rightarrow> string \<Rightarrow> string list \<Rightarrow> 'r \<Rightarrow> 'r go" where
  "initialize R enc junk lastBlock baseFee authorized w =
     (let fee = parsed_or junk baseFee;
          block = parsed_or junk lastBlock in
      go_map (\<lambda>w. if \<bar>block\<bar> mod 2 ^ 64 > 0 then snd (redis_Record R ''newblocks::blocknumber'' block w) else w)
        (go_fold (add_affiliate R enc fee) authorized (snd (BaseFee_Set R fee w))))"

text \<open>\<open>cmd/setdiscount\<close>: an account without fees until a time.\<close>

definition setdiscount :: "'r redis \<Rightarrow> (account \<Rightarrow> string) \<Rightarrow> string \<Rightarrow> string \<Rightarrow> 'r \<Rightarrow> (err option \<times> 'r) go" where
  "setdiscount R enc address expiration w =
     (case hex_DecodeString address of
        Inl e \<Rightarrow> Ret (Some e, w)
      | Inr addrBytes \<Rightarrow>
          (case Atoi expiration of
             Inl e \<Rightarrow> Ret (Some e, w)
           | Inr n \<Rightarrow>
               AccountService_Set R enc (go_copy zero_address addrBytes)
                 \<lparr>Bl = False, acct_BaseFee = None, Dp = 100, Expiration = n\<rparr> w))"

text \<open>\<open>cmd/getbalance\<close> has its own conversion of asset data, which trims zeros and x's at both ends and
  prefixes what has a prefix already.\<close>

definition getbalance_hexToAssetData :: "string \<Rightarrow> asset_data" where
  "getbalance_hexToAssetData address =
     (let trimmed = trim_chars {CHR ''0'', CHR ''x''} address;
          digits = (if has_prefix trimmed ''f47261b0'' then ''f47261b0000000000000000000000000'' @ trimmed else trimmed) in
      case hex_DecodeString digits of Inl e \<Rightarrow> [] | Inr b \<Rightarrow> b)"

section \<open>The database's address\<close>

definition quoted_word :: "string \<Rightarrow> string" where "quoted_word s = CHR 0x27 # s @ [CHR 0x27]"

text \<open>The regular expression \<open>([^:]+)://([^@]+)@([^/]*)(/.*)?\<close>, which is not anchored: the first place where
  it matches. A place matches with the text before its first colon, so the parts are determined.\<close>

definition conn_here :: "string \<Rightarrow> (string \<times> string \<times> string \<times> string) option" where
  "conn_here s =
     (let scheme = takeWhile (\<lambda>c. c \<noteq> CHR '':'') s;
          rest = dropWhile (\<lambda>c. c \<noteq> CHR '':'') s;
          user = takeWhile (\<lambda>c. c \<noteq> CHR ''@'') (drop 3 rest);
          host = tl (dropWhile (\<lambda>c. c \<noteq> CHR ''@'') (drop 3 rest)) in
      if scheme = [] \<or> \<not> has_prefix rest ''://'' \<or> user = [] \<or> CHR ''@'' \<notin> set (drop 3 rest) then None
      else Some (scheme, user, takeWhile (\<lambda>c. c \<noteq> CHR ''/'') host,
        takeWhile (\<lambda>c. c \<noteq> CHR ''\<newline>'') (dropWhile (\<lambda>c. c \<noteq> CHR ''/'') host)))"

fun conn_match :: "string \<Rightarrow> (string \<times> string \<times> string \<times> string) option" where
  "conn_match [] = None"
| "conn_match (c # s) = (case conn_here (c # s) of None \<Rightarrow> conn_match s | Some m \<Rightarrow> Some m)"

text \<open>The driver and the connection string that \<open>gorm.Open\<close> is given.\<close>

definition GetDB :: "(string \<Rightarrow> string) \<Rightarrow> string \<Rightarrow> string \<Rightarrow> err + string \<times> string" where
  "GetDB secret connectionString passwordURI =
     (let password = secret passwordURI in
      case conn_match connectionString of
        None \<Rightarrow> Inl (''Parsing connection string '' @ quoted_word connectionString @ '' failed'')
      | Some (scheme, user, host, path) \<Rightarrow>
          (let name = trim_prefix path ''/'';
               dbname = (\<lambda>unnamed. if name = [] \<or> name = ''OR_DEFAULT_DB'' then unnamed else name) in
           if scheme = ''postgres''
           then Inr (scheme, ''host='' @ host @ '' dbname='' @ dbname ''postgres'' @ '' sslmode=disable user='' @ user @
                  '' password='' @ password)
           else if scheme = ''mysql''
           then Inr (scheme, user @ '':'' @ password @ ''@'' @ host @ ''/'' @ dbname ''mysql'' @
                  ''?charset=utf8&parseTime=True&loc=Local'')
           else Inl (''Unknown database type '' @ quoted_word scheme)))"

text \<open>An address with a scheme, user and host is read as written.\<close>

lemma takeWhile_before: "c \<notin> set s \<Longrightarrow> takeWhile (\<lambda>x. x \<noteq> c) (s @ c # t) = s \<and> dropWhile (\<lambda>x. x \<noteq> c) (s @ c # t) = c # t"
  by (induction s) auto

lemma conn_match_parts:
  assumes "scheme \<noteq> []" "CHR '':'' \<notin> set scheme" and "user \<noteq> []" "CHR ''@'' \<notin> set user"
    and "CHR ''/'' \<notin> set host" and "CHR ''\<newline>'' \<notin> set name"
  shows "conn_match (scheme @ ''://'' @ user @ ''@'' @ host @ ''/'' @ name) = Some (scheme, user, host, CHR ''/'' # name)"
proof -
  have n: "takeWhile (\<lambda>c. c \<noteq> CHR ''\<newline>'') (CHR ''/'' # name) = CHR ''/'' # name"
    using assms(6) by (auto simp: takeWhile_eq_all_conv)
  have "conn_here (scheme @ ''://'' @ user @ ''@'' @ host @ ''/'' @ name) = Some (scheme, user, host, CHR ''/'' # name)"
    using assms takeWhile_before [OF assms(2), of "''//'' @ user @ ''@'' @ host @ ''/'' @ name"]
      takeWhile_before [OF assms(4), of "host @ ''/'' @ name"] takeWhile_before [OF assms(5), of name] n
    by (simp add: conn_here_def Let_def has_prefix_def)
  then show ?thesis using assms(1) by (cases scheme) simp_all
qed

lemma GetDB_postgres:
  assumes "user \<noteq> []" "CHR ''@'' \<notin> set user" "CHR ''/'' \<notin> set host" "CHR ''\<newline>'' \<notin> set name"
    and "name \<noteq> []" "name \<noteq> ''OR_DEFAULT_DB''"
  shows "GetDB secret (''postgres://'' @ user @ ''@'' @ host @ ''/'' @ name) uri =
    Inr (''postgres'', ''host='' @ host @ '' dbname='' @ name @ '' sslmode=disable user='' @ user @ '' password='' @ secret uri)"
  using conn_match_parts [of "''postgres''" user host name] assms
  by (simp add: GetDB_def trim_prefix_def has_prefix_def)

section \<open>Object stores\<close>

datatype stored_object = FileStorage string | S3Storage string string

text \<open>A bucket without a key panics, another URI is nil. \<open>strings.SplitN\<close> into two parts.\<close>

definition GetStoredObject :: "string \<Rightarrow> stored_object option go" where
  "GetStoredObject uri =
     (if has_prefix uri ''file://'' then Ret (Some (FileStorage (trim_prefix uri ''file://'')))
      else if has_prefix uri ''s3://''
      then (let path = trim_prefix uri ''s3://'';
                bucket = takeWhile (\<lambda>c. c \<noteq> CHR ''/'') path in
            if CHR ''/'' \<notin> set path then Panic IndexOutOfRange
            else Ret (Some (S3Storage bucket (drop (Suc (length bucket)) path))))
      else Ret None)"

lemma GetStoredObject_no_key: "CHR ''/'' \<notin> set bucket \<Longrightarrow> GetStoredObject (''s3://'' @ bucket) = Panic IndexOutOfRange"
  by (simp add: GetStoredObject_def has_prefix_def trim_prefix_def)

lemma GetStoredObject_s3:
  "CHR ''/'' \<notin> set bucket \<Longrightarrow> GetStoredObject (''s3://'' @ bucket @ ''/'' @ key) = Ret (Some (S3Storage bucket key))"
  using takeWhile_before [of "CHR ''/''" bucket key]
  by (simp add: GetStoredObject_def has_prefix_def trim_prefix_def)

section \<open>What the settings say afterwards\<close>

lemma crossed_multiple:
  fixes v n k :: int
  assumes "0 < k"
  shows "v div k < n div k \<longleftrightarrow> (\<exists>m. v < m * k \<and> m * k \<le> n)"
proof -
  have le: "m * k \<le> x \<longleftrightarrow> m \<le> x div k" for m x :: int
  proof
    assume "m * k \<le> x"
    from zdiv_mono1 [OF this assms] show "m \<le> x div k" using assms by simp
  next
    assume "m \<le> x div k"
    then have "m * k \<le> x div k * k" using assms by simp
    also have "\<dots> \<le> x" using assms by (simp add: minus_mod_eq_div_mult [symmetric])
    finally show "m * k \<le> x" .
  qed
  have "v < m * k \<longleftrightarrow> v div k < m" for m using le [of m v] by auto
  with le [of _ n] have "(\<exists>m. v < m * k \<and> m * k \<le> n) \<longleftrightarrow> (\<exists>m. v div k < m \<and> m \<le> n div k)" by simp
  then show ?thesis by (auto intro: order_less_le_trans)
qed

text \<open>A queue is reported to grow exactly when its length reached another multiple of the threshold.\<close>

lemma queue_look_increasing:
  assumes "0 < threshold" "0 \<le> v" "0 \<le> n"
  shows "queue_look threshold counter v n = Ret (Some Increasing) \<longleftrightarrow> (\<exists>m. v < m * threshold \<and> m * threshold \<le> n)"
proof -
  have "n sdiv threshold = n div threshold" "v sdiv threshold = v div threshold"
    using assms by (simp_all add: signed_divide_int_def sgn_if)
  moreover have "v div threshold < n div threshold \<longleftrightarrow> (\<exists>m. v < m * threshold \<and> m * threshold \<le> n)"
    using assms(1) by (metis crossed_multiple)
  ultimately show ?thesis using assms(1) by (simp add: queue_look_def)
qed

text \<open>An account that \<open>setdiscount\<close> made has the whole base fee as its discount until it expires.\<close>

lemma setdiscount_discount:
  "now \<le> n \<Longrightarrow> Discount now \<lparr>Bl = False, acct_BaseFee = Some fee, Dp = 100, Expiration = n\<rparr> = Ret fee"
  by (simp add: Discount_def deref_int_def)

text \<open>The data of an ERC20 token is given its prefix a second time.\<close>

lemma getbalance_doubles_prefix:
  "length (getbalance_hexToAssetData ''0xf47261b00000000000000000000000001efecaf386509c6c12215e960673230aabd56871'') = 52"
  by (simp add: getbalance_hexToAssetData_def trim_chars_def has_prefix_def hex_DecodeString_def from_hex_char_def)

section \<open>Servers and indexers\<close>

datatype ingest_route = IngestOrder | IngestOrderConfig | IngestHealth

definition ingest_routes :: "((string \<Rightarrow> bool) \<times> ingest_route) list" where
  "ingest_routes =
     [(route_match ''/v2/order'', IngestOrder), (route_match ''/v2/order_config'', IngestOrderConfig),
      (\<lambda>path. path = ''/_hc'', IngestHealth)]"

datatype terms_route = TermsCheck | TermsOfService | TermsHealth

definition route_prefix :: "string \<Rightarrow> string \<Rightarrow> bool" where
  "route_prefix p path =
     (has_prefix path p \<or>
      (case path of
         [] \<Rightarrow> False
       | c # rest \<Rightarrow> c = CHR ''/'' \<and> takeWhile (\<lambda>x. x \<noteq> CHR ''/'') rest \<noteq> [] \<and>
           has_prefix (dropWhile (\<lambda>x. x \<noteq> CHR ''/'') rest) p))"

definition terms_routes :: "((string \<Rightarrow> bool) \<times> terms_route) list" where
  "terms_routes =
     [(route_prefix ''/v2/_tos/'', TermsCheck), (route_prefix ''/v2/_tos'', TermsOfService), (\<lambda>path. path = ''/_hc'', TermsHealth)]"

text \<open>The port is the last argument that is a number; terms are enforced unless told otherwise; an indexer
  opens orders unless told that they lack funds.\<close>

definition server_port :: "string \<Rightarrow> string list \<Rightarrow> string" where
  "server_port usual args = fold (\<lambda>arg port. case Atoi arg of Inl e \<Rightarrow> port | Inr n \<Rightarrow> arg) args usual"

definition enforce_terms :: "string \<Rightarrow> bool" where "enforce_terms env = (env \<noteq> ''false'')"

definition index_status :: "string list \<Rightarrow> int" where
  "index_status args = (if ''--unfunded'' \<in> set args then StatusUnfunded else StatusOpen)"

text \<open>An order of the indexer behind the inverted fund check relay is listed as unfunded, never as open.\<close>

lemma index_status_unfunded: "''--unfunded'' \<in> set args \<Longrightarrow> index_status args \<noteq> StatusOpen"
  by (simp add: index_status_def StatusUnfunded_def StatusOpen_def)

end
