(* ===== verification/Migration.thy ===== *)
theory Migration
  imports Assets Terms
begin

text \<open>
  Setting up the database (\<open>cmd/automigrate\<close>): the schema, the first rows of the exchange, proxy,
  asset, pair and terms tables, the default pool and the database's users. \<open>log.Fatalf\<close> ends the
  process in the database it leaves; whether the server accepts a statement is the parameter \<open>ddl\<close>.
\<close>

section \<open>Rows\<close>

record 'w schema =
  sc_Assets :: asset_db
  sc_Terms :: "terms_row list"
  sc_Pools :: "'w pool list"

text \<open>The steps of \<open>main\<close>, each of which may end the process.\<close>

fun run_steps :: "('v \<Rightarrow> 'v handled) list \<Rightarrow> 'v \<Rightarrow> 'v handled" where
  "run_steps [] v = Handled v"
| "run_steps (f # fs) v = (case f v of Handled v' \<Rightarrow> run_steps fs v' | Fatal e v' \<Rightarrow> Fatal e v')"

text \<open>\<open>Create\<close> refuses a second row with the primary key.\<close>

definition duplicate_key :: err where "duplicate_key = ''duplicate key''"

definition Create :: "err option \<Rightarrow> ('r \<Rightarrow> 'r \<Rightarrow> bool) \<Rightarrow> 'r \<Rightarrow> 'r list \<Rightarrow> err + 'r list" where
  "Create fault same row rows =
     (case fault of
        Some e \<Rightarrow> Inl e
      | None \<Rightarrow> if list_ex (same row) rows then Inl duplicate_key else Inr (rows @ [row]))"

definition must_create :: "string \<Rightarrow> err + 'r list \<Rightarrow> ('r list \<Rightarrow> asset_db) \<Rightarrow> asset_db \<Rightarrow> asset_db handled" where
  "must_create what created store db =
     (case created of Inl e \<Rightarrow> Fatal (what @ '': '' @ e) db | Inr rows \<Rightarrow> Handled (store rows))"

text \<open>Constants are decoded without a look at the error.\<close>

definition hex_address :: "string \<Rightarrow> address" where
  "hex_address s = (case HexToAddress s of Inl e \<Rightarrow> [] | Inr a \<Rightarrow> a)"

definition hex_asset :: "string \<Rightarrow> asset_data" where
  "hex_asset s = (case HexToAssetData s of Inl e \<Rightarrow> [] | Inr d \<Rightarrow> d)"

section \<open>Exchanges and proxies\<close>

definition add_exchange :: "nat \<Rightarrow> address \<Rightarrow> asset_db \<Rightarrow> asset_db handled" where
  "add_exchange network addr db =
     must_create (''Error adding exchange with address '' @ sprintf_hex addr)
       (Create (db_Fault db) (\<lambda>x y. ex_Address x = ex_Address y) \<lparr>ex_Address = addr, ex_Network = network\<rparr> (db_Exchanges db))
       (\<lambda>rows. db\<lparr>db_Exchanges := rows\<rparr>) db"

definition fillExchanges :: "asset_db \<Rightarrow> asset_db handled" where
  "fillExchanges = run_steps
     [add_exchange 1 (hex_address ''0x4f833a24e1f95d70f028921e27040ca56e09ab0b''),
      add_exchange 3 (hex_address ''0x4530c0483a1633c7a1c97d2c53721caff2caaaaf''),
      add_exchange 4 (hex_address ''0x862c8bbdc877031743a65834a891855c93ebad04''),
      add_exchange 42 (hex_address ''0x35dd2932454449b14cee11a94d3674a936d5d7b2''),
      add_exchange 50 (hex_address ''0x48bacb9266a570d521063ef5dd96e61686dbe788'')]"

definition migrated_exchange :: address where
  "migrated_exchange = hex_address ''0x862c8bbdc877031743a65834a891855c93ebad04''"

definition add_proxy :: "bytes \<Rightarrow> string \<Rightarrow> address \<Rightarrow> asset_db \<Rightarrow> asset_db handled" where
  "add_proxy proxy name addr db =
     must_create (''Error adding asset proxy with address '' @ sprintf_hex addr)
       (Create (db_Fault db) (\<lambda>x y. px_ID x = px_ID y)
          \<lparr>px_ID = proxy, px_Name = name, px_Address = addr, px_ExchangeAddress = migrated_exchange, px_ZeroEx = False\<rparr>
          (db_Proxies db))
       (\<lambda>rows. db\<lparr>db_Proxies := rows\<rparr>) db"

definition fillAssetProxies :: "asset_db \<Rightarrow> asset_db handled" where
  "fillAssetProxies = run_steps
     [add_proxy ERC20ProxyID ''ERC20'' (hex_address ''0x0a667983bb3edd6d50a9d42dfed998667e1ef1c9''),
      add_proxy ERC721ProxyID ''ERC721'' (hex_address ''0xe340954bd72478fcfbaba3d8c2b582bf766cef12''),
      add_proxy RoboDexProxyID ''RoboDEX'' (hex_address ''0xe90765ffc51c3d20c2b0a41c12238500be5e1382'')]"

section \<open>Assets and pairs\<close>

definition add_asset ::
  "string \<Rightarrow> string \<Rightarrow> address \<Rightarrow> bytes \<Rightarrow> asset_data \<Rightarrow> bool \<Rightarrow> asset_db \<Rightarrow> asset_db handled"
where
  "add_asset symbol name addr proxy data zeroEx db =
     must_create (''Error adding asset with address '' @ sprintf_hex addr)
       (Create (db_Fault db) (\<lambda>x y. as_Symbol x = as_Symbol y)
          \<lparr>as_Symbol = symbol, as_Name = name, as_Address = addr, as_Decimals = 18, as_ProxyID = proxy,
           as_Data = Some data, as_Precision = 6, as_MinTradeAmount = BigToUint256 0,
           as_MaxTradeAmount = BigToUint256 (2 ^ 256 - 1), as_ZeroEx = zeroEx, as_Active = True, as_Quote = False\<rparr>
          (db_Assets db))
       (\<lambda>rows. db\<lparr>db_Assets := rows\<rparr>) db"

definition fillAssets :: "asset_db \<Rightarrow> asset_db handled" where
  "fillAssets = run_steps
     [add_asset ''WETH'' ''WETH'' (hex_address ''0x1efecaf386509c6c12215e960673230aabd56871'') ERC20ProxyID
        (hex_asset ''0xf47261b00000000000000000000000001efecaf386509c6c12215e960673230aabd56871'') False,
      add_asset ''RDX'' ''RoboDEX Token'' (hex_address ''0xc6eae188e1498bedb4d76236446b335cb7253c3a'') RoboDexProxyID
        (hex_asset ''0x0e2042d8000000000000000000000000c6eae188e1498bedb4d76236446b335cb7253c3a'') False,
      add_asset ''WETH0X'' ''WETH0X'' (hex_address ''0xc778417e063141139fce010982780140aa0cd5ab'') ERC20ProxyID
        (hex_asset ''0xf47261b0000000000000000000000000c778417e063141139fce010982780140aa0cd5ab'') True,
      add_asset ''ZRX0X'' ''ZRX0X'' (hex_address ''0x2727e688b8fd40b198cd5fe6e408e00494a06f07'') ERC20ProxyID
        (hex_asset ''0xf47261b00000000000000000000000002727e688b8fd40b198cd5fe6e408e00494a06f07'') True]"

text \<open>The id of a pair is the next one of its sequence, so a pair is never refused for its key.\<close>

definition next_pair_id :: "asset_db \<Rightarrow> nat" where
  "next_pair_id db = Suc (fold max (map ap_ID (db_Pairs db)) 0)"

definition add_pair :: "string \<Rightarrow> string \<Rightarrow> asset_db \<Rightarrow> asset_db handled" where
  "add_pair symbolA symbolB db =
     must_create ''Error adding asset pair''
       (Create (db_Fault db) (\<lambda>x y. ap_ID x = ap_ID y \<and> ap_SymbolA x = ap_SymbolA y \<and> ap_SymbolB x = ap_SymbolB y)
          \<lparr>ap_ID = next_pair_id db, ap_SymbolA = symbolA, ap_SymbolB = symbolB, ap_Active = True\<rparr> (db_Pairs db))
       (\<lambda>rows. db\<lparr>db_Pairs := rows\<rparr>) db"

definition fillAssetPairs :: "asset_db \<Rightarrow> asset_db handled" where
  "fillAssetPairs = run_steps
     [add_pair ''RDX'' ''WETH'', add_pair ''WETH0X'' ''RDX'', add_pair ''ZRX0X'' ''RDX'', add_pair ''ZRX0X'' ''WETH'']"

section \<open>Terms, schema and users\<close>

text \<open>The terms are only added when the table is known to be empty: another error of the query counts
  as there being some.\<close>

definition fillTerms :: "tx_faults \<Rightarrow> nat \<Rightarrow> string \<Rightarrow> 'w schema \<Rightarrow> 'w schema handled" where
  "fillTerms faults newID text sc =
     (if db_Fault (sc_Assets sc) = None \<and> sc_Terms sc = []
      then (case UpdateTerms faults False (sc_Terms sc) newID ''en'' text (sc_Terms sc) of
              (Some e, rows) \<Rightarrow> Fatal (''Error adding terms: '' @ e) (sc\<lparr>sc_Terms := rows\<rparr>)
            | (None, rows) \<Rightarrow> Handled (sc\<lparr>sc_Terms := rows\<rparr>))
      else Handled sc)"

definition fill_tables :: "asset_db \<Rightarrow> asset_db handled" where
  "fill_tables = run_steps [fillExchanges, fillAssetProxies, fillAssets, fillAssetPairs]"

definition on_assets :: "(asset_db \<Rightarrow> asset_db handled) \<Rightarrow> 'w schema \<Rightarrow> 'w schema handled" where
  "on_assets f sc =
     (case f (sc_Assets sc) of
        Handled db \<Rightarrow> Handled (sc\<lparr>sc_Assets := db\<rparr>)
      | Fatal e db \<Rightarrow> Fatal e (sc\<lparr>sc_Assets := db\<rparr>))"

definition ddl_step :: "(string \<Rightarrow> err option) \<Rightarrow> string \<Rightarrow> 'v \<Rightarrow> 'v handled" where
  "ddl_step ddl what v = (case ddl what of Some e \<Rightarrow> Fatal (''Error '' @ what @ '': '' @ e) v | None \<Rightarrow> Handled v)"

definition migrate_tables :: "string list" where
  "migrate_tables = map (\<lambda>t. ''migrating '' @ t @ '' table'')
     [''asset proxy'', ''asset'', ''asset pair'', ''order'', ''cancellation'', ''exchange'', ''terms'', ''term_sigs'',
      ''hash_masks'', ''pools'']"

definition migrate_keys :: "string list" where
  "migrate_keys =
     [''adding order table index'', ''adding asset proxy table foreign key'', ''adding asset table foreign key'',
      ''adding asset pair table foreign key'', ''adding asset pair table foreign key'']"

text \<open>The pool of orders that name none. \<open>Assign(pool).FirstOrCreate(pool)\<close> reads a row that is there into
  the pool it would update it with, so the row stays as it is. The error is not looked at.\<close>

definition default_pool :: "crypto \<Rightarrow> 'w pool" where
  "default_pool C = empty_pool\<lparr>pool_Expiration := 1744733652, FeeShare := ''1000000000000000000'', pool_ID := keccak256 C []\<rparr>"

definition add_default_pool :: "crypto \<Rightarrow> 'w schema \<Rightarrow> 'w schema" where
  "add_default_pool C sc =
     (case FirstOrCreate (db_Fault (sc_Assets sc)) False (\<lambda>x y. pool_ID x = pool_ID y) Inr (default_pool C) (sc_Pools sc) of
        (e, pool, rows) \<Rightarrow> sc\<lparr>sc_Pools := rows\<rparr>)"

definition automigrate ::
  "crypto \<Rightarrow> (string \<Rightarrow> err option) \<Rightarrow> tx_faults \<Rightarrow> nat \<Rightarrow> string \<Rightarrow> 'w schema \<Rightarrow> 'w schema handled"
where
  "automigrate C ddl faults newID text = run_steps
     (map (ddl_step ddl) migrate_tables @ [on_assets fill_tables, fillTerms faults newID text] @
      map (ddl_step ddl) migrate_keys @ [\<lambda>sc. Handled (add_default_pool C sc)])"

text \<open>The users: \<open>name;password;table.permission,...\<close>. The statements that are sent, of which a refusal
  is only logged. For MySQL the name of the database is scanned into a map that is no pointer, which
  fails, and so is empty.\<close>

definition quoted_text :: "string \<Rightarrow> string" where
  "quoted_text s = CHR 0x27 # s @ [CHR 0x27]"

definition grant_statements :: "(string \<Rightarrow> string \<Rightarrow> string) \<Rightarrow> string \<Rightarrow> string list" where
  "grant_statements grant permissions =
     concat (map (\<lambda>permission. case split_on (CHR ''.'') permission of
         [table, right] \<Rightarrow> [grant right table] | _ \<Rightarrow> []) (split_on (CHR '','') permissions))"

definition user_statements :: "(string \<Rightarrow> string) \<Rightarrow> string \<Rightarrow> string \<Rightarrow> string list" where
  "user_statements secret dialect credString =
     (case split_on (CHR '';'') credString of
        [username, passwordURI, permissions] \<Rightarrow>
          if dialect = ''postgres''
          then [''CREATE USER '' @ username @ '' WITH PASSWORD '' @ quoted_text (secret passwordURI)] @
               grant_statements (\<lambda>right table. ''GRANT '' @ right @ '' ON TABLE '' @ table @ '' TO '' @ username) permissions @
               [''GRANT USAGE, SELECT on ALL SEQUENCES in SCHEMA public to '' @ username]
          else if dialect = ''mysql''
          then [''CREATE USER '' @ quoted_text username @ '' IDENTIFIED BY '' @ quoted_text (secret passwordURI),
                ''SELECT DATABASE()''] @
               grant_statements (\<lambda>right table. ''GRANT '' @ right @ '' ON '' @ [] @ ''.'' @ table @ '' TO '' @ quoted_text username)
                 permissions @
               [''FLUSH PRIVILEGES;'']
          else []
      | _ \<Rightarrow> [])"

section \<open>What the first rows are\<close>

lemma run_steps_Handled:
  "run_steps [] v = Handled w \<longleftrightarrow> w = v"
  "run_steps (f # fs) v = Handled w \<longleftrightarrow> (\<exists>u. f v = Handled u \<and> run_steps fs u = Handled w)"
  by (auto split: handled.split)

declare run_steps.simps [simp del]

lemma must_create_Handled:
  "must_create what created store db = Handled db' \<longleftrightarrow> (\<exists>rows. created = Inr rows \<and> db' = store rows)"
  by (auto simp: must_create_def split: sum.split)

lemma Create_Inr:
  "Create fault same row rows = Inr rows' \<longleftrightarrow> fault = None \<and> (\<forall>r \<in> set rows. \<not> same row r) \<and> rows' = rows @ [row]"
  by (auto simp: Create_def list_ex_iff split: option.split)

lemma table_updates:
  "db\<lparr>db_Exchanges := xs\<rparr> = db\<lparr>db_Exchanges := ys\<rparr> \<longleftrightarrow> xs = ys"
  "db\<lparr>db_Proxies := ps\<rparr> = db\<lparr>db_Proxies := qs\<rparr> \<longleftrightarrow> ps = qs"
  "db\<lparr>db_Assets := as\<rparr> = db\<lparr>db_Assets := bs\<rparr> \<longleftrightarrow> as = bs"
  "db\<lparr>db_Pairs := us\<rparr> = db\<lparr>db_Pairs := vs\<rparr> \<longleftrightarrow> us = vs"
  by (cases db; simp)+

lemmas added = table_updates add_exchange_def add_proxy_def add_asset_def add_pair_def must_create_Handled Create_Inr

text \<open>The references between the tables.\<close>

definition linked :: "asset_db \<Rightarrow> bool" where
  "linked db \<longleftrightarrow>
     (\<forall>p \<in> set (db_Pairs db). ap_SymbolA p \<in> as_Symbol ` set (db_Assets db) \<and> ap_SymbolB p \<in> as_Symbol ` set (db_Assets db)) \<and>
     (\<forall>a \<in> set (db_Assets db). as_ProxyID a \<in> px_ID ` set (db_Proxies db)) \<and>
     (\<forall>x \<in> set (db_Proxies db). px_ExchangeAddress x \<in> ex_Address ` set (db_Exchanges db))"

definition keyed :: "asset_db \<Rightarrow> bool" where
  "keyed db \<longleftrightarrow> distinct (map ex_Address (db_Exchanges db)) \<and> distinct (map px_ID (db_Proxies db)) \<and>
     distinct (map as_Symbol (db_Assets db))"

definition migrated_symbols :: "string set" where "migrated_symbols = {''WETH'', ''RDX'', ''WETH0X'', ''ZRX0X''}"

lemma fillExchanges_Handled:
  assumes "fillExchanges db = Handled db'"
  shows "\<exists>rows. db' = db\<lparr>db_Exchanges := db_Exchanges db @ rows\<rparr> \<and> migrated_exchange \<in> ex_Address ` set rows \<and>
    hex_address ''0x4f833a24e1f95d70f028921e27040ca56e09ab0b'' \<in> ex_Address ` set rows \<and>
    (distinct (map ex_Address (db_Exchanges db)) \<longrightarrow> distinct (map ex_Address (db_Exchanges db @ rows)))"
  using assms by (auto simp: fillExchanges_def run_steps_Handled added migrated_exchange_def)

lemma fillAssetProxies_Handled:
  assumes "fillAssetProxies db = Handled db'"
  shows "\<exists>rows. db' = db\<lparr>db_Proxies := db_Proxies db @ rows\<rparr> \<and>
    px_ID ` set rows = {ERC20ProxyID, ERC721ProxyID, RoboDexProxyID} \<and>
    (\<forall>x \<in> set rows. px_ExchangeAddress x = migrated_exchange) \<and>
    (distinct (map px_ID (db_Proxies db)) \<longrightarrow> distinct (map px_ID (db_Proxies db @ rows)))"
  using assms by (auto simp: fillAssetProxies_def run_steps_Handled added)

lemma fillAssets_Handled:
  assumes "fillAssets db = Handled db'"
  shows "\<exists>rows. db' = db\<lparr>db_Assets := db_Assets db @ rows\<rparr> \<and>
    as_Symbol ` set rows = migrated_symbols \<and>
    (\<forall>a \<in> set rows. as_ProxyID a \<in> {ERC20ProxyID, ERC721ProxyID, RoboDexProxyID}) \<and>
    (distinct (map as_Symbol (db_Assets db)) \<longrightarrow> distinct (map as_Symbol (db_Assets db @ rows)))"
  using assms by (auto simp: fillAssets_def run_steps_Handled added migrated_symbols_def)

lemma fillAssetPairs_Handled:
  assumes "fillAssetPairs db = Handled db'"
  shows "\<exists>rows. db' = db\<lparr>db_Pairs := db_Pairs db @ rows\<rparr> \<and>
    (\<forall>p \<in> set rows. {ap_SymbolA p, ap_SymbolB p} \<subseteq> migrated_symbols)"
  using assms by (auto simp: fillAssetPairs_def run_steps_Handled added migrated_symbols_def)

text \<open>A first exchange that is there ends the process before anything is written.\<close>

lemma fill_tables_again:
  assumes "hex_address ''0x4f833a24e1f95d70f028921e27040ca56e09ab0b'' \<in> ex_Address ` set (db_Exchanges db)"
  shows "\<exists>e. fill_tables db = Fatal e db"
proof -
  have "\<exists>e. add_exchange n a db = Fatal e db" if "a \<in> ex_Address ` set (db_Exchanges db)" for n a
    using that by (cases "db_Fault db") (auto simp: add_exchange_def Create_def must_create_def list_ex_iff)
  from this [OF assms, of 1] obtain e where
    "add_exchange 1 (hex_address ''0x4f833a24e1f95d70f028921e27040ca56e09ab0b'') db = Fatal e db" by blast
  then have "fillExchanges db = Fatal e db" by (simp only: fillExchanges_def run_steps.simps handled.case)
  then show ?thesis by (simp only: fill_tables_def run_steps.simps handled.case) blast
qed

text \<open>C35: a migration that succeeds leaves tables in which every pair, asset and proxy refers to rows that
  are there and no exchange, proxy or asset is there twice, if that was so before; and it cannot be
  run on those tables again.\<close>

theorem migration_links_tables:
  assumes run: "fill_tables db = Handled db'" and linked: "linked db" and keyed: "keyed db"
  shows "linked db' \<and> keyed db' \<and> (\<exists>e. fill_tables db' = Fatal e db')"
proof -
  obtain u1 u2 u3 where u: "fillExchanges db = Handled u1" "fillAssetProxies u1 = Handled u2"
      "fillAssets u2 = Handled u3" "fillAssetPairs u3 = Handled db'"
    using run by (auto simp: fill_tables_def run_steps_Handled)
  from fillExchanges_Handled [OF u(1)] keyed obtain xs where
    xs: "u1 = db\<lparr>db_Exchanges := db_Exchanges db @ xs\<rparr>" "migrated_exchange \<in> ex_Address ` set xs"
      "hex_address ''0x4f833a24e1f95d70f028921e27040ca56e09ab0b'' \<in> ex_Address ` set xs"
      "distinct (map ex_Address (db_Exchanges db @ xs))" unfolding keyed_def by blast
  from fillAssetProxies_Handled [OF u(2)] keyed xs(1) obtain ps where
    ps: "u2 = u1\<lparr>db_Proxies := db_Proxies db @ ps\<rparr>" "px_ID ` set ps = {ERC20ProxyID, ERC721ProxyID, RoboDexProxyID}"
      "\<forall>x \<in> set ps. px_ExchangeAddress x = migrated_exchange" "distinct (map px_ID (db_Proxies db @ ps))"
    unfolding keyed_def by auto
  from fillAssets_Handled [OF u(3)] keyed xs(1) ps(1,2) obtain as where
    as: "u3 = u2\<lparr>db_Assets := db_Assets db @ as\<rparr>" "as_Symbol ` set as = migrated_symbols"
      "\<forall>a \<in> set as. as_ProxyID a \<in> px_ID ` set ps" "distinct (map as_Symbol (db_Assets db @ as))"
    unfolding keyed_def by auto
  obtain qs where qs: "db' = u3\<lparr>db_Pairs := db_Pairs u3 @ qs\<rparr>"
      "\<forall>p \<in> set qs. {ap_SymbolA p, ap_SymbolB p} \<subseteq> as_Symbol ` set as"
    using fillAssetPairs_Handled [OF u(4)] unfolding as(2) by blast
  have db': "db' = db\<lparr>db_Exchanges := db_Exchanges db @ xs, db_Proxies := db_Proxies db @ ps,
      db_Assets := db_Assets db @ as, db_Pairs := db_Pairs db @ qs\<rparr>"
    unfolding qs(1) as(1) ps(1) xs(1) by simp
  have "linked db'" using linked xs(2) ps(3) as(3) qs(2) unfolding linked_def db' by (auto simp: ball_Un)
  moreover have "keyed db'" using xs(4) ps(4) as(4) unfolding keyed_def db' by simp
  moreover have "\<exists>e. fill_tables db' = Fatal e db'" using xs(3) unfolding db' by (intro fill_tables_again) auto
  ultimately show ?thesis by blast
qed

definition empty_db :: asset_db where
  "empty_db = \<lparr>db_Assets = [], db_Proxies = [], db_Pairs = [], db_Exchanges = [], db_Fault = None\<rparr>"


lemma exchange_addresses:
  "distinct [hex_address ''0x4f833a24e1f95d70f028921e27040ca56e09ab0b'',
     hex_address ''0x4530c0483a1633c7a1c97d2c53721caff2caaaaf'', hex_address ''0x862c8bbdc877031743a65834a891855c93ebad04'',
     hex_address ''0x35dd2932454449b14cee11a94d3674a936d5d7b2'', hex_address ''0x48bacb9266a570d521063ef5dd96e61686dbe788'']"
  by (simp add: hex_address_def HexToAddress_def HexToBytes_def hex_DecodeString_def trim_prefix_def has_prefix_def
      from_hex_char_def go_copy_def zero_address_def zero_bytes_def)

lemma fill_empty: "\<exists>db. fill_tables empty_db = Handled db"
proof -
  obtain xs where 1: "fillExchanges empty_db = Handled (empty_db\<lparr>db_Exchanges := xs\<rparr>)"
    using exchange_addresses exchange_addresses [THEN distinct_rev [THEN iffD2]]
    by (simp add: fillExchanges_def run_steps.simps add_exchange_def must_create_def Create_def empty_db_def)
  obtain ps where 2: "fillAssetProxies (empty_db\<lparr>db_Exchanges := xs\<rparr>) =
      Handled (empty_db\<lparr>db_Exchanges := xs, db_Proxies := ps\<rparr>)"
    by (simp add: fillAssetProxies_def run_steps.simps add_proxy_def must_create_def Create_def empty_db_def
        ERC20ProxyID_def ERC721ProxyID_def RoboDexProxyID_def)
  obtain as where 3: "fillAssets (empty_db\<lparr>db_Exchanges := xs, db_Proxies := ps\<rparr>) =
      Handled (empty_db\<lparr>db_Exchanges := xs, db_Proxies := ps, db_Assets := as\<rparr>)"
    by (simp add: fillAssets_def run_steps.simps add_asset_def must_create_def Create_def empty_db_def)
  have "\<exists>qs. fillAssetPairs (empty_db\<lparr>db_Exchanges := xs, db_Proxies := ps, db_Assets := as\<rparr>) =
      Handled (empty_db\<lparr>db_Exchanges := xs, db_Proxies := ps, db_Assets := as, db_Pairs := qs\<rparr>)"
    by (simp add: fillAssetPairs_def run_steps.simps add_pair_def must_create_def Create_def empty_db_def)
  then obtain qs where "fillAssetPairs (empty_db\<lparr>db_Exchanges := xs, db_Proxies := ps, db_Assets := as\<rparr>) =
      Handled (empty_db\<lparr>db_Exchanges := xs, db_Proxies := ps, db_Assets := as, db_Pairs := qs\<rparr>)" ..
  with 1 2 3 show ?thesis by (simp add: fill_tables_def run_steps.simps)
qed

theorem migration_links_tables_witness:
  "\<exists>db. fill_tables empty_db = Handled db \<and> linked db \<and> keyed db \<and> (\<exists>e. fill_tables db = Fatal e db)"
proof -
  obtain db where "fill_tables empty_db = Handled db" using fill_empty by blast
  moreover have "linked empty_db" "keyed empty_db" by (simp_all add: empty_db_def linked_def keyed_def)
  ultimately show ?thesis using migration_links_tables [of empty_db db] by blast
qed

end
