(* ===== verification/MockChannels.thy ===== *)
theory MockChannels
  imports Channels
begin

text \<open>
  The other channels: redis topics (\<open>channels/topic_consumer.go\<close>) and the in-memory channel of the tests
  (\<open>channels/mock_channel.go\<close>). The locale \<open>message_store\<close> is the contract a queue and its mock share:
  what an operation leaves and takes is what was there and what it gave. It is interpreted on the redis
  queue of \<open>Channels\<close> and on the mock.
\<close>

section \<open>Conservation of messages\<close>

locale message_store =
  fixes step :: "'op \<Rightarrow> 's \<Rightarrow> 's" and content :: "'s \<Rightarrow> 'm multiset"
    and gives :: "'op \<Rightarrow> 's \<Rightarrow> 'm multiset" and takes :: "'op \<Rightarrow> 's \<Rightarrow> 'm multiset" and legal :: "'op \<Rightarrow> 's \<Rightarrow> bool"
  assumes one: "legal x s \<Longrightarrow> content (step x s) + takes x s = content s + gives x s"
begin

fun legal_run :: "'op list \<Rightarrow> 's \<Rightarrow> bool" where
  "legal_run [] s = True"
| "legal_run (x # xs) s = (legal x s \<and> legal_run xs (step x s))"

fun total :: "('op \<Rightarrow> 's \<Rightarrow> 'm multiset) \<Rightarrow> 'op list \<Rightarrow> 's \<Rightarrow> 'm multiset" where
  "total f [] s = {#}"
| "total f (x # xs) s = f x s + total f xs (step x s)"

lemma conserves: "legal_run xs s \<Longrightarrow> content (fold step xs s) + total takes xs s = content s + total gives xs s"
proof (induction xs arbitrary: s)
  case (Cons x xs)
  then have "content (fold step xs (step x s)) + total takes xs (step x s) + takes x s =
      content (step x s) + total gives xs (step x s) + takes x s" by simp
  also have "\<dots> = content s + gives x s + total gives xs (step x s)"
    using one [of x s] Cons.prems by (simp add: ac_simps)
  finally show ?case by (simp add: ac_simps)
qed simp

end

interpretation redis_queue: message_store "run_op R q" "\<lambda>w. queue_content (view (fst w)) q" "\<lambda>x w. op_adds x"
    "\<lambda>x w. op_removes (view (fst w)) q x" "\<lambda>x w. redis_lists_ok R view \<and> wf_queue q \<and> op_legal (view (fst w)) q x"
  for R q view
  by unfold_locales (blast intro: run_op_conserves)

section \<open>Topics\<close>

text \<open>A message goes to every consumer, each with a delivery of its own that cannot be settled. The
  consumers' goroutines are taken in order.\<close>

definition topic_consume :: "('w delivery \<Rightarrow> 'w \<Rightarrow> 'w go) list \<Rightarrow> string \<Rightarrow> 'w \<Rightarrow> 'w go" where
  "topic_consume consumers payload = go_fold (\<lambda>consume. consume (newTopicDelivery payload)) consumers"

record topic_channel =
  tc_name :: string
  tc_subscribed :: bool
  tc_stopped :: bool

definition NewTopicConsumerChannel :: "string \<Rightarrow> topic_channel" where
  "NewTopicConsumerChannel name = \<lparr>tc_name = name, tc_subscribed = False, tc_stopped = False\<rparr>"

text \<open>\<open>subscribes\<close> is whether the server takes the subscription. A channel can be started once.\<close>

definition topic_StartConsuming :: "bool \<Rightarrow> topic_channel \<Rightarrow> bool \<times> topic_channel" where
  "topic_StartConsuming subscribes topic =
     (if tc_subscribed topic then (False, topic)
      else if subscribes then (True, topic\<lparr>tc_subscribed := True\<rparr>)
      else (False, topic))"

definition topic_StopConsuming :: "topic_channel \<Rightarrow> bool \<times> topic_channel" where
  "topic_StopConsuming topic =
     (False, if tc_subscribed topic \<and> \<not> tc_stopped topic then topic\<lparr>tc_stopped := True\<rparr> else topic)"

definition topic_ReturnAllUnacked :: "topic_channel \<Rightarrow> nat" where "topic_ReturnAllUnacked topic = 0"
definition topic_PurgeRejected :: "topic_channel \<Rightarrow> nat" where "topic_PurgeRejected topic = 0"

lemma topic_restart: "fst (topic_StartConsuming s t) \<Longrightarrow> \<not> fst (topic_StartConsuming s' (snd (topic_StartConsuming s t)))"
  by (simp add: topic_StartConsuming_def split: if_splits)

section \<open>The mock channel\<close>

text \<open>Deliveries are pointers: a number tells them apart. \<open>mc_channel\<close> holds five; who sends to a full
  channel waits. \<open>mc_returning\<close>: a goroutine of \<open>ReturnAllUnacked\<close> runs, which never ends.\<close>

type_synonym mock_message = "nat \<times> string"

record mock_channel =
  mc_channel :: "mock_message list"
  mc_unacked :: "mock_message list"
  mc_rejected :: "mock_message list"
  mc_processed :: nat
  mc_next :: nat
  mc_returning :: bool

definition MockChannel :: mock_channel where
  "MockChannel = \<lparr>mc_channel = [], mc_unacked = [], mc_rejected = [], mc_processed = 0, mc_next = 0, mc_returning = False\<rparr>"

definition mock_Publish :: "string \<Rightarrow> mock_channel \<Rightarrow> mock_channel" where
  "mock_Publish payload mock = mock\<lparr>mc_channel := mc_channel mock @ [(mc_next mock, payload)], mc_next := Suc (mc_next mock)\<rparr>"

text \<open>The goroutine of \<open>StartConsuming\<close> takes a message, and counts it once its consumers are done.\<close>

definition mock_take :: "mock_channel \<Rightarrow> mock_channel" where
  "mock_take mock =
     (case mc_channel mock of
        [] \<Rightarrow> mock
      | m # ms \<Rightarrow> mock\<lparr>mc_channel := ms, mc_unacked := mc_unacked mock @ [m]\<rparr>)"

definition mock_processed :: "mock_channel \<Rightarrow> mock_channel" where
  "mock_processed mock = mock\<lparr>mc_processed := Suc (mc_processed mock)\<rparr>"

definition mock_Ack :: "mock_message \<Rightarrow> mock_channel \<Rightarrow> bool \<times> mock_channel" where
  "mock_Ack m mock =
     (if m \<in> set (mc_unacked mock) then (True, mock\<lparr>mc_unacked := remove1 m (mc_unacked mock)\<rparr>) else (False, mock))"

definition mock_Reject :: "mock_message \<Rightarrow> mock_channel \<Rightarrow> bool \<times> mock_channel" where
  "mock_Reject m mock =
     (if m \<in> set (mc_unacked mock)
      then (True, mock\<lparr>mc_unacked := remove1 m (mc_unacked mock), mc_rejected := mc_rejected mock @ [m]\<rparr>)
      else (False, mock))"

definition mock_Return :: "mock_message \<Rightarrow> mock_channel \<Rightarrow> bool \<times> mock_channel" where
  "mock_Return m mock = (True, mock)"

definition mock_ReturnAllUnacked :: "mock_channel \<Rightarrow> nat \<times> mock_channel" where
  "mock_ReturnAllUnacked mock = (length (mc_unacked mock), mock\<lparr>mc_returning := True\<rparr>)"

definition mock_return_last :: "mock_channel \<Rightarrow> mock_channel" where
  "mock_return_last mock =
     (if mc_unacked mock = [] then mock
      else mock\<lparr>mc_unacked := butlast (mc_unacked mock), mc_channel := mc_channel mock @ [last (mc_unacked mock)]\<rparr>)"

definition mock_PurgeRejected :: "mock_channel \<Rightarrow> nat \<times> mock_channel" where
  "mock_PurgeRejected mock = (length (mc_rejected mock), mock\<lparr>mc_rejected := []\<rparr>)"

datatype mock_op =
    MockPublish string | MockTake | MockProcessed | MockAck mock_message | MockReject mock_message
  | MockReturn mock_message | MockReturnAll | MockReturnLast | MockPurge

fun mock_step :: "mock_op \<Rightarrow> mock_channel \<Rightarrow> mock_channel" where
  "mock_step (MockPublish p) s = mock_Publish p s"
| "mock_step MockTake s = mock_take s"
| "mock_step MockProcessed s = mock_processed s"
| "mock_step (MockAck m) s = snd (mock_Ack m s)"
| "mock_step (MockReject m) s = snd (mock_Reject m s)"
| "mock_step (MockReturn m) s = snd (mock_Return m s)"
| "mock_step MockReturnAll s = snd (mock_ReturnAllUnacked s)"
| "mock_step MockReturnLast s = mock_return_last s"
| "mock_step MockPurge s = snd (mock_PurgeRejected s)"

text \<open>What can be done in a state: a send needs room in the channel, the returning goroutine must run.\<close>

fun mock_enabled :: "mock_op \<Rightarrow> mock_channel \<Rightarrow> bool" where
  "mock_enabled (MockPublish p) s = (length (mc_channel s) < 5)"
| "mock_enabled MockReturnLast s = (mc_returning s \<and> length (mc_channel s) < 5)"
| "mock_enabled _ s = True"

definition mock_content :: "mock_channel \<Rightarrow> mock_message multiset" where
  "mock_content s = mset (mc_channel s) + mset (mc_unacked s) + mset (mc_rejected s)"

fun mock_gives :: "mock_op \<Rightarrow> mock_channel \<Rightarrow> mock_message multiset" where
  "mock_gives (MockPublish p) s = {#(mc_next s, p)#}"
| "mock_gives _ s = {#}"

fun mock_takes :: "mock_op \<Rightarrow> mock_channel \<Rightarrow> mock_message multiset" where
  "mock_takes (MockAck m) s = (if m \<in> set (mc_unacked s) then {#m#} else {#})"
| "mock_takes MockPurge s = mset (mc_rejected s)"
| "mock_takes _ s = {#}"

interpretation mock: message_store mock_step mock_content mock_gives mock_takes mock_enabled
proof
  fix x s assume "mock_enabled x s"
  show "mock_content (mock_step x s) + mock_takes x s = mock_content s + mock_gives x s"
  proof (cases x)
    case MockReturnLast
    then show ?thesis
      by (auto simp: mock_content_def mock_return_last_def mset_last_butlast ac_simps)
  qed (auto simp: mock_content_def mock_Publish_def mock_take_def mock_processed_def mock_Ack_def mock_Reject_def
      mock_Return_def mock_ReturnAllUnacked_def mock_PurgeRejected_def split: list.split)
qed

text \<open>A mock channel holds nothing that was not sent, and nothing more often than it was.\<close>

lemma mock_holds_what_was_sent:
  "mock.legal_run xs MockChannel \<Longrightarrow> mock_content (fold mock_step xs MockChannel) \<subseteq># mock.total mock_gives xs MockChannel"
  using mock.conserves [of xs MockChannel]
  by (simp add: mock_content_def MockChannel_def) (metis mset_subset_eq_add_left)

text \<open>What a mock's \<open>Return\<close> says it did it did not: unlike a queue's, the delivery stays unacked.\<close>

lemma mock_Return_keeps: "mock_Return m s = (True, s)"
  by (simp add: mock_Return_def)

end
