(* ===== verification/FillRaces.thy ===== *)
theory FillRaces
  imports IndexConsumers
begin

text \<open>
  Fills recorded at the same time. \<open>RecordFillConsumer.Consume\<close> (\<open>db/record_fill_consumer.go\<close>) runs
  \<open>RecordFill\<close> (\<open>db/indexer.go\<close>) in a goroutine, as many at once as its semaphore lets in, and \<open>RecordFill\<close>
  first reads the row of an order and then saves it, outside a transaction. The two parts are
  definitions of their own here, so that those of two fills can be interleaved.
\<close>

section \<open>Reading and saving\<close>

text \<open>What is saved, or the outcome when nothing is.\<close>

definition RecordFill_read :: "fill_record \<Rightarrow> 'f orders_table \<Rightarrow> (err option + 'f db_order) go" where
  "RecordFill_read fillRecord table =
     (case hex_DecodeString (trim_prefix (fr_OrderHash fillRecord) ''0x'') of
        Inl e \<Rightarrow> Ret (Inl (Some e))
      | Inr hashBytes \<Rightarrow>
          (let amount = (if fr_FilledTakerAssetAmount fillRecord = [] then ''0''
                         else fr_FilledTakerAssetAmount fillRecord) in
           case big_SetString amount of
             None \<Rightarrow> Ret (Inl (Some (amount_error amount)))
           | Some amountFilled \<Rightarrow>
               (case find (\<lambda>row. OrderHash row = hashBytes) table of
                  None \<Rightarrow> Ret (Inl None)
                | Some dbOrder \<Rightarrow>
                    (let base = types_Order dbOrder in
                     go_map (\<lambda>totalFilled. Inr (dbOrder\<lparr>types_Order := base
                            \<lparr>TakerAssetAmountFilled :=
                               go_copy (TakerAssetAmountFilled base) (abi_U256 (totalFilled + amountFilled)),
                             Cancelled := Cancelled base \<or> fr_Cancel fillRecord\<rparr>\<rparr>))
                       (Uint256_Big (TakerAssetAmountFilled base))))))"

definition RecordFill_save ::
  "crypto \<Rightarrow> (int \<Rightarrow> int \<Rightarrow> 'f go) \<Rightarrow> err option + 'f db_order \<Rightarrow> 'f orders_table \<Rightarrow> (err option \<times> 'f orders_table) go"
where
  "RecordFill_save C quo r table =
     (case r of Inl e \<Rightarrow> Ret (e, table) | Inr dbOrder \<Rightarrow> Order_Save C quo dbOrder (Status dbOrder) table)"

lemma RecordFill_parts:
  "RecordFill C quo fill table = go_bind (RecordFill_read fill table) (\<lambda>r. RecordFill_save C quo r table)"
proof -
  have m: "go_bind (go_map f x) g = go_bind x (\<lambda>y. g (f y))" for f :: "int \<Rightarrow> err option + 'f db_order" and g x
    by (cases x) simp_all
  define amount where "amount = (if fr_FilledTakerAssetAmount fill = [] then ''0'' else fr_FilledTakerAssetAmount fill)"
  show ?thesis
    unfolding RecordFill_def RecordFill_read_def Let_def amount_def [symmetric]
    by (simp add: RecordFill_save_def m split: sum.split option.split)
qed

section \<open>Schedules\<close>

text \<open>The fills are numbered; a schedule says in which order their reads and saves reach the database, and
  a run keeps what was read until it is saved.\<close>

datatype fill_event = ReadFill nat | SaveFill nat

type_synonym 'f fill_reads = "nat \<Rightarrow> (err option + 'f db_order) option"

fun run_fills ::
  "crypto \<Rightarrow> (int \<Rightarrow> int \<Rightarrow> 'f go) \<Rightarrow> (nat \<Rightarrow> fill_record) \<Rightarrow> fill_event list \<Rightarrow> 'f fill_reads \<Rightarrow> 'f orders_table
     \<Rightarrow> 'f orders_table go"
where
  "run_fills C quo f [] loaded table = Ret table"
| "run_fills C quo f (ReadFill i # es) loaded table =
     go_bind (RecordFill_read (f i) table) (\<lambda>r. run_fills C quo f es (loaded(i \<mapsto> r)) table)"
| "run_fills C quo f (SaveFill i # es) loaded table =
     (case loaded i of
        None \<Rightarrow> run_fills C quo f es loaded table
      | Some r \<Rightarrow>
          go_bind (RecordFill_save C quo r table) (\<lambda>(e, table'). run_fills C quo f es (loaded(i := None)) table'))"

text \<open>One fill after the other.\<close>

fun fills_in_turn ::
  "crypto \<Rightarrow> (int \<Rightarrow> int \<Rightarrow> 'f go) \<Rightarrow> (nat \<Rightarrow> fill_record) \<Rightarrow> nat list \<Rightarrow> 'f orders_table \<Rightarrow> 'f orders_table go"
where
  "fills_in_turn C quo f [] table = Ret table"
| "fills_in_turn C quo f (i # is) table =
     go_bind (RecordFill C quo (f i) table) (\<lambda>(e, table'). fills_in_turn C quo f is table')"

fun saved_fills :: "fill_event list \<Rightarrow> nat list" where
  "saved_fills [] = []"
| "saved_fills (ReadFill i # es) = saved_fills es"
| "saved_fills (SaveFill i # es) = i # saved_fills es"

definition fill_hash :: "fill_record \<Rightarrow> err + bytes" where
  "fill_hash fill = hex_DecodeString (trim_prefix (fr_OrderHash fill) ''0x'')"

text \<open>A schedule in which each save follows its read and no fill is saved while another fill of the same
  order has been read.\<close>

fun isolated :: "(nat \<Rightarrow> fill_record) \<Rightarrow> fill_event list \<Rightarrow> nat list \<Rightarrow> bool" where
  "isolated f [] pending \<longleftrightarrow> True"
| "isolated f (ReadFill i # es) pending \<longleftrightarrow> i \<notin> set pending \<and> isolated f es (i # pending)"
| "isolated f (SaveFill i # es) pending \<longleftrightarrow> i \<in> set pending \<and>
     (\<forall>j \<in> set pending. j \<noteq> i \<longrightarrow> fill_hash (f j) \<noteq> fill_hash (f i)) \<and> isolated f es (removeAll i pending)"

section \<open>What is read\<close>

lemma RecordFill_read_other:
  assumes "fill_hash fill \<noteq> Inr h"
  shows "RecordFill_read fill (map (\<lambda>r. if OrderHash r = h then update_row new r else r) table) =
    RecordFill_read fill table"
proof (cases "fill_hash fill")
  case (Inl e)
  then show ?thesis by (simp add: RecordFill_read_def fill_hash_def)
next
  case (Inr h2)
  then have "h2 \<noteq> h" using assms by simp
  then have "find (\<lambda>r. OrderHash r = h2) (map (\<lambda>r. if OrderHash r = h then update_row new r else r) table) =
      find (\<lambda>r. OrderHash r = h2) table"
    by (induction table) (auto simp: update_row_def)
  then show ?thesis using Inr unfolding RecordFill_read_def Let_def fill_hash_def by (simp only: sum.case)
qed

text \<open>A read finds nothing to save, or an order with the hash of a row and another filled amount.\<close>

lemma RecordFill_read_cases:
  assumes ok: "table_ok C table"
  obtains (nothing) e where "RecordFill_read fill table = Ret (Inl e)"
    | (found) row ord n where "RecordFill_read fill table = Ret (Inr ord)" "row \<in> set table"
      "fill_hash fill = Inr (OrderHash row)" "wf_order (types_Order ord)"
      "Order_Hash C (types_Order ord) = Ret (OrderHash row)" "Signature (types_Order ord) = Signature (types_Order row)"
      "Maker (types_Order ord) = Maker (types_Order row)"
      "TakerAssetAmount (types_Order ord) = TakerAssetAmount (types_Order row)"
      "TakerAssetAmountFilled (types_Order ord) =
        abi_U256 (int (be_nat (TakerAssetAmountFilled (types_Order row))) + n)"
      "fr_FilledTakerAssetAmount fill \<noteq> [] \<Longrightarrow> big_SetString (fr_FilledTakerAssetAmount fill) = Some n"
      "Status ord = Status row" "Cancelled (types_Order ord) \<longleftrightarrow> Cancelled (types_Order row) \<or> fr_Cancel fill"
proof (cases "fill_hash fill")
  case (Inl e)
  show thesis by (rule nothing) (use Inl in \<open>simp add: RecordFill_read_def fill_hash_def\<close>)
next
  case (Inr h)
  define amount where "amount = (if fr_FilledTakerAssetAmount fill = [] then ''0'' else fr_FilledTakerAssetAmount fill)"
  note read = RecordFill_read_def [of fill table, folded fill_hash_def amount_def, unfolded Inr Let_def sum.case]
  consider "big_SetString amount = None \<or> find (\<lambda>r. OrderHash r = h) table = None"
    | n row where "big_SetString amount = Some n" "find (\<lambda>r. OrderHash r = h) table = Some row" by fastforce
  then show thesis
  proof cases
    case 1
    then have "RecordFill_read fill table =
        Ret (Inl (if big_SetString amount = None then Some (amount_error amount) else None))"
      by (auto simp: read split: option.split)
    then show thesis by (rule nothing)
  next
    case (2 n row)
    then have row: "row \<in> set table" "OrderHash row = h" by (auto simp: find_Some_iff)
    let ?base = "types_Order row"
    have "row_ok C row" using ok row by (simp add: table_ok_def list_all_iff)
    then have wf: "wf_order ?base" "length (TakerAssetAmountFilled ?base) = 32" "Order_Hash C ?base = Ret (OrderHash row)"
      by (simp_all add: row_ok_def Let_def wf_order_def wf_uint256_def)
    have "RecordFill_read fill table = Ret (Inr (row\<lparr>types_Order := ?base
        \<lparr>TakerAssetAmountFilled := abi_U256 (int (be_nat (TakerAssetAmountFilled ?base)) + n),
         Cancelled := Cancelled ?base \<or> fr_Cancel fill\<rparr>\<rparr>))"
      using 2 wf(2) by (simp add: read Uint256_Big_def)
    then show thesis
    proof (rule found [where n = n])
      show "fr_FilledTakerAssetAmount fill \<noteq> [] \<Longrightarrow> big_SetString (fr_FilledTakerAssetAmount fill) = Some n"
        using 2(1) by (simp add: amount_def)
    qed (use wf row Inr in simp_all)
  qed
qed

text \<open>Saving what was read touches no row of another hash.\<close>

lemma RecordFill_save_read:
  assumes C: "\<forall>x. length (keccak256 C x) = 32" and ok: "table_ok C table" and quo: "\<forall>a b. returns (quo a b)"
    and read: "RecordFill_read fill table = Ret r"
  obtains e table' where "RecordFill_save C quo r table = Ret (e, table')" "table_ok C table'"
    "\<And>other. fill_hash other \<noteq> fill_hash fill \<Longrightarrow> RecordFill_read other table' = RecordFill_read other table"
  using ok
proof (cases rule: RecordFill_read_cases [where fill = fill])
  case (nothing e)
  then show thesis using read ok that [of e table] by (simp add: RecordFill_save_def)
next
  case (found row ord n)
  have r: "r = Inr ord" using found(1) read by simp
  obtain new pool where save: "Order_Save C quo ord (Status ord) table =
      Ret (None, map (\<lambda>r. if OrderHash r = OrderHash row then update_row new row else r) table)"
    by (rule Order_Save_updates [OF ok found(2) refl refl found(4-8) quo])
  let ?t = "map (\<lambda>r. if OrderHash r = OrderHash row then update_row new row else r) table"
  have t: "?t = map (\<lambda>r. if OrderHash r = OrderHash row then update_row new r else r) table"
    using table_row_unique(2) [OF ok found(2)] by (auto intro!: map_cong)
  have "RecordFill C quo fill table = Ret (None, ?t)"
    using read save by (simp add: RecordFill_parts RecordFill_save_def r)
  then have ok': "table_ok C ?t" by (rule RecordFill_ok [OF C ok])
  have other: "RecordFill_read other ?t = RecordFill_read other table" if "fill_hash other \<noteq> fill_hash fill" for other
    using that found(3) unfolding t by (intro RecordFill_read_other) simp
  have "RecordFill_save C quo r table = Ret (None, ?t)" using save by (simp add: RecordFill_save_def r)
  then show thesis using ok' other by (rule that)
qed

section \<open>Isolated fills\<close>

lemma RecordFill_read_returns:
  assumes "table_ok C table"
  obtains r where "RecordFill_read fill table = Ret r"
  using assms by (cases rule: RecordFill_read_cases [where fill = fill]) (auto intro: that)

lemma run_fills_serial:
  assumes C: "\<forall>x. length (keccak256 C x) = 32" and quo: "\<forall>a b. returns (quo a b)"
  shows "table_ok C table \<Longrightarrow> isolated f es pending \<Longrightarrow>
    (\<And>i. loaded i = None \<longleftrightarrow> i \<notin> set pending) \<Longrightarrow>
    (\<And>i r. loaded i = Some r \<Longrightarrow> RecordFill_read (f i) table = Ret r) \<Longrightarrow>
    run_fills C quo f es loaded table = fills_in_turn C quo f (saved_fills es) table"
proof (induction f es pending arbitrary: loaded table rule: isolated.induct)
  case (2 f i es pending)
  obtain r where r: "RecordFill_read (f i) table = Ret r" using 2(2) by (rule RecordFill_read_returns)
  have "run_fills C quo f es (loaded(i \<mapsto> r)) table = fills_in_turn C quo f (saved_fills es) table"
    using 2(2-5) r by (intro 2(1)) (auto split: if_splits)
  then show ?case by (simp add: r)
next
  case (3 f i es pending)
  then obtain r where r: "loaded i = Some r" "RecordFill_read (f i) table = Ret r" by fastforce
  obtain e table' where t: "RecordFill_save C quo r table = Ret (e, table')" "table_ok C table'"
    "\<And>other. fill_hash other \<noteq> fill_hash (f i) \<Longrightarrow> RecordFill_read other table' = RecordFill_read other table"
    using RecordFill_save_read [OF C 3(2) quo r(2)] by metis
  have "run_fills C quo f es (loaded(i := None)) table' = fills_in_turn C quo f (saved_fills es) table'"
  proof (rule 3(1))
    show "RecordFill_read (f j) table' = Ret x" if "(loaded(i := None)) j = Some x" for j x
    proof -
      have j: "j \<noteq> i" "loaded j = Some x" using that by (auto split: if_splits)
      then have "j \<in> set pending" using 3(4) [of j] by auto
      then have "fill_hash (f j) \<noteq> fill_hash (f i)" using 3(3) j(1) by auto
      then show ?thesis using t(3) 3(5) [OF j(2)] by simp
    qed
  qed (use 3 t in auto)
  then show ?case using r t by (simp add: RecordFill_parts)
qed simp_all

text \<open>C8: fills may be recorded at the same time as long as those of one order are not: any schedule of
  their reads and saves in which no fill is saved between the read and the save of another fill of the
  same order leaves the table that recording them one after the other would, in the order of the saves.\<close>

theorem isolated_fills_serial:
  assumes "\<forall>x. length (keccak256 C x) = 32" and "table_ok C table" and "\<forall>a b. returns (quo a b)"
    and "isolated f es []"
  shows "run_fills C quo f es Map.empty table = fills_in_turn C quo f (saved_fills es) table"
  using assms by (intro run_fills_serial) auto

definition sample_fills :: "bytes \<Rightarrow> nat \<Rightarrow> fill_record" where
  "sample_fills h i =
     \<lparr>fr_OrderHash = (if i = 0 then ''0x'' @ hex_encode h else ''0x0''), fr_FilledTakerAssetAmount = ''100'', fr_Cancel = False\<rparr>"

theorem isolated_fills_serial_witness:
  "\<exists>row :: unit db_order.
     run_fills sample_crypto (\<lambda>a b. Ret ()) (sample_fills (OrderHash row)) [ReadFill 0, ReadFill 1, SaveFill 1, SaveFill 0]
       Map.empty [row] =
     fills_in_turn sample_crypto (\<lambda>a b. Ret ()) (sample_fills (OrderHash row)) [1, 0] [row]"
proof -
  obtain row where r: "index_reachable sample_crypto (\<lambda>a b. Ret ()) [row]" using sample_table by blast
  have "fill_hash (sample_fills (OrderHash row) 1) \<noteq> fill_hash (sample_fills (OrderHash row) 0)"
    using trim_prefix_append [of "''0x''"]
    by (simp add: fill_hash_def sample_fills_def hex_DecodeString_def trim_prefix_def has_prefix_def)
  then have "isolated (sample_fills (OrderHash row)) [ReadFill 0, ReadFill 1, SaveFill 1, SaveFill 0] []" by simp
  then show ?thesis
    using isolated_fills_serial [OF sample_keccak_length reachable_table_ok [OF r sample_keccak_length], of "\<lambda>a b. Ret ()"]
    by fastforce
qed

section \<open>Overlapping fills of one order\<close>

text \<open>A fill of an indexed order reads that order.\<close>

lemma RecordFill_read_row:
  assumes ok: "table_ok C table" and row: "row \<in> set table" and h: "fill_hash fill = Inr (OrderHash row)"
    and n: "big_SetString (fr_FilledTakerAssetAmount fill) = Some n"
  obtains ord where "RecordFill_read fill table = Ret (Inr ord)" "wf_order (types_Order ord)"
    "Order_Hash C (types_Order ord) = Ret (OrderHash row)" "Signature (types_Order ord) = Signature (types_Order row)"
    "Maker (types_Order ord) = Maker (types_Order row)"
    "TakerAssetAmount (types_Order ord) = TakerAssetAmount (types_Order row)"
    "TakerAssetAmountFilled (types_Order ord) = abi_U256 (int (be_nat (TakerAssetAmountFilled (types_Order row))) + n)"
    "Status ord = Status row" "Cancelled (types_Order ord) \<longleftrightarrow> Cancelled (types_Order row) \<or> fr_Cancel fill"
proof -
  have amount: "fr_FilledTakerAssetAmount fill \<noteq> []" using n by (auto simp: big_SetString_def dec_parse_nat_def)
  then have reads: "RecordFill_read fill table \<noteq> Ret (Inl e)" for e
    using h n table_row_unique(1) [OF ok row]
    by (cases "Uint256_Big (TakerAssetAmountFilled (types_Order row))")
      (simp_all add: RecordFill_read_def fill_hash_def Let_def)
  show thesis
  proof (rule RecordFill_read_cases [OF ok, of fill])
    show "RecordFill_read fill table = Ret (Inl e) \<Longrightarrow> thesis" for e using reads by simp
  next
    fix row' ord n'
    assume found: "RecordFill_read fill table = Ret (Inr ord)" "row' \<in> set table"
      "fill_hash fill = Inr (OrderHash row')" "wf_order (types_Order ord)"
      "Order_Hash C (types_Order ord) = Ret (OrderHash row')" "Signature (types_Order ord) = Signature (types_Order row')"
      "Maker (types_Order ord) = Maker (types_Order row')"
      "TakerAssetAmount (types_Order ord) = TakerAssetAmount (types_Order row')"
      "TakerAssetAmountFilled (types_Order ord) =
        abi_U256 (int (be_nat (TakerAssetAmountFilled (types_Order row'))) + n')"
      "fr_FilledTakerAssetAmount fill \<noteq> [] \<Longrightarrow> big_SetString (fr_FilledTakerAssetAmount fill) = Some n'"
      "Status ord = Status row'" "Cancelled (types_Order ord) \<longleftrightarrow> Cancelled (types_Order row') \<or> fr_Cancel fill"
    have "row' = row" using found(2,3) h table_row_unique(2) [OF ok row, of row'] by simp
    moreover have "n' = n" using found(10) [OF amount] n by simp
    ultimately show thesis using found(1,4-9,11,12) by (intro that [of ord]) simp_all
  qed
qed

text \<open>Two fills of one order that are both read before the first is saved: the first one is lost.\<close>

lemma overlapping_fill_lost:
  assumes C: "\<forall>x. length (keccak256 C x) = 32" and ok: "table_ok C table" and quo: "\<forall>a b. returns (quo a b)"
    and row: "row \<in> set table" and h: "fill_hash (f 0) = Inr (OrderHash row)" "fill_hash (f 1) = Inr (OrderHash row)"
    and n: "big_SetString (fr_FilledTakerAssetAmount (f 0)) = Some (int n0)"
      "big_SetString (fr_FilledTakerAssetAmount (f 1)) = Some (int n1)"
    and fits: "be_nat (TakerAssetAmountFilled (types_Order row)) + n1 < 2 ^ 256"
  shows "\<exists>table'. run_fills C quo f [ReadFill 0, ReadFill 1, SaveFill 0, SaveFill 1] Map.empty table = Ret table' \<and>
    (\<forall>r \<in> set table'. OrderHash r = OrderHash row \<longrightarrow>
      be_nat (TakerAssetAmountFilled (types_Order r)) = be_nat (TakerAssetAmountFilled (types_Order row)) + n1)"
proof -
  obtain o0 where o0: "RecordFill_read (f 0) table = Ret (Inr o0)" "wf_order (types_Order o0)"
    "Order_Hash C (types_Order o0) = Ret (OrderHash row)" "Signature (types_Order o0) = Signature (types_Order row)"
    "Maker (types_Order o0) = Maker (types_Order row)" "TakerAssetAmount (types_Order o0) = TakerAssetAmount (types_Order row)"
    by (rule RecordFill_read_row [OF ok row h(1) n(1)])
  obtain o1 where o1: "RecordFill_read (f 1) table = Ret (Inr o1)" "wf_order (types_Order o1)"
    "Order_Hash C (types_Order o1) = Ret (OrderHash row)" "Signature (types_Order o1) = Signature (types_Order row)"
    "Maker (types_Order o1) = Maker (types_Order row)" "TakerAssetAmount (types_Order o1) = TakerAssetAmount (types_Order row)"
    and filled: "TakerAssetAmountFilled (types_Order o1) =
      abi_U256 (int (be_nat (TakerAssetAmountFilled (types_Order row))) + int n1)"
    by (rule RecordFill_read_row [OF ok row h(2) n(2)])
  obtain new0 where s0: "Order_Save C quo o0 (Status o0) table =
      Ret (None, map (\<lambda>r. if OrderHash r = OrderHash row then update_row new0 row else r) table)"
    by (rule Order_Save_updates [OF ok row refl refl o0(2-6) quo])
  let ?t = "map (\<lambda>r. if OrderHash r = OrderHash row then update_row new0 row else r) table"
  let ?row = "update_row new0 row"
  have "RecordFill C quo (f 0) table = Ret (None, ?t)" using o0 s0 by (simp add: RecordFill_parts RecordFill_save_def)
  then have ok': "table_ok C ?t" by (rule RecordFill_ok [OF C ok])
  have row': "?row \<in> set ?t" using row by (auto simp: image_iff)
  have same: "OrderHash ?row = OrderHash row" "Signature (types_Order ?row) = Signature (types_Order row)"
    "Maker (types_Order ?row) = Maker (types_Order row)" "TakerAssetAmount (types_Order ?row) = TakerAssetAmount (types_Order row)"
    by (simp_all add: update_row_def)
  have o1': "Order_Hash C (types_Order o1) = Ret (OrderHash ?row)" "Signature (types_Order o1) = Signature (types_Order ?row)"
    "Maker (types_Order o1) = Maker (types_Order ?row)" "TakerAssetAmount (types_Order o1) = TakerAssetAmount (types_Order ?row)"
    using o1 same by simp_all
  obtain new1 pool where s1: "Order_Save C quo o1 (Status o1) ?t =
      Ret (None, map (\<lambda>r. if OrderHash r = OrderHash ?row then update_row new1 ?row else r) ?t)"
    "types_Order new1 = (types_Order o1)\<lparr>PoolID := pool\<rparr>"
    by (rule Order_Save_updates [OF ok' row' refl refl o1(2) o1' quo])
  let ?t' = "map (\<lambda>r. if OrderHash r = OrderHash ?row then update_row new1 ?row else r) ?t"
  have "run_fills C quo f [ReadFill 0, ReadFill 1, SaveFill 0, SaveFill 1] Map.empty table = Ret ?t'"
    using o0(1) o1(1) s0 s1(1) by (simp add: RecordFill_save_def)
  moreover have "be_nat (TakerAssetAmountFilled (types_Order (update_row new1 ?row))) =
      be_nat (TakerAssetAmountFilled (types_Order row)) + n1"
  proof -
    have "int (be_nat (TakerAssetAmountFilled (types_Order (update_row new1 ?row)))) =
        (int (be_nat (TakerAssetAmountFilled (types_Order row))) + int n1) mod 2 ^ 256"
      using s1(2) filled by (simp add: update_row_def be_nat_abi_U256)
    also have "\<dots> = int (be_nat (TakerAssetAmountFilled (types_Order row)) + n1)"
      using fits by (simp flip: of_nat_add of_nat_power add: zmod_int [symmetric])
    finally show ?thesis by (simp only: of_nat_eq_iff)
  qed
  moreover have "OrderHash (update_row new1 ?row) = OrderHash row" by (simp add: update_row_def)
  ultimately show ?thesis using same(1) by (intro exI [of _ ?t']) auto
qed

text \<open>A fill that was read before a cancellation or a spend changed the status of its order writes the old
  status back: a cancelled order is open again.\<close>

lemma stale_fill_reopens:
  assumes ok: "table_ok C table" and quo: "\<forall>a b. returns (quo a b)"
    and row: "row \<in> set table" "Status row = StatusOpen" "\<not> Cancelled (types_Order row)" "\<not> fr_Cancel fill"
    and h: "fill_hash fill = Inr (OrderHash row)" and n: "big_SetString (fr_FilledTakerAssetAmount fill) = Some (int n)"
    and fits: "be_nat (TakerAssetAmountFilled (types_Order row)) + n < 2 ^ 256"
    and unfilled: "be_nat (TakerAssetAmountFilled (types_Order row)) + n <
      (if 100 < be_nat (TakerAssetAmount (types_Order row)) then be_nat (TakerAssetAmount (types_Order row)) * 99 div 100
       else be_nat (TakerAssetAmount (types_Order row)))"
    and cancelled: "table' = snd (update_where (\<lambda>r. OrderHash r = OrderHash row) (\<lambda>r. r\<lparr>Status := StatusCancelled\<rparr>) table)"
  shows "\<exists>r table''. RecordFill_read fill table = Ret r \<and> RecordFill_save C quo r table' = Ret (None, table'') \<and>
    (\<forall>x \<in> set table'. OrderHash x = OrderHash row \<longrightarrow> Status x = StatusCancelled) \<and>
    (\<forall>x \<in> set table''. OrderHash x = OrderHash row \<longrightarrow> Status x = StatusOpen)"
proof -
  obtain ord where ord: "RecordFill_read fill table = Ret (Inr ord)" "wf_order (types_Order ord)"
    "Order_Hash C (types_Order ord) = Ret (OrderHash row)" "Signature (types_Order ord) = Signature (types_Order row)"
    "Maker (types_Order ord) = Maker (types_Order row)" "TakerAssetAmount (types_Order ord) = TakerAssetAmount (types_Order row)"
    "TakerAssetAmountFilled (types_Order ord) = abi_U256 (int (be_nat (TakerAssetAmountFilled (types_Order row))) + int n)"
    "Status ord = StatusOpen" "\<not> Cancelled (types_Order ord)"
    using RecordFill_read_row [OF ok row(1) h n] row by metis
  let ?row = "row\<lparr>Status := StatusCancelled\<rparr>"
  have t': "table' = map (\<lambda>r. if OrderHash r = OrderHash row then r\<lparr>Status := StatusCancelled\<rparr> else r) table"
    using cancelled by (simp add: update_where_def)
  have ok': "table_ok C table'"
    using set_status_ok [OF ok, of StatusCancelled] cancelled by (simp add: StatusCancelled_def StatusOpen_def)
  have row': "?row \<in> set table'" using row(1) by (auto simp: t' image_iff)
  have same: "OrderHash ?row = OrderHash row" "Signature (types_Order ord) = Signature (types_Order ?row)"
    "Maker (types_Order ord) = Maker (types_Order ?row)" "TakerAssetAmount (types_Order ord) = TakerAssetAmount (types_Order ?row)"
    "Order_Hash C (types_Order ord) = Ret (OrderHash ?row)" using ord by simp_all
  obtain new where s: "Order_Save C quo ord (Status ord) table' =
      Ret (None, map (\<lambda>r. if OrderHash r = OrderHash ?row then update_row new ?row else r) table')"
    "Status new = (if filled_up (types_Order ord) then StatusFilled
       else if Cancelled (types_Order ord) then StatusCancelled else Status ord)"
    by (rule Order_Save_updates [OF ok' row' refl refl ord(2) same(5,2-4) quo])
  have "int (be_nat (TakerAssetAmountFilled (types_Order ord))) =
      int (be_nat (TakerAssetAmountFilled (types_Order row)) + n)"
    using fits ord(7) by (simp add: be_nat_abi_U256 flip: of_nat_add of_nat_power add: zmod_int [symmetric])
  then have "be_nat (TakerAssetAmountFilled (types_Order ord)) = be_nat (TakerAssetAmountFilled (types_Order row)) + n"
    by (simp only: of_nat_eq_iff)
  then have "\<not> filled_up (types_Order ord)" using unfilled ord(6) by (auto simp: filled_up_iff not_le split: if_splits)
  then have "Status new = StatusOpen" using s(2) ord by simp
  then show ?thesis
    using ord(1) s(1) by (intro exI [of _ "Inr ord"] exI conjI) (auto simp: RecordFill_save_def t' update_row_def)
qed

end
