(* ===== verification/Startup.thy ===== *)
theory Startup
  imports Monitors Commands Pools
begin

text \<open>
  How the monitors come to run: the constructors that dial a node (\<open>NewRPC...\<close> in \<open>monitor/\<close>, \<open>funds\<close>,
  \<open>config\<close>, \<open>pool\<close>) and the programs that read the arguments, open the channels and start one consumer
  (\<open>cmd/...monitor\<close>, \<open>cmd/initialbloom\<close>). A consumer is its method \<open>Consume\<close>. Dialling is the parameter
  \<open>dial\<close>; what a connection can be asked is a record. An error value of a program is what it logs before
  it ends; arguments are those of the command, the program's name first.
\<close>

section \<open>Errors on the way\<close>

definition go_try :: "(err + 'a) go \<Rightarrow> ('a \<Rightarrow> (err + 'b) go) \<Rightarrow> (err + 'b) go" where
  "go_try r f = go_bind r (\<lambda>x. case x of Inl e \<Rightarrow> Ret (Inl e) | Inr a \<Rightarrow> f a)"

lemma go_try_simps [simp]:
  "go_try (Ret (Inl e)) f = Ret (Inl e)" "go_try (Ret (Inr a)) f = f a" "go_try (Panic p) f = Panic p"
  by (simp_all add: go_try_def)

text \<open>\<open>log.Fatalf\<close> with a text before the error.\<close>

definition fatal :: "string \<Rightarrow> err + 'a \<Rightarrow> err + 'a" where
  "fatal what r = map_sum (\<lambda>e. what @ e) id r"

lemma fatal_simps [simp]: "fatal what (Inl e) = Inl (what @ e)" "fatal what (Inr a) = Inr a"
  by (simp_all add: fatal_def)

lemma fatal_Inr: "fatal what r = Inr a \<longleftrightarrow> r = Inr a"
  by (cases r) simp_all

lemma go_map_fatal_Inr: "go_map (fatal what) r = Ret (Inr a) \<longleftrightarrow> r = Ret (Inr a)"
  by (cases r) (simp_all add: fatal_Inr)

lemma go_try_Inr: "go_try r f = Ret (Inr b) \<longleftrightarrow> (\<exists>a. r = Ret (Inr a) \<and> f a = Ret (Inr b))"
  by (cases r) (auto simp: go_try_def split: sum.splits)

section \<open>Connections\<close>

record 'v node =
  n_exchange :: "'v exchange_rpc"
  n_tokens :: "'v token_rpc"
  n_FilterLogs :: "'v log_filter"
  n_CallContract :: contract_caller
  n_SyncProgress :: "'v \<Rightarrow> err option"
  n_NetworkID :: "'v \<Rightarrow> err option"

type_synonym 'v dialer = "string \<Rightarrow> err + 'v node"

text \<open>A connection that answers: \<open>SyncProgress\<close> is called to see whether it does.\<close>

definition dial_synced :: "'v dialer \<Rightarrow> string \<Rightarrow> 'v \<Rightarrow> err + 'v node" where
  "dial_synced dial rpcURL v =
     try_bind (dial rpcURL) (\<lambda>conn. case n_SyncProgress conn v of Some e \<Rightarrow> Inl e | None \<Rightarrow> Inr conn)"

definition NewRpcFeeToken :: "'v dialer \<Rightarrow> string \<Rightarrow> 'v \<Rightarrow> err + 'v exchange_rpc \<times> (address \<rightharpoonup> asset_data)" where
  "NewRpcFeeToken dial rpcURL v = try_bind (dial_synced dial rpcURL v) (\<lambda>conn. Inr (n_exchange conn, Map.empty))"

definition NewRpcTokenProxy :: "'v dialer \<Rightarrow> string \<Rightarrow> 'v \<Rightarrow> err + 'v exchange_rpc \<times> proxy_map" where
  "NewRpcTokenProxy dial rpcURL v = try_bind (dial_synced dial rpcURL v) (\<lambda>conn. Inr (n_exchange conn, Map.empty))"

definition dial_routing :: "'v dialer \<Rightarrow> string \<Rightarrow> 'v \<Rightarrow> err + 'v routing" where
  "dial_routing dial rpcURL v =
     try_bind (dial_synced dial rpcURL v) (\<lambda>conn. Inr (NewRpcRoutingBalanceChecker (n_tokens conn)))"

text \<open>The contract of a filter, which \<open>FilterContract_Filter\<close> calls.\<close>

definition NewRPCFilterContract :: "'v dialer \<Rightarrow> address \<Rightarrow> string \<Rightarrow> 'v \<Rightarrow> err + address \<times> contract_caller" where
  "NewRPCFilterContract dial address rpcURL v =
     try_bind (dial_synced dial rpcURL v) (\<lambda>conn. Inr (address, n_CallContract conn))"

text \<open>The validator's routing checker listens on the channel of invalidations, if there is one: its
  \<open>Consume\<close> is \<open>routing_Consume\<close>.\<close>

definition NewRpcOrderValidator ::
  "'v dialer \<Rightarrow> string \<Rightarrow> 't \<Rightarrow> 'p \<Rightarrow> channel_kind option \<Rightarrow> 'v
     \<Rightarrow> err + ('v routing \<times> 't \<times> 'p) \<times> channel_kind option"
where
  "NewRpcOrderValidator dial rpcUrl fees proxies invalidationChannel v =
     try_bind (dial_routing dial rpcUrl v) (\<lambda>checker. Inr ((checker, fees, proxies), invalidationChannel))"

section \<open>Addresses given as text\<close>

text \<open>\<open>common.HexToAddress\<close> of go-ethereum, which never fails.\<close>

definition geth_HexToAddress :: "string \<Rightarrow> address" where
  "geth_HexToAddress s = (let b = FromHex s in zero_bytes (20 - length b) @ drop (length b - 20) b)"

definition address_Big :: "address \<Rightarrow> int" where "address_Big a = int (be_nat a)"

lemma length_geth_HexToAddress [simp]: "length (geth_HexToAddress s) = 20"
  by (simp add: geth_HexToAddress_def Let_def)

lemma hex_prefix_encode: "hex_prefix (hex_encode b) = b"
proof (induction b)
  case (Cons x b)
  have "word_of_nat (unat x div 16 * 16 + unat x mod 16) = x" by (rule word_of_div_mod_16)
  with Cons show ?case by simp
qed simp

lemma even_hex_encode: "even (length (hex_encode b))"
  by (induction b) simp_all

text \<open>The text of an address names that address.\<close>

lemma geth_HexToAddress_text: "length a = 20 \<Longrightarrow> geth_HexToAddress (''0x'' @ hex_encode a) = a"
  by (simp add: geth_HexToAddress_def FromHex_def even_hex_encode hex_prefix_encode zero_bytes_def)

text \<open>A text that is no address names one as well: without a digit, the zero address.\<close>

lemma geth_HexToAddress_digitless:
  assumes "from_hex_char c = None" and "take 2 (c # s) \<noteq> ''0x''" "take 2 (c # s) \<noteq> ''0X''" and "odd (length s)"
  shows "geth_HexToAddress (c # s) = zero_address"
proof -
  have "hex_prefix (c # s) = []" using assms(1,4) by (cases s) auto
  then show ?thesis using assms(2-4) by (cases s) (auto simp: geth_HexToAddress_def FromHex_def zero_address_def)
qed

lemma be_bytes_address_Big: "length a = 20 \<Longrightarrow> BigToAddress (address_Big a) = a"
  using be_bytes_be_nat [of a] by (simp add: BigToAddress_def address_Big_def)

text \<open>An address without leading zeros is looked up as it is; one with leading zeros without them, under
  bytes that no log has put into the filter.\<close>

lemma address_Big_full: "length a = 20 \<Longrightarrow> hd a \<noteq> 0 \<Longrightarrow> big_Bytes (address_Big a) = a"
  using big_Bytes_full [of a] by (cases a) (simp_all add: address_Big_def)

lemma address_Big_short: "length a = 20 \<Longrightarrow> hd a = 0 \<Longrightarrow> length (big_Bytes (address_Big a)) < 20"
proof -
  assume a: "length a = 20" "hd a = 0"
  then obtain b where b: "a = 0 # b" "length b = 19" by (cases a) auto
  then have "be_nat a < 256 ^ 19" using be_nat_less [of b] by (simp add: be_nat_Cons)
  then show ?thesis using length_min_bytes_le [of "be_nat a" 19] by (simp add: big_Bytes_def address_Big_def)
qed

section \<open>The constructors of the monitors\<close>

type_synonym 'v block_consumer = "'v delivery \<Rightarrow> 'v \<Rightarrow> 'v handled go"

text \<open>The filter of the fill monitor is kept in a store, which \<open>Reader\<close> and \<open>Save\<close> reach.\<close>

definition NewFillBloom_at :: "string \<Rightarrow> (err + fill_bloom \<times> stored_object) go" where
  "NewFillBloom_at storedURI =
     go_map (\<lambda>st. case st of None \<Rightarrow> Inl ''Invalid stored object URI'' | Some s \<Rightarrow> Inr (NewFillBloom, s))
       (GetStoredObject storedURI)"

definition initialize_from ::
  "base_hashes \<Rightarrow> (stored_object \<Rightarrow> 'u \<Rightarrow> stored_bloom) \<Rightarrow> int \<Rightarrow> stored_object \<Rightarrow> (fill_bloom \<times> 'u) log_filter
     \<Rightarrow> int \<Rightarrow> bytes list \<Rightarrow> fill_bloom \<times> 'u \<Rightarrow> ((fill_bloom \<times> 'u) \<times> err option) go option"
where
  "initialize_from H Reader chunk store FilterLogs endBlock addresses s =
     map_option (go_map (\<lambda>(fb, e). ((fb, snd s), e)))
       (fb_Initialize H (Reader store (snd s)) FilterLogs chunk endBlock addresses s (fst s))"

definition NewRPCFillBlockConsumer ::
  "crypto \<Rightarrow> base_hashes \<Rightarrow> json_text \<Rightarrow> block_parse \<Rightarrow> (stored_object \<Rightarrow> 'u \<Rightarrow> stored_bloom)
     \<Rightarrow> (stored_object \<Rightarrow> fill_bloom \<times> 'u \<Rightarrow> err option \<times> fill_bloom \<times> 'u) \<Rightarrow> int \<Rightarrow> (fill_bloom \<times> 'u) dialer
     \<Rightarrow> string \<Rightarrow> string \<Rightarrow> (fill_bloom \<times> 'u) publisher \<Rightarrow> stored_object
     \<Rightarrow> err + ((fill_bloom \<times> 'u) delivery \<Rightarrow> fill_bloom \<times> 'u \<Rightarrow> (fill_bloom \<times> 'u) handled go option)"
where
  "NewRPCFillBlockConsumer C H enc parse Reader Save chunk dial rpcURL exchangeAddress pub store =
     try_bind (dial rpcURL) (\<lambda>client. Inr
       (fillBlockConsumer_Consume C H enc parse (n_FilterLogs client) pub
          (initialize_from H Reader chunk store (n_FilterLogs client)) (\<lambda>s. snd (Save store s))
          (address_Big (geth_HexToAddress exchangeAddress))))"

definition NewRPCCancelUpToBlockConsumer ::
  "crypto \<Rightarrow> json_text \<Rightarrow> block_parse \<Rightarrow> 'v dialer \<Rightarrow> string \<Rightarrow> string \<Rightarrow> 'v publisher \<Rightarrow> err + 'v block_consumer"
where
  "NewRPCCancelUpToBlockConsumer C enc parse dial rpcURL exchangeAddress pub =
     try_bind (dial rpcURL) (\<lambda>client. Inr
       (cancelBlockConsumer_Consume C enc parse (n_FilterLogs client) pub (address_Big (geth_HexToAddress exchangeAddress))))"

definition NewRPCMultisigBlockConsumer ::
  "crypto \<Rightarrow> block_parse \<Rightarrow> (bytes \<Rightarrow> 'v \<Rightarrow> 'v) \<Rightarrow> 'v dialer \<Rightarrow> string \<Rightarrow> string \<Rightarrow> err + 'v block_consumer"
where
  "NewRPCMultisigBlockConsumer C parse alert dial rpcURL multisigAddress =
     try_bind (dial rpcURL) (\<lambda>client. Inr
       (multisigBlockConsumer_Consume C parse (n_FilterLogs client) alert (address_Big (geth_HexToAddress multisigAddress))))"

text \<open>The service in redis; the address of a log is never nil.\<close>

definition register_affiliate :: "'v redis \<Rightarrow> (affiliate \<Rightarrow> string) \<Rightarrow> address \<Rightarrow> 'v \<Rightarrow> err option \<times> 'v" where
  "register_affiliate R aenc a v =
     (case KSet R (account_key ''affiliate'' a) (aenc \<lparr>aff_BaseFee = None, FeePercent = 100\<rparr>) v of
        (result, v') \<Rightarrow> (reply_err result, v'))"

lemma register_affiliate_Set:
  "a \<noteq> [] \<Longrightarrow> AffiliateService_Set R aenc a \<lparr>aff_BaseFee = None, FeePercent = 100\<rparr> v = Ret (register_affiliate R aenc a v)"
  by (simp add: AffiliateService_Set_def register_affiliate_def deref_def)

definition NewRPCAffiliateBlockConsumer ::
  "crypto \<Rightarrow> block_parse \<Rightarrow> (affiliate \<Rightarrow> string) \<Rightarrow> 'v dialer \<Rightarrow> string \<Rightarrow> string \<Rightarrow> 'v redis \<Rightarrow> err + 'v block_consumer"
where
  "NewRPCAffiliateBlockConsumer C parse aenc dial rpcURL affiliateSignupAddress redisClient =
     try_bind (dial rpcURL) (\<lambda>client. Inr
       (affiliateBlockConsumer_Consume C parse (n_FilterLogs client) (register_affiliate redisClient aenc)
          (address_Big (geth_HexToAddress affiliateSignupAddress))))"

text \<open>The fee token of an exchange as the spend records name it: asset data shorter than an address panics,
  data of another kind gives the zero address.\<close>

definition exchange_fee_token :: "'v exchange_rpc \<Rightarrow> address \<Rightarrow> 'v \<Rightarrow> (err + string) go" where
  "exchange_fee_token rpc exchange v =
     (case NewExchange rpc exchange v of
        Some e \<Rightarrow> Ret (Inl e)
      | None \<Rightarrow>
          (case ZRX_ASSET_DATA rpc exchange v of
             Inl e \<Rightarrow> Ret (Inl e)
           | Inr d \<Rightarrow> go_map (\<lambda>a. Inr (sprintf_hex a)) (AssetData_Address (go_copy (zero_bytes (length d)) d))))"

definition NewRPCAllowanceBlockConsumer ::
  "crypto \<Rightarrow> json_text \<Rightarrow> block_parse \<Rightarrow> 'v dialer \<Rightarrow> string \<Rightarrow> string \<Rightarrow> 'v publisher \<Rightarrow> 'v
     \<Rightarrow> (err + 'v block_consumer) go"
where
  "NewRPCAllowanceBlockConsumer C enc parse dial rpcURL exchangeAddress pub v =
     go_try (Ret (dial rpcURL)) (\<lambda>client.
       let exchange = geth_HexToAddress exchangeAddress in
       go_try (exchange_fee_token (n_exchange client) exchange v) (\<lambda>feeTokenAddress.
       go_try (Ret (GetAssetProxy (n_exchange client) exchange RoboDexProxyID v)) (\<lambda>roboDexProxyAddress.
       go_try (Ret (GetAssetProxy (n_exchange client) exchange ERC20ProxyID v)) (\<lambda>tokenProxyAddress.
       Ret (Inr (allowanceBlockConsumer_Consume C enc parse (n_FilterLogs client) pub feeTokenAddress
         (address_Big roboDexProxyAddress) (address_Big tokenProxyAddress)))))))"

definition NewRPCApprovalBlockConsumer ::
  "crypto \<Rightarrow> json_text \<Rightarrow> block_parse \<Rightarrow> 'v dialer \<Rightarrow> string \<Rightarrow> string \<Rightarrow> 'v publisher \<Rightarrow> 'v
     \<Rightarrow> (err + 'v block_consumer) go"
where
  "NewRPCApprovalBlockConsumer C enc parse dial rpcURL exchangeAddress pub v =
     go_try (Ret (dial rpcURL)) (\<lambda>client.
       let exchange = geth_HexToAddress exchangeAddress in
       go_try (exchange_fee_token (n_exchange client) exchange v) (\<lambda>feeTokenAddress.
       go_try (Ret (GetAssetProxy (n_exchange client) exchange ERC721ProxyID v)) (\<lambda>tokenProxyAddress.
       Ret (Inr (approvalBlockConsumer_Consume C enc parse (n_FilterLogs client) pub feeTokenAddress
         (address_Big tokenProxyAddress))))))"

text \<open>Nothing tells the balance checker of the spend monitor of new blocks, so it never has a cache.\<close>

definition uncached_checker :: "'v routing \<Rightarrow> 'v checker" where
  "uncached_checker funds =
     \<lparr>GetBalance = (\<lambda>asset user v. go_map fst (routing_GetBalance asset user v funds)),
      GetAllowance = (\<lambda>asset owner spender v. go_map fst (routing_GetAllowance asset owner spender v funds))\<rparr>"

lemma uncached_checker_keeps:
  "lookupCache funds = None \<Longrightarrow> routing_GetBalance asset user v funds = Ret (r, funds') \<Longrightarrow> funds' = funds"
  "lookupCache funds = None \<Longrightarrow> routing_GetAllowance asset user spender v funds = Ret (r, funds') \<Longrightarrow> funds' = funds"
  by (auto simp: routing_GetBalance_def routing_GetAllowance_def cached_def go_simps)

definition NewRPCSpendBlockConsumer ::
  "crypto \<Rightarrow> json_text \<Rightarrow> block_parse \<Rightarrow> 'v dialer \<Rightarrow> string \<Rightarrow> string \<Rightarrow> 'v publisher \<Rightarrow> 'v
     \<Rightarrow> (err + 'v block_consumer) go"
where
  "NewRPCSpendBlockConsumer C enc parse dial rpcURL exchangeAddress pub v =
     go_try (Ret (dial rpcURL)) (\<lambda>client.
       let exchange = geth_HexToAddress exchangeAddress in
       go_try (exchange_fee_token (n_exchange client) exchange v) (\<lambda>feeTokenAddress.
       go_try (Ret (GetAssetProxy (n_exchange client) exchange ERC20ProxyID v)) (\<lambda>tokenProxyAddress.
       go_try (Ret (dial_routing dial rpcURL v)) (\<lambda>balanceChecker.
       Ret (Inr (spendBlockConsumer_Consume C enc parse (n_FilterLogs client) pub (uncached_checker balanceChecker)
         (go_copy zero_address tokenProxyAddress) feeTokenAddress))))))"

definition NewRPCBlockMonitor :: "'v dialer \<Rightarrow> string \<Rightarrow> int \<Rightarrow> (err + 'v node \<times> ring) go" where
  "NewRPCBlockMonitor dial rpcURL brbSize =
     go_try (Ret (dial rpcURL)) (\<lambda>client.
       if brbSize < 0 then Panic (Panicked ''makeslice: len out of range'')
       else Ret (Inr (client, newBlockRingBuffer (nat brbSize))))"

section \<open>The programs of the monitors\<close>

text \<open>The four monitors of an exchange: redis, node, channel of blocks, channel for what is found, exchange.
  They differ in the consumer and in the text of its error.\<close>

definition exchange_monitor ::
  "string \<Rightarrow> (string \<Rightarrow> string \<Rightarrow> 'v publisher \<Rightarrow> (err + 'v block_consumer) go) \<Rightarrow> (string \<Rightarrow> 'v redis) \<Rightarrow> string list
     \<Rightarrow> (err + channel_kind \<times> 'v block_consumer) go"
where
  "exchange_monitor what New redisAt args =
     go_bind (go_index args 1) (\<lambda>redisURL. go_bind (go_index args 2) (\<lambda>rpcURL. go_bind (go_index args 3) (\<lambda>src.
     go_bind (go_index args 4) (\<lambda>dst. go_bind (go_index args 5) (\<lambda>exchangeAddress.
       go_try (Ret (fatal ''Error constructing consumer: '' (ConsumerFromURI src))) (\<lambda>consumerChannel.
       go_try (Ret (fatal ''Error constructing publisher: '' (PublisherFromURI dst))) (\<lambda>k.
       go_try (go_map (fatal (''Error constructing '' @ what @ '' monitor: ''))
                 (New rpcURL exchangeAddress (publisher_of (redisAt redisURL) k))) (\<lambda>consumer.
       Ret (Inr (consumerChannel, consumer))))))))))"

definition canceluptomonitor where
  "canceluptomonitor C enc parse dial =
     exchange_monitor ''cancelupto'' (\<lambda>rpcURL exchange pub. Ret (NewRPCCancelUpToBlockConsumer C enc parse dial rpcURL exchange pub))"

definition allowancemonitor where
  "allowancemonitor C enc parse dial v =
     exchange_monitor ''allowance'' (\<lambda>rpcURL exchange pub. NewRPCAllowanceBlockConsumer C enc parse dial rpcURL exchange pub v)"

definition erc721approvalmonitor where
  "erc721approvalmonitor C enc parse dial v =
     exchange_monitor ''erc720approval'' (\<lambda>rpcURL exchange pub. NewRPCApprovalBlockConsumer C enc parse dial rpcURL exchange pub v)"

definition spendmonitor where
  "spendmonitor C enc parse dial v =
     exchange_monitor ''spend'' (\<lambda>rpcURL exchange pub. NewRPCSpendBlockConsumer C enc parse dial rpcURL exchange pub v)"

text \<open>The monitors that publish nothing.\<close>

definition multisigmonitor ::
  "crypto \<Rightarrow> block_parse \<Rightarrow> (bytes \<Rightarrow> 'v \<Rightarrow> 'v) \<Rightarrow> 'v dialer \<Rightarrow> string list \<Rightarrow> (err + channel_kind \<times> 'v block_consumer) go"
where
  "multisigmonitor C parse alert dial args =
     go_bind (go_index args 1) (\<lambda>redisURL. go_bind (go_index args 2) (\<lambda>rpcURL. go_bind (go_index args 3) (\<lambda>src.
     go_bind (go_index args 4) (\<lambda>multisigAddress.
       go_try (Ret (fatal ''Error constructing consumer: '' (ConsumerFromURI src))) (\<lambda>consumerChannel.
       go_try (Ret (fatal ''Error constructing multisig monitor: ''
         (NewRPCMultisigBlockConsumer C parse alert dial rpcURL multisigAddress))) (\<lambda>consumer.
       Ret (Inr (consumerChannel, consumer))))))))"

definition affiliatemonitor ::
  "crypto \<Rightarrow> block_parse \<Rightarrow> (affiliate \<Rightarrow> string) \<Rightarrow> 'v dialer \<Rightarrow> (string \<Rightarrow> 'v redis) \<Rightarrow> string list
     \<Rightarrow> (err + channel_kind \<times> 'v block_consumer) go"
where
  "affiliatemonitor C parse aenc dial redisAt args =
     go_bind (go_index args 1) (\<lambda>redisURL. go_bind (go_index args 2) (\<lambda>rpcURL. go_bind (go_index args 3) (\<lambda>src.
     go_bind (go_index args 4) (\<lambda>affiliateSignupAddress.
       go_try (Ret (fatal ''Error constructing consumer: '' (ConsumerFromURI src))) (\<lambda>consumerChannel.
       go_try (Ret (fatal ''Error constructing affiliate monitor: ''
         (NewRPCAffiliateBlockConsumer C parse aenc dial rpcURL affiliateSignupAddress (redisAt redisURL)))) (\<lambda>consumer.
       Ret (Inr (consumerChannel, consumer))))))))"

text \<open>The fill monitor starts with an empty filter; its consumer fills it at the first block.\<close>

definition fillmonitor ::
  "crypto \<Rightarrow> base_hashes \<Rightarrow> json_text \<Rightarrow> block_parse \<Rightarrow> (stored_object \<Rightarrow> 'u \<Rightarrow> stored_bloom)
     \<Rightarrow> (stored_object \<Rightarrow> fill_bloom \<times> 'u \<Rightarrow> err option \<times> fill_bloom \<times> 'u) \<Rightarrow> int \<Rightarrow> (fill_bloom \<times> 'u) dialer
     \<Rightarrow> (string \<Rightarrow> (fill_bloom \<times> 'u) redis) \<Rightarrow> string list
     \<Rightarrow> (err + channel_kind \<times> fill_bloom \<times>
           ((fill_bloom \<times> 'u) delivery \<Rightarrow> fill_bloom \<times> 'u \<Rightarrow> (fill_bloom \<times> 'u) handled go option)) go"
where
  "fillmonitor C H enc parse Reader Save chunk dial redisAt args =
     go_bind (go_index args 1) (\<lambda>redisURL. go_bind (go_index args 2) (\<lambda>rpcURL. go_bind (go_index args 3) (\<lambda>src.
     go_bind (go_index args 4) (\<lambda>dst. go_bind (go_index args 5) (\<lambda>storageURI. go_bind (go_index args 6) (\<lambda>exchangeAddress.
       go_try (Ret (fatal ''Error constructing consumer: '' (ConsumerFromURI src))) (\<lambda>consumerChannel.
       go_try (Ret (fatal ''Error constructing publisher: '' (PublisherFromURI dst))) (\<lambda>k.
       go_try (go_map (fatal ''Error constructing fillbloom: '') (NewFillBloom_at storageURI)) (\<lambda>(fillBloom, store).
       go_try (Ret (fatal ''Error constructing fill monitor: ''
         (NewRPCFillBlockConsumer C H enc parse Reader Save chunk dial rpcURL exchangeAddress
            (publisher_of (redisAt redisURL) k) store))) (\<lambda>consumer.
       Ret (Inr (consumerChannel, fillBloom, consumer))))))))))))"

text \<open>\<open>cmd/blockmonitor\<close>: a buffer of negative size cannot be made, one of size 0 takes no block.\<close>

definition blockmonitor_start ::
  "'v dialer \<Rightarrow> string list \<Rightarrow> (err + 'v node \<times> ring \<times> int \<times> publisher_kind \<times> string) go"
where
  "blockmonitor_start dial args =
     go_bind (go_index args 2) (\<lambda>rpcURL. go_try (blockmonitor args) (\<lambda>(brbSize, pollInterval, pub, key).
       go_try (go_map (fatal ''Error constructing monitor: '') (NewRPCBlockMonitor dial rpcURL brbSize)) (\<lambda>(client, brb).
       Ret (Inr (client, brb, pollInterval, pub, key)))))"

text \<open>\<open>cmd/initialbloom\<close> fills a filter and saves it; \<open>log.Panicf\<close> panics with the error. The first block
  it is told of is read and dropped.\<close>

definition panicf :: "err + 'a \<Rightarrow> 'a go" where
  "panicf r = (case r of Inl e \<Rightarrow> Panic (Panicked e) | Inr a \<Rightarrow> Ret a)"

lemma panicf_simps [simp]: "panicf (Inl e) = Panic (Panicked e)" "panicf (Inr a) = Ret a"
  by (simp_all add: panicf_def)

definition initialbloom_arguments ::
  "'v dialer \<Rightarrow> string list \<Rightarrow> ('v node \<times> int \<times> address \<times> fill_bloom \<times> stored_object) go"
where
  "initialbloom_arguments dial args =
     go_bind (go_index args 1) (\<lambda>rpcURL. go_bind (panicf (dial rpcURL)) (\<lambda>conn.
     go_bind (go_index args 2) (\<lambda>startBlock. go_bind (panicf (Atoi startBlock)) (\<lambda>_.
     go_bind (go_index args 3) (\<lambda>end_text. go_bind (panicf (Atoi end_text)) (\<lambda>endBlock.
     go_bind (go_index args 4) (\<lambda>exchangeAddress. go_bind (go_index args 5) (\<lambda>storedURI.
     go_bind (NewFillBloom_at storedURI) (\<lambda>r. go_bind (panicf r) (\<lambda>(fb, store).
       Ret (conn, endBlock, geth_HexToAddress exchangeAddress, fb, store)))))))))))"

definition initialbloom ::
  "base_hashes \<Rightarrow> (stored_object \<Rightarrow> 'u \<Rightarrow> stored_bloom)
     \<Rightarrow> (stored_object \<Rightarrow> fill_bloom \<times> 'u \<Rightarrow> err option \<times> fill_bloom \<times> 'u) \<Rightarrow> int \<Rightarrow> (fill_bloom \<times> 'u) dialer
     \<Rightarrow> string list \<Rightarrow> 'u \<Rightarrow> (fill_bloom \<times> 'u) go option"
where
  "initialbloom H Reader Save chunk dial args u =
     (case initialbloom_arguments dial args of
        Panic p \<Rightarrow> Some (Panic p)
      | Ret (conn, endBlock, exchange, fb, store) \<Rightarrow>
          map_option (\<lambda>r. go_bind r (\<lambda>(s, e).
              case e of
                Some e \<Rightarrow> Panic (Panicked e)
              | None \<Rightarrow> (case Save store s of (Some e, s') \<Rightarrow> Panic (Panicked e) | (None, s') \<Rightarrow> Ret s')))
            (initialize_from H Reader chunk store (n_FilterLogs conn) endBlock [exchange] (fb, u)))"

section \<open>The lookup of fills\<close>

text \<open>\<open>NewRPCFilledLookup\<close> loads the filter with no last block and no exchange, and drops its error.\<close>

definition NewRPCFilledLookup ::
  "base_hashes \<Rightarrow> (stored_object \<Rightarrow> 'v \<Rightarrow> stored_bloom) \<Rightarrow> int \<Rightarrow> 'v dialer \<Rightarrow> string
     \<Rightarrow> (fill_bloom \<times> stored_object) option \<Rightarrow> 'v \<Rightarrow> (err + 'v exchange_rpc \<times> fill_bloom option) go option"
where
  "NewRPCFilledLookup H Reader chunk dial rpcURL fillBloom v =
     (case dial rpcURL of
        Inl e \<Rightarrow> Some (Ret (Inl e))
      | Inr conn \<Rightarrow>
          (case fillBloom of
             None \<Rightarrow> Some (Ret (Inr (n_exchange conn, None)))
           | Some (fb, store) \<Rightarrow>
               map_option (go_map (\<lambda>(fb', e). Inr (n_exchange conn, Some fb')))
                 (fb_Initialize H (Reader store v) (n_FilterLogs conn) chunk 0 [] v fb)))"

definition lookup_test :: "base_hashes \<Rightarrow> fill_bloom option \<Rightarrow> bloom_test" where
  "lookup_test H fillBloom =
     (case fillBloom of
        None \<Rightarrow> None
      | Some fb \<Rightarrow> if fb_Initialized fb then Some (\<lambda>h. fb_Test H h fb) else None)"

section \<open>What the programs run\<close>

text \<open>A monitor that runs got both channels and its consumer for the exchange it was told of; with one
  argument missing it panics.\<close>

lemma exchange_monitor_runs:
  "exchange_monitor what New redisAt [program, redisURL, rpcURL, blocks_uri, dst, exchange] = Ret (Inr (ch, consumer)) \<longleftrightarrow>
     ConsumerFromURI blocks_uri = Inr ch \<and>
     (\<exists>k. PublisherFromURI dst = Inr k \<and> New rpcURL exchange (publisher_of (redisAt redisURL) k) = Ret (Inr consumer))"
  by (auto simp: exchange_monitor_def go_try_Inr fatal_Inr go_map_fatal_Inr go_index_def)

lemma exchange_monitor_missing:
  "length args < 6 \<Longrightarrow> exchange_monitor what New redisAt args = Panic IndexOutOfRange"
  by (simp add: exchange_monitor_def go_index_def)

text \<open>The cancel monitor watches the exchange whose text it was given.\<close>

lemma canceluptomonitor_runs:
  assumes "dial rpcURL = Inr client" "ConsumerFromURI blocks_uri = Inr ch" "PublisherFromURI dst = Inr k" "length a = 20"
  shows "canceluptomonitor C enc parse dial redisAt [program, redisURL, rpcURL, blocks_uri, dst, ''0x'' @ hex_encode a] =
    Ret (Inr (ch, cancelBlockConsumer_Consume C enc parse (n_FilterLogs client) (publisher_of (redisAt redisURL) k) (address_Big a)))"
  using assms geth_HexToAddress_text [OF assms(4)]
  by (simp add: canceluptomonitor_def exchange_monitor_runs NewRPCCancelUpToBlockConsumer_def)

text \<open>For an exchange with a leading zero byte its look into the bloom filter asks for 19 bytes: a block with
  a cancellation is acknowledged without it.\<close>

definition short_exchange :: address where "short_exchange = 0 # replicate 19 1"

definition short_cancel :: event_log where
  "short_cancel = \<lparr>l_Address = short_exchange, l_Topics = [BigToHash cancelUpToTopic, zero_bytes 32, zero_bytes 32],
     l_Data = zero_bytes 32\<rparr>"

definition short_crypto :: crypto where
  "short_crypto =
     sample_crypto\<lparr>keccak256 := (\<lambda>x. if x = replicate 19 1 then 0 # 1 # zero_bytes 30 else zero_bytes 32)\<rparr>"

lemma short_exchange_Big: "big_Bytes (address_Big short_exchange) = replicate 19 1"
proof -
  have "be_nat short_exchange = be_nat (replicate 19 1)" by (simp add: short_exchange_def be_nat_Cons)
  then show ?thesis using min_bytes_be_nat [of "replicate 19 1"] by (simp add: big_Bytes_def address_Big_def)
qed

lemma leading_zero_missed:
  "cancel_events (address_Big short_exchange) n [short_cancel] = [short_cancel]"
  "sb_Bloom (fst (parse p)) = BytesToBloom (LogsBloom short_crypto [short_cancel]) \<Longrightarrow>
   cancelBlockConsumer_Consume short_crypto enc parse (block_logs [short_cancel]) (trace_publisher k)
     (address_Big short_exchange) (trace_delivery p) t = Ret (Handled (t @ [Acked]))"
proof -
  have "BigToAddress (address_Big short_exchange) = short_exchange"
    by (rule be_bytes_address_Big) (simp add: short_exchange_def)
  then show "cancel_events (address_Big short_exchange) n [short_cancel] = [short_cancel]"
    by (simp add: cancel_events_def cancel_query_def log_matches_def short_cancel_def)
  have neq: "BigToHash n \<noteq> replicate 19 1" "zero_bytes 32 \<noteq> replicate 19 1" "short_exchange \<noteq> replicate 19 1" for n
    by (auto dest: arg_cong [of _ _ length] simp: BigToHash_def short_exchange_def)
  have "bit (bloom9 short_crypto (replicate 19 1)) 1"
    by (simp add: bit_bloom9 bloom_bit_def short_crypto_def)
  moreover have "\<forall>l \<in> set [short_cancel]. \<forall>t \<in> set (l_Address l # l_Topics l). \<not> bit (bloom9 short_crypto t) 1"
    using neq by (simp add: short_cancel_def bit_bloom9 bloom_bit_def short_crypto_def zero_bytes_def)
  ultimately have "\<not> BloomLookup short_crypto (BytesToBloom (LogsBloom short_crypto [short_cancel])) (replicate 19 1)"
    by (rule bloom_rules_out)
  then show "sb_Bloom (fst (parse p)) = BytesToBloom (LogsBloom short_crypto [short_cancel]) \<Longrightarrow>
   cancelBlockConsumer_Consume short_crypto enc parse (block_logs [short_cancel]) (trace_publisher k)
     (address_Big short_exchange) (trace_delivery p) t = Ret (Handled (t @ [Acked]))"
    by (simp add: cancelBlockConsumer_Consume_def Let_def short_exchange_Big then_ack_def)
qed

text \<open>A block monitor with a buffer of size 0 runs, and panics with its first block.\<close>

lemma blockmonitor_size_0: "rb_Add b (newBlockRingBuffer 0) = Panic DivisionByZero"
  by (simp add: rb_Add_def newBlockRingBuffer_def)

lemma blockmonitor_size:
  assumes "blockmonitor_start dial args = Ret (Inr (client, brb, pollInterval, pub, key))"
  shows "\<exists>n. brb = newBlockRingBuffer n"
  using assms
proof -
  obtain rpcURL brbSize where "NewRPCBlockMonitor dial rpcURL brbSize = Ret (Inr (client, brb))"
    using assms by (auto simp: blockmonitor_start_def go_try_Inr go_map_fatal_Inr go_bind_eq_Ret)
  then show ?thesis by (auto simp: NewRPCBlockMonitor_def go_try_Inr split: if_splits)
qed

text \<open>Without a stored filter the lookup has one that is empty and counts as initialised: it finds every order
  unfilled and not cancelled, and never asks the exchange.\<close>

lemma fb_Test_New: "\<not> fb_Test H x NewFillBloom"
  by (auto simp: fb_Test_def NewFillBloom_def bloom_New_def bloom_Test_def list_all_iff intro: exI [of _ 0])

lemma filled_lookup_unpopulated:
  assumes "dial rpcURL = Inr conn" and "Reader store v = Inl e"
  shows "NewRPCFilledLookup H Reader chunk dial rpcURL (Some (NewFillBloom, store)) v =
    Some (Ret (Inr (n_exchange conn, Some (NewFillBloom\<lparr>fb_Initialized := True\<rparr>))))"
proof -
  have "populate H (n_FilterLogs conn) [] chunk 0 v 0 NewFillBloom = Some (Ret (NewFillBloom, None))"
    by (subst populate.simps) simp
  with assms show ?thesis by (simp add: NewRPCFilledLookup_def fb_Initialize_def)
qed

lemma unpopulated_lookup:
  assumes "Order_Hash C ord = Ret h"
  shows "rpc_GetAmountFilled C rpc (lookup_test H (Some (NewFillBloom\<lparr>fb_Initialized := True\<rparr>))) ord w = Ret (zero_uint256, None)"
    "rpc_GetCancelled C rpc (lookup_test H (Some (NewFillBloom\<lparr>fb_Initialized := True\<rparr>))) ord w = Ret (False, None)"
  using assms fb_Test_New [of H h]
  by (simp_all add: lookup_test_def rpc_GetAmountFilled_def rpc_GetCancelled_def fb_Test_def)

section \<open>The first filter\<close>

lemma initialbloom_saves:
  assumes node: "dial rpcURL = Inr conn" "n_FilterLogs conn = node_logs logs_at"
    and numbers: "Atoi start_text = Inr startBlock" "Atoi end_text = Inr endBlock"
    and blocks: "0 < chunk" "0 < endBlock" "endBlock + chunk < 2 ^ 63"
    and data: "\<forall>n. list_all (\<lambda>l. 32 \<le> length (l_Data l)) (logs_at n)"
    and exchange: "length a = 20"
    and empty_store: "GetStoredObject uri = Ret (Some store)" "Reader store u = Inl missing"
  shows "\<exists>fb. initialbloom H Reader Save chunk dial
        [program, rpcURL, start_text, end_text, ''0x'' @ hex_encode a, uri] u =
      Some (case Save store (fb, u) of (None, s) \<Rightarrow> Ret s | (Some e, s) \<Rightarrow> Panic (Panicked e)) \<and>
    fb_Initialized fb \<and>
    (\<forall>n x. 0 \<le> n \<and> n \<le> endBlock \<and> x \<in> fill_hashes logs_at [a] n \<longrightarrow> fb_Test H x fb)"
proof -
  from fill_bloom_complete [OF blocks data, of H missing "[a]" "(NewFillBloom, u)"] obtain fb where
    fb: "fb_Initialize H (Inl missing) (node_logs logs_at) chunk endBlock [a] (NewFillBloom, u) NewFillBloom =
      Some (Ret (fb, None))" "fb_Initialized fb"
      "\<forall>n x. 0 \<le> n \<and> n \<le> endBlock \<and> x \<in> fill_hashes logs_at [a] n \<longrightarrow> fb_Test H x fb" by blast
  have "initialbloom_arguments dial [program, rpcURL, start_text, end_text, ''0x'' @ hex_encode a, uri] =
      Ret (conn, endBlock, a, NewFillBloom, store)"
    using node(1) numbers empty_store(1) geth_HexToAddress_text [OF exchange]
    by (simp add: initialbloom_arguments_def go_index_def NewFillBloom_at_def)
  with fb node(2) empty_store(2) show ?thesis
    by (intro exI [of _ fb]) (auto simp: initialbloom_def initialize_from_def split: prod.splits option.splits)
qed

text \<open>C28: \<open>cmd/initialbloom\<close>, given a node, the last block, an exchange and a store without a filter, ends:
  with what saving the filter gives, and the filter it saves tests positive for the order hash of every
  fill or cancel event of the queried topics that the exchange has emitted up to that block. A negative
  answer of the filter is proof of no such event.\<close>

theorem initialbloom_complete:
  assumes node: "dial rpcURL = Inr conn" "n_FilterLogs conn = node_logs logs_at"
    and numbers: "Atoi start_text = Inr startBlock" "Atoi end_text = Inr endBlock"
    and blocks: "0 < chunk" "0 < endBlock" "endBlock + chunk < 2 ^ 63"
    and data: "\<forall>n. list_all (\<lambda>l. 32 \<le> length (l_Data l)) (logs_at n)"
    and exchange: "length a = 20"
    and empty_store: "GetStoredObject uri = Ret (Some store)" "Reader store u = Inl missing"
  shows "\<exists>fb. initialbloom H Reader Save chunk dial
        [program, rpcURL, start_text, end_text, ''0x'' @ hex_encode a, uri] u =
      Some (case Save store (fb, u) of (None, s) \<Rightarrow> Ret s | (Some e, s) \<Rightarrow> Panic (Panicked e)) \<and>
    fb_Initialized fb \<and>
    (\<forall>n x. 0 \<le> n \<and> n \<le> endBlock \<and> x \<in> fill_hashes logs_at [a] n \<longrightarrow> fb_Test H x fb)"
  by (rule initialbloom_saves [where dial = dial and rpcURL = rpcURL and Reader = Reader and store = store and u = u, OF assms])

text \<open>A node for the witness.\<close>

definition sample_node :: "(int \<Rightarrow> event_log list) \<Rightarrow> 'v node" where
  "sample_node logs_at =
     \<lparr>n_exchange = \<lparr>NewExchange = (\<lambda>a v. None), ZRX_ASSET_DATA = (\<lambda>a v. Inr []), GetAssetProxy = (\<lambda>a p v. Inr zero_address),
        ExchangeCancelled = (\<lambda>a h v. Inr False), ExchangeFilled = (\<lambda>a h v. Inr 0)\<rparr>,
      n_tokens = \<lparr>BalanceOf = (\<lambda>a u v. Inr 0), Allowance = (\<lambda>a u q v. Inr 0), OwnerOf = (\<lambda>a i v. Inr zero_address),
        IsApprovedForAll = (\<lambda>a u q v. Inr False), GetApproved = (\<lambda>a i v. Inr zero_address), NewToken = (\<lambda>a v. None)\<rparr>,
      n_FilterLogs = node_logs logs_at, n_CallContract = (\<lambda>m. ([], None)), n_SyncProgress = (\<lambda>v. None),
      n_NetworkID = (\<lambda>v. None)\<rparr>"

definition sample_fill_log :: event_log where
  "sample_fill_log = \<lparr>l_Address = zero_bytes 20, l_Topics = [hd fb_topics, [], []], l_Data = zero_bytes 31 @ [3]\<rparr>"

definition sample_fills :: "int \<Rightarrow> event_log list" where
  "sample_fills n = (if n = 7 then [sample_fill_log] else [])"

theorem initialbloom_complete_witness:
  "\<exists>fb. initialbloom (\<lambda>b. [1, 2, 3, 4]) (\<lambda>store u. Inl ''no such file'') (\<lambda>store s. (None, s)) 5
      (\<lambda>url. Inr (sample_node sample_fills))
      [''initialbloom'', ''rpc'', ''0'', ''12'', ''0x'' @ hex_encode (zero_bytes 20), ''file://bloom''] () = Some (Ret (fb, ())) \<and>
    fb_Test (\<lambda>b. [1, 2, 3, 4]) (zero_bytes 31 @ [3]) fb"
proof -
  have h: "zero_bytes 31 @ [3] \<in> fill_hashes sample_fills [zero_bytes 20] 7"
    by (auto simp: fill_hashes_def sample_fills_def sample_fill_log_def log_matches_def populate_query_def fb_topics_def)
  have n: "Atoi ''0'' = Inr 0" "Atoi ''12'' = Inr 12"
    by (simp_all add: Atoi_def big_SetString_def dec_parse_nat_def from_dec_char_def)
  have "\<forall>n. list_all (\<lambda>l. 32 \<le> length (l_Data l)) (sample_fills n)"
    by (simp add: sample_fills_def sample_fill_log_def)
  moreover have "GetStoredObject ''file://bloom'' = Ret (Some (FileStorage ''bloom''))"
    by (simp add: GetStoredObject_def has_prefix_def trim_prefix_def)
  ultimately obtain fb where f: "initialbloom (\<lambda>b. [1, 2, 3, 4]) (\<lambda>store u. Inl ''no such file'') (\<lambda>store s. (None, s)) 5
      (\<lambda>url. Inr (sample_node sample_fills))
      [''initialbloom'', ''rpc'', ''0'', ''12'', ''0x'' @ hex_encode (zero_bytes 20), ''file://bloom''] () = Some (Ret (fb, ()))"
    and t: "\<forall>n x. 0 \<le> n \<and> n \<le> 12 \<and> x \<in> fill_hashes sample_fills [zero_bytes 20] n \<longrightarrow> fb_Test (\<lambda>b. [1, 2, 3, 4]) x fb"
    using initialbloom_complete [of "\<lambda>url. Inr (sample_node sample_fills)" "''rpc''" "sample_node sample_fills"
        sample_fills "''0''" 0 "''12''" 12 5 "zero_bytes 20" "''file://bloom''" "FileStorage ''bloom''"
        "\<lambda>store u. Inl ''no such file''" "()" "''no such file''" "\<lambda>b. [1, 2, 3, 4]" "\<lambda>store s. (None, s)" "''initialbloom''"] n
    by (auto simp: sample_node_def)
  have "fb_Test (\<lambda>b. [1, 2, 3, 4]) (zero_bytes 31 @ [3]) fb"
    using t [THEN spec, of 7, THEN spec, of "zero_bytes 31 @ [3]"] h by simp
  with f show ?thesis by blast
qed

end
