(* ===== verification/Services.thy ===== *)
theory Services
  imports Startup Exchanges Workers
begin

text \<open>
  How the other programs of \<open>cmd/\<close> come to run: the relays and filters, which start one consumer for each
  channel string they are given, the recorders of the order table, the splitter, the queue monitor, and the
  settings of the servers; and what the first fill filter means for the orders behind it. As in
  \<open>Startup\<close>, an error value is what a program logs before it ends.
\<close>

section \<open>Channel strings\<close>

text \<open>The programs start their channels one by one: an error ends the process when those before it run
  already.\<close>

fun start_each :: "(string \<Rightarrow> (err + 'r) go) \<Rightarrow> string list \<Rightarrow> ('r list \<times> err option) go" where
  "start_each start [] = Ret ([], None)"
| "start_each start (s # ss) =
     go_bind (start s) (\<lambda>r. case r of
         Inl e \<Rightarrow> Ret ([], Some e)
       | Inr x \<Rightarrow> go_map (\<lambda>(xs, e). (x # xs, e)) (start_each start ss))"

lemma start_each_all:
  "start_each start ss = Ret (xs, None) \<longleftrightarrow> map start ss = map (\<lambda>x. Ret (Inr x)) xs"
proof (induction ss arbitrary: xs)
  case (Cons s ss)
  show ?case
  proof (cases "start s")
    case (Ret r)
    with Cons show ?thesis by (cases r; cases xs) (auto simp: go_simps)
  qed auto
qed auto

lemma start_each_stops:
  assumes "map start ss = map (\<lambda>x. Ret (Inr x)) xs" and "start s = Ret (Inl e)"
  shows "start_each start (ss @ s # rest) = Ret (xs, Some e)"
  using assms(1)
proof (induction ss arbitrary: xs)
  case (Cons s' ss)
  then show ?case using assms(2) by (cases xs) auto
qed (use assms(2) in simp)

text \<open>The arguments from one on: none when there are just so many.\<close>

definition arguments_from :: "nat \<Rightarrow> string list \<Rightarrow> string list go" where
  "arguments_from n args = go_slice args n (length args)"

definition required :: "string \<Rightarrow> string \<Rightarrow> err + unit" where
  "required what s = (if s = [] then Inl (''Please specify '' @ what @ '' URL'') else Inr ())"

lemma required_simps [simp]: "s \<noteq> [] \<Longrightarrow> required what s = Inr ()" "required what [] = Inl (''Please specify '' @ what @ '' URL'')"
  by (simp_all add: required_def)

section \<open>Relays\<close>

text \<open>A running relay: the channel it consumes, the places of its semaphore, and its \<open>Consume\<close>.\<close>

type_synonym 'c running = "channel_kind \<times> nat \<times> 'c"

definition start_relay ::
  "'v redis \<Rightarrow> string \<Rightarrow> ('v publisher list \<Rightarrow> 'c) \<Rightarrow> string \<Rightarrow> (err + 'c running) go"
where
  "start_relay R env consumer channelString =
     go_try (Ret (ParseChannels channelString)) (\<lambda>(source, pubs, alt).
       go_map (\<lambda>slots. Inr (source, slots, consumer (map (publisher_of R) pubs))) (go_make (concurrency_of env)))"

definition simplerelay ::
  "(string \<Rightarrow> 'v redis) \<Rightarrow> ('v \<Rightarrow> 'v) \<Rightarrow> string \<Rightarrow> string list
     \<Rightarrow> (err + ('v delivery \<Rightarrow> 'v \<Rightarrow> 'v) running list \<times> err option) go"
where
  "simplerelay redisAt incr env args =
     go_bind (go_index args 1) (\<lambda>redisURL. go_try (Ret (required ''redis'' redisURL)) (\<lambda>_.
     go_bind (arguments_from 2 args) (\<lambda>channelStrings.
       go_map Inr (start_each (start_relay (redisAt redisURL) env
         (\<lambda>pubs. Relay_Consume pubs (IncludeAll_Filter incr))) channelStrings))))"

text \<open>\<open>cmd/fundcheckrelay\<close>: the validator's parts, whether the filter is inverted, and the relays with their
  publishers; a relay's \<open>Consume\<close> is \<open>fund_relay\<close>.\<close>

definition validator_error :: "err + 'a \<Rightarrow> err + 'a" where
  "validator_error r = map_sum (\<lambda>e. ''Error creating RpcOrderValidator: '' @ quoted_word e) id r"

definition fundcheckrelay ::
  "'v dialer \<Rightarrow> (string \<Rightarrow> 'v redis) \<Rightarrow> string \<Rightarrow> string list \<Rightarrow> 'v
     \<Rightarrow> (err + (('v routing \<times> ('v exchange_rpc \<times> (address \<rightharpoonup> asset_data)) \<times> ('v exchange_rpc \<times> proxy_map)) \<times> channel_kind option) \<times>
           bool \<times> 'v publisher list running list \<times> err option) go"
where
  "fundcheckrelay dial redisAt env args v =
     go_bind (go_index args 1) (\<lambda>redisURL. go_bind (go_index args 2) (\<lambda>rpcURL.
     go_try (Ret (required ''redis'' redisURL)) (\<lambda>_. go_try (Ret (required ''RPC'' rpcURL)) (\<lambda>_.
     go_try (Ret (validator_error (NewRpcFeeToken dial rpcURL v))) (\<lambda>fees.
     go_try (Ret (validator_error (NewRpcTokenProxy dial rpcURL v))) (\<lambda>proxies.
     go_bind (arguments_from 3 args) (\<lambda>rest.
     go_try (Ret (fund_arguments rest (False, [], None))) (\<lambda>(invert, channelStrings, invalidationChannel).
     go_try (Ret (validator_error (NewRpcOrderValidator dial rpcURL fees proxies invalidationChannel v))) (\<lambda>validator.
       go_map (\<lambda>relays. Inr (validator, invert, relays))
         (start_each (start_relay (redisAt redisURL) env (\<lambda>pubs. pubs)) channelStrings))))))))))"

text \<open>\<open>cmd/poolfilter\<close>: the filter has the network id 0, whatever the node answers.\<close>

definition poolfilter ::
  "(string \<Rightarrow> string) \<Rightarrow> 'v dialer \<Rightarrow> (string \<Rightarrow> 'v redis) \<Rightarrow> string \<Rightarrow> string list \<Rightarrow> 'v
     \<Rightarrow> (err + (string \<times> string) \<times> 'v pool_filter \<times> 'v publisher list running list \<times> err option) go"
where
  "poolfilter secret dial redisAt env args v =
     go_bind (go_index args 1) (\<lambda>connection. go_bind (go_index args 2) (\<lambda>password.
     go_try (Ret (fatal ''Could not open database connection: '' (GetDB secret connection password))) (\<lambda>db.
     go_bind (go_index args 3) (\<lambda>redisURL. go_bind (go_index args 4) (\<lambda>rpcURL.
     go_try (Ret (required ''redis'' redisURL)) (\<lambda>_. go_try (Ret (required ''RPC'' rpcURL)) (\<lambda>_.
     go_try (Ret (fatal ''Error connecting to RPC: '' (dial rpcURL))) (\<lambda>conn.
     go_try (Ret (fatal ''Error connecting to RPC: ''
       (case n_NetworkID conn v of Some e \<Rightarrow> Inl e | None \<Rightarrow> Inr ()))) (\<lambda>_.
     go_bind (arguments_from 5 args) (\<lambda>channelStrings.
       go_map (\<lambda>relays. Inr (db, \<lparr>pf_conn = n_CallContract conn, pf_networkID = 0, poolCache = Map.empty\<rparr>, relays))
         (start_each (start_relay (redisAt redisURL) env (\<lambda>pubs. pubs)) channelStrings)))))))))))"

text \<open>\<open>cmd/delayrelay\<close>: the relay of an argument runs when its nil channel of signals is used.\<close>

definition start_delay_relay ::
  "string \<Rightarrow> (err + channel_kind \<times> channel_kind \<times> publisher_kind list \<times> publisher_kind option) go"
where
  "start_delay_relay arg =
     go_try (Ret (delay_argument arg)) (\<lambda>(signals, relay).
       case signals of Inl e \<Rightarrow> Panic NilDereference | Inr signalConsumer \<Rightarrow> Ret (Inr (signalConsumer, relay)))"

definition delayrelay ::
  "string list \<Rightarrow> (err + (channel_kind \<times> channel_kind \<times> publisher_kind list \<times> publisher_kind option) list \<times> err option) go"
where
  "delayrelay args =
     go_bind (go_index args 1) (\<lambda>redisURL. go_try (Ret (required ''redis'' redisURL)) (\<lambda>_.
     go_bind (arguments_from 2 args) (\<lambda>rest. go_map Inr (start_each start_delay_relay rest))))"

section \<open>Orders with what is filled and cancelled\<close>

text \<open>\<open>cmd/canceluptofilter\<close>, over the query of the cancellation rows.\<close>

definition start_cancel_filter ::
  "crypto \<Rightarrow> 'v cancellation_query \<Rightarrow> 'v redis \<Rightarrow> string \<Rightarrow> string
     \<Rightarrow> (err + ('v delivery \<Rightarrow> 'v \<Rightarrow> 'v go) running) go"
where
  "start_cancel_filter C First R env channelString =
     go_try (Ret (ParseChannels channelString)) (\<lambda>(source, pubs, alt).
       go_map (\<lambda>slots. Inr (source, slots,
           CancellationConsumer_Consume C (MultiPublisher_Publish (map (publisher_of R) pubs))
             (map_option (publisher_of R) alt) (db_GetCancelled First)))
         (go_make (concurrency_of env)))"

definition canceluptofilter ::
  "crypto \<Rightarrow> 'v cancellation_query \<Rightarrow> (string \<Rightarrow> string) \<Rightarrow> (string \<Rightarrow> 'v redis) \<Rightarrow> string \<Rightarrow> string list
     \<Rightarrow> (err + (string \<times> string) \<times> ('v delivery \<Rightarrow> 'v \<Rightarrow> 'v go) running list \<times> err option) go"
where
  "canceluptofilter C First secret redisAt env args =
     go_bind (go_index args 1) (\<lambda>redisURL. go_bind (go_index args 2) (\<lambda>connection. go_bind (go_index args 3) (\<lambda>password.
     go_try (Ret (fatal ''Error opening database: '' (GetDB secret connection password))) (\<lambda>db.
     go_try (Ret (required ''redis'' redisURL)) (\<lambda>_.
     go_bind (arguments_from 4 args) (\<lambda>channelStrings.
       go_map (\<lambda>r. Inr (db, r)) (start_each (start_cancel_filter C First (redisAt redisURL) env) channelStrings)))))))"

text \<open>\<open>cmd/fillupdate\<close>: the filter is in the world, where the channel of fills adds to it.\<close>

definition bloom_lookup_Cancelled ::
  "crypto \<Rightarrow> base_hashes \<Rightarrow> (fill_bloom \<times> 'u) exchange_rpc \<Rightarrow> (fill_bloom \<times> 'u) cancelled_fn"
where
  "bloom_lookup_Cancelled C H rpc ord s = rpc_GetCancelled C rpc (lookup_test H (Some (fst s))) ord s"

definition bloom_lookup_Filled ::
  "crypto \<Rightarrow> base_hashes \<Rightarrow> (fill_bloom \<times> 'u) exchange_rpc \<Rightarrow> (fill_bloom \<times> 'u) filled_fn"
where
  "bloom_lookup_Filled C H rpc ord s = rpc_GetAmountFilled C rpc (lookup_test H (Some (fst s))) ord s"

definition start_fill_update ::
  "crypto \<Rightarrow> base_hashes \<Rightarrow> (fill_bloom \<times> 'u) exchange_rpc \<Rightarrow> (fill_bloom \<times> 'u) redis \<Rightarrow> string \<Rightarrow> string
     \<Rightarrow> (err + ((fill_bloom \<times> 'u) delivery \<Rightarrow> fill_bloom \<times> 'u \<Rightarrow> (fill_bloom \<times> 'u) go) running) go"
where
  "start_fill_update C H rpc R env channelString =
     go_try (Ret (ParseChannels channelString)) (\<lambda>(source, pubs, alt).
       go_map (\<lambda>slots. Inr (source, slots,
           FillConsumer_Consume (MultiPublisher_Publish (map (publisher_of R) pubs)) (map_option (publisher_of R) alt)
             (bloom_lookup_Cancelled C H rpc) (bloom_lookup_Filled C H rpc)))
         (go_make (concurrency_of env)))"

definition fillupdate_lookup ::
  "base_hashes \<Rightarrow> (stored_object \<Rightarrow> fill_bloom \<times> 'u \<Rightarrow> stored_bloom) \<Rightarrow> int \<Rightarrow> (fill_bloom \<times> 'u) dialer
     \<Rightarrow> string list \<Rightarrow> 'u \<Rightarrow> (err + string \<times> channel_kind \<times> (fill_bloom \<times> 'u) exchange_rpc \<times> fill_bloom option) go option"
where
  "fillupdate_lookup H Reader chunk dial args u =
     (case go_bind (go_index args 1) (\<lambda>redisURL. go_bind (go_index args 2) (\<lambda>rpcURL. go_bind (go_index args 3) (\<lambda>fillSrc.
           go_bind (go_index args 4) (\<lambda>bloomURI.
           go_try (Ret (required ''redis'' redisURL)) (\<lambda>_. go_try (Ret (required ''RPC'' rpcURL)) (\<lambda>_.
           go_try (Ret (ConsumerFromURI fillSrc)) (\<lambda>fillConsumerChannel.
           go_try (NewFillBloom_at bloomURI) (\<lambda>bloom. Ret (Inr (redisURL, rpcURL, fillConsumerChannel, bloom)))))))))) of
        Panic p \<Rightarrow> Some (Panic p)
      | Ret (Inl e) \<Rightarrow> Some (Ret (Inl e))
      | Ret (Inr (redisURL, rpcURL, fillConsumerChannel, bloom)) \<Rightarrow>
          map_option (go_map (map_sum id (\<lambda>(rpc, fb). (redisURL, fillConsumerChannel, rpc, fb))))
            (NewRPCFilledLookup H Reader chunk dial rpcURL (Some bloom) (fst bloom, u)))"

definition fillupdate ::
  "crypto \<Rightarrow> base_hashes \<Rightarrow> json_parse \<Rightarrow> (stored_object \<Rightarrow> fill_bloom \<times> 'u \<Rightarrow> stored_bloom) \<Rightarrow> int
     \<Rightarrow> (fill_bloom \<times> 'u) dialer \<Rightarrow> (string \<Rightarrow> (fill_bloom \<times> 'u) redis) \<Rightarrow> string \<Rightarrow> string list \<Rightarrow> 'u
     \<Rightarrow> (err + fill_bloom option \<times> (channel_kind \<times> ('u delivery \<Rightarrow> fill_bloom \<times> 'u \<Rightarrow> fill_bloom \<times> 'u)) \<times>
           ((fill_bloom \<times> 'u) delivery \<Rightarrow> fill_bloom \<times> 'u \<Rightarrow> (fill_bloom \<times> 'u) go) running list \<times> err option) go option"
where
  "fillupdate C H parse Reader chunk dial redisAt env args u =
     map_option (\<lambda>r. go_try r (\<lambda>(redisURL, fillConsumerChannel, rpc, fb).
         go_bind (arguments_from 5 args) (\<lambda>channelStrings.
           go_map (\<lambda>relays. Inr (fb, (fillConsumerChannel, fb_Consume H parse), relays))
             (start_each (start_fill_update C H rpc (redisAt redisURL) env) channelStrings))))
       (fillupdate_lookup H Reader chunk dial args u)"

section \<open>Recorders and indexers\<close>

text \<open>The programs that write the order table: redis, the channel, the database; the last argument of the
  definition is the consumer.\<close>

definition recorder_service ::
  "(string \<Rightarrow> string) \<Rightarrow> string \<Rightarrow> string list \<Rightarrow> 'c \<Rightarrow> (err + (string \<times> string) \<times> 'c running) go"
where
  "recorder_service secret env args consumer =
     go_bind (go_index args 1) (\<lambda>redisURL. go_bind (go_index args 2) (\<lambda>srcChannel.
     go_bind (go_index args 3) (\<lambda>connection. go_bind (go_index args 4) (\<lambda>password.
     go_try (Ret (fatal ''Could not open database connection: '' (GetDB secret connection password))) (\<lambda>db.
     go_try (Ret (fatal ''Error establishing consumer channel: '' (ConsumerFromURI srcChannel))) (\<lambda>consumerChannel.
       go_map (\<lambda>slots. Inr (db, consumerChannel, slots, consumer)) (go_make (concurrency_of env))))))))"

text \<open>The consumers are over the tables their services share.\<close>

definition indexer where
  "indexer C quo zero secret env args =
     recorder_service secret env args
       (IndexConsumer_Consume C (index_into C quo zero (index_status (drop 5 args))))"

definition fillindexer where
  "fillindexer C quo parse secret env args =
     recorder_service secret env args (RecordFillConsumer_Consume parse (\<lambda>fr. on_db (RecordFill C quo fr)))"

definition canceluptoindexer where
  "canceluptoindexer parse secret env args =
     recorder_service secret env args
       (db_CancellationConsumer_Consume parse (\<lambda>c. on_db (RecordCancellation StatusCancelled c)))"

definition spendrecorder where
  "spendrecorder parse secret env args =
     recorder_service secret env args
       (RecordSpendConsumer_Consume parse (\<lambda>maker token zrx assetData balance.
          on_db (RecordSpend StatusUnfunded maker token zrx assetData balance)))"

text \<open>The indexer that runs stores orders as open, unless it was started for those without funds.\<close>

lemma indexer_runs:
  "indexer C quo zero secret env [program, redisURL, blocks_uri, connection, password] =
     (case GetDB secret connection password of
        Inl e \<Rightarrow> Ret (Inl (''Could not open database connection: '' @ e))
      | Inr db \<Rightarrow>
          (case ConsumerFromURI blocks_uri of
             Inl e \<Rightarrow> Ret (Inl (''Error establishing consumer channel: '' @ e))
           | Inr ch \<Rightarrow> go_map (\<lambda>slots. Inr (db, ch, slots, IndexConsumer_Consume C (index_into C quo zero StatusOpen)))
               (go_make (concurrency_of env))))"
  by (simp add: indexer_def recorder_service_def go_index_def index_status_def split: sum.splits)

section \<open>The splitter\<close>

definition translate_uri :: "'v redis \<Rightarrow> string \<Rightarrow> err + 'v publisher" where
  "translate_uri R uri = map_sum id (publisher_of R) (PublisherFromURI uri)"

definition exchangesplitter ::
  "(string \<Rightarrow> 'v redis) \<Rightarrow> string \<Rightarrow> string list \<Rightarrow> (err + ('v delivery \<Rightarrow> 'v \<Rightarrow> 'v go) running) go"
where
  "exchangesplitter redisAt env args =
     go_bind (go_index args 1) (\<lambda>redisURL. go_bind (go_index args 2) (\<lambda>source. go_bind (go_index args 3) (\<lambda>suffix.
     go_try (Ret (ConsumerFromURI source)) (\<lambda>consumerChannel.
       go_map (\<lambda>slots. Inr (consumerChannel, slots,
           NewExchangeSplitterConsumer (translate_uri (redisAt redisURL)) suffix)) (go_make (concurrency_of env))))))"

text \<open>The queue of an exchange always has a publisher: the splitter rejects no order for want of one.\<close>

lemma splitter_uri_translates: "translate_uri R (splitter_uri sfx a) = Inr (redisQueuePublisher R (sprintf_hex a @ ''-'' @ sfx))"
  by (simp add: translate_uri_def splitter_uri_def PublisherFromURI_def publisher_of_def has_prefix_def)

section \<open>Servers\<close>

text \<open>What a server is started with: the address of its database, what it needs from redis, and the port.\<close>

definition terms_server :: "(string \<Rightarrow> string) \<Rightarrow> string list \<Rightarrow> (err + (string \<times> string) \<times> string) go" where
  "terms_server secret args =
     go_bind (go_index args 1) (\<lambda>connection. go_bind (go_index args 2) (\<lambda>password.
     go_try (Ret (fatal ''Could not open database connection: '' (GetDB secret connection password))) (\<lambda>db.
     go_map (\<lambda>rest. Inr (db, server_port ''8083'' rest)) (arguments_from 3 args))))"

definition search_server ::
  "(string \<Rightarrow> string) \<Rightarrow> string list \<Rightarrow> (err + (string \<times> string) \<times> string \<times> channel_kind \<times> string) go"
where
  "search_server secret args =
     go_bind (go_index args 1) (\<lambda>redisURL. go_bind (go_index args 2) (\<lambda>blockChannel.
     go_bind (go_index args 3) (\<lambda>connection. go_bind (go_index args 4) (\<lambda>password.
     go_try (Ret (fatal ''Could not open database connection: '' (GetDB secret connection password))) (\<lambda>db.
     go_bind (arguments_from 5 args) (\<lambda>rest.
     go_try (Ret (fatal ''Error establishing block channel: '' (ConsumerFromURI blockChannel))) (\<lambda>blocks.
       Ret (Inr (db, redisURL, blocks, server_port ''8082'' rest)))))))))"

text \<open>\<open>s[2:]\<close> of an address, which panics for a shorter text, and the copy of its bytes.\<close>

definition recipient_bytes :: "string \<Rightarrow> (err + address) go" where
  "recipient_bytes s =
     go_bind (go_slice s 2 (length s)) (\<lambda>digits.
       Ret (try_bind (hex_DecodeString digits) (\<lambda>b. Inr (go_copy zero_address b))))"

record ingest_settings =
  is_db :: "string \<times> string"
  is_redis :: string
  is_recipient :: address
  is_publisher :: publisher_kind
  is_enforceTerms :: bool
  is_port :: string

definition ingest_server :: "(string \<Rightarrow> string) \<Rightarrow> string \<Rightarrow> string list \<Rightarrow> (err + ingest_settings) go" where
  "ingest_server secret termsEnv args =
     go_bind (go_index args 1) (\<lambda>connection. go_bind (go_index args 2) (\<lambda>password.
     go_try (Ret (fatal ''Could not open database connection: '' (GetDB secret connection password))) (\<lambda>db.
     go_bind (go_index args 3) (\<lambda>redisURL. go_bind (go_index args 4) (\<lambda>defaultFeeRecipient.
     go_bind (go_index args 5) (\<lambda>dstChannel.
     let port = (if length args \<ge> 7 then args ! 6 else ''8081'') in
     go_try (Ret (required ''redis'' redisURL)) (\<lambda>_.
     go_try (recipient_bytes defaultFeeRecipient) (\<lambda>recipient.
     go_try (Ret (PublisherFromURI dstChannel)) (\<lambda>pub.
       Ret (Inr \<lparr>is_db = db, is_redis = redisURL, is_recipient = recipient, is_publisher = pub,
                 is_enforceTerms = enforce_terms termsEnv, is_port = port\<rparr>))))))))))"

text \<open>The API panics with the error.\<close>

definition handleError :: "string \<Rightarrow> err + 'a \<Rightarrow> 'a go" where
  "handleError reason r =
     (case r of Inl e \<Rightarrow> Panic (Panicked (''[ERROR] '' @ reason @ '': '' @ e @ ''\<newline>'')) | Inr a \<Rightarrow> Ret a)"

record api_settings =
  as_recipient :: address
  as_db :: "string \<times> string"
  as_redis :: string
  as_blocks :: channel_kind
  as_publisher :: publisher_kind
  as_port :: string

definition api_server :: "(string \<Rightarrow> string) \<Rightarrow> string list \<Rightarrow> api_settings go" where
  "api_server secret args =
     go_bind (go_index args 1) (\<lambda>connection. go_bind (go_index args 2) (\<lambda>password.
     go_bind (go_index args 3) (\<lambda>redisURL. go_bind (go_index args 4) (\<lambda>blockQueue.
     go_bind (go_index args 5) (\<lambda>outputQueue. go_bind (go_index args 6) (\<lambda>serviceFeeRecipient.
     let port = (if length args > 7 then args ! 7 else ''8080'') in
     go_bind (recipient_bytes serviceFeeRecipient) (\<lambda>r.
     go_bind (handleError ''Unable to parse fee recipient address'' r) (\<lambda>recipient.
     go_bind (handleError ''Unable to connect to PostgreSQL DB'' (GetDB secret connection password)) (\<lambda>db.
     go_bind (handleError ''Unable to create listener of the Redis block queue'' (ConsumerFromURI blockQueue)) (\<lambda>blocks.
     go_bind (handleError ''Unable to create publisher to the Redis output queue'' (PublisherFromURI outputQueue)) (\<lambda>pub.
       Ret \<lparr>as_recipient = recipient, as_db = db, as_redis = redisURL, as_blocks = blocks, as_publisher = pub,
            as_port = port\<rparr>)))))))))))"

section \<open>What runs\<close>

text \<open>A recipient is read as the address it is the text of; a text of less than two characters panics.\<close>

lemma recipient_bytes_text: "length a = 20 \<Longrightarrow> recipient_bytes (''0x'' @ hex_encode a) = Ret (Inr a)"
  by (simp add: recipient_bytes_def go_slice_def go_copy_same_length zero_address_def)

lemma recipient_bytes_short: "length s < 2 \<Longrightarrow> recipient_bytes s = Panic IndexOutOfRange"
  by (simp add: recipient_bytes_def go_slice_def)

text \<open>A delay relay whose channel of signals cannot be made panics after its relay was started.\<close>

lemma delayrelay_bad_signals:
  assumes "CHR '','' \<notin> set upstream" "CHR '','' \<notin> set channelString" and "ConsumerFromURI upstream = Inl e"
    and "\<not> has_prefix channelString ''topic://''" "ParseChannels channelString = Inr c" and "redisURL \<noteq> []"
  shows "delayrelay [program, redisURL, upstream @ '','' @ channelString] = Panic NilDereference"
proof -
  have "split_on CHR '','' (upstream @ '','' @ channelString) = [upstream, channelString]"
    using assms(1,2) by (simp add: split_on_append_sep split_on_no_sep)
  then have "delay_argument (upstream @ '','' @ channelString) = Inr (Inl e, c)"
    using assms(3-5) by (simp add: delay_argument_def)
  then show ?thesis
    using assms(6) by (simp add: delayrelay_def arguments_from_def go_index_def go_slice_def start_delay_relay_def)
qed

text \<open>A fill updater whose store has no filter writes into every order that nothing of it is filled, without
  asking the exchange.\<close>

lemma fillupdate_blind:
  assumes "dial rpcURL = Inr conn" and "redisURL \<noteq> []" "rpcURL \<noteq> []" and "ConsumerFromURI fillSrc = Inr ch"
    and "GetStoredObject uri = Ret (Some store)" "Reader store (NewFillBloom, u) = Inl e" and h: "Order_Hash C ord = Ret h"
  shows "\<exists>rpc fb. fillupdate_lookup H Reader chunk dial (program # redisURL # rpcURL # fillSrc # uri # channelStrings) u =
      Some (Ret (Inr (redisURL, ch, rpc, Some fb))) \<and>
    bloom_lookup_Filled C H rpc ord (fb, u') = Ret (zero_uint256, None) \<and>
    bloom_lookup_Cancelled C H rpc ord (fb, u') = Ret (False, None)"
proof -
  let ?s = "NewFillBloom\<lparr>fb_Initialized := True\<rparr>"
  have fb: "NewRPCFilledLookup H Reader chunk dial rpcURL (Some (NewFillBloom, store)) (NewFillBloom, u) =
      Some (Ret (Inr (n_exchange conn, Some ?s)))"
    by (rule filled_lookup_unpopulated) (rule assms(1) assms(6))+
  have "NewFillBloom_at uri = Ret (Inr (NewFillBloom, store))" using assms(5) by (simp add: NewFillBloom_at_def)
  moreover have "go_index (program # redisURL # rpcURL # fillSrc # uri # channelStrings) 1 = Ret redisURL"
    "go_index (program # redisURL # rpcURL # fillSrc # uri # channelStrings) 2 = Ret rpcURL"
    "go_index (program # redisURL # rpcURL # fillSrc # uri # channelStrings) 3 = Ret fillSrc"
    "go_index (program # redisURL # rpcURL # fillSrc # uri # channelStrings) 4 = Ret uri"
    by (simp_all add: go_index_def)
  ultimately have "fillupdate_lookup H Reader chunk dial (program # redisURL # rpcURL # fillSrc # uri # channelStrings) u =
      Some (Ret (Inr (redisURL, ch, n_exchange conn, Some ?s)))"
    using fb assms(2-4) by (simp add: fillupdate_lookup_def)
  moreover have "bloom_lookup_Filled C H (n_exchange conn) ord (?s, u') = Ret (zero_uint256, None)"
    "bloom_lookup_Cancelled C H (n_exchange conn) ord (?s, u') = Ret (False, None)"
    using unpopulated_lookup [OF h] by (simp_all add: bloom_lookup_Filled_def bloom_lookup_Cancelled_def)
  ultimately show ?thesis by blast
qed

section \<open>The queue monitor\<close>

text \<open>One round of \<open>cmd/queuemonitor\<close>: the lengths of the queues, in the order in which Go ranges over the map
  of counts, which it does not specify: \<open>ks\<close>. An error of redis ends the process.\<close>

fun queue_round ::
  "'r redis \<Rightarrow> int \<Rightarrow> nat \<Rightarrow> string list \<Rightarrow> (string \<Rightarrow> int) \<Rightarrow> 'r
     \<Rightarrow> (err + (string \<times> queue_report) list \<times> (string \<Rightarrow> int) \<times> 'r) go"
where
  "queue_round R threshold counter [] counts w = Ret (Inr ([], counts, w))"
| "queue_round R threshold counter (k # ks) counts w =
     (case LLen R k w of (reply, w1) \<Rightarrow>
        (case reply_err reply of
           Some e \<Rightarrow> Ret (Inl e)
         | None \<Rightarrow>
             go_bind (queue_look threshold counter (counts k) (reply_int reply)) (\<lambda>report.
             go_try (queue_round R threshold counter ks (counts(k := reply_int reply)) w1) (\<lambda>(reports, counts', w').
               Ret (Inr ((case report of None \<Rightarrow> [] | Some x \<Rightarrow> [(k, x)]) @ reports, counts', w'))))))"

fun queue_initial :: "'r redis \<Rightarrow> string list \<Rightarrow> (string \<Rightarrow> int) \<Rightarrow> 'r \<Rightarrow> (err + (string \<Rightarrow> int) \<times> 'r)" where
  "queue_initial R [] counts w = Inr (counts, w)"
| "queue_initial R (k # ks) counts w =
     (case LLen R k w of (reply, w1) \<Rightarrow>
        (case reply_err reply of
           Some e \<Rightarrow> Inl e
         | None \<Rightarrow> queue_initial R ks (counts(k := reply_int reply)) w1))"

fun queue_rounds ::
  "'r redis \<Rightarrow> int \<Rightarrow> nat \<Rightarrow> string list list \<Rightarrow> (string \<Rightarrow> int) \<Rightarrow> 'r
     \<Rightarrow> (err + (string \<times> queue_report) list list \<times> (string \<Rightarrow> int) \<times> 'r) go"
where
  "queue_rounds R threshold counter [] counts w = Ret (Inr ([], counts, w))"
| "queue_rounds R threshold counter (ks # rest) counts w =
     go_try (queue_round R threshold counter ks counts w) (\<lambda>(reports, counts1, w1).
     go_try (queue_rounds R threshold (counter + 1) rest counts1 w1) (\<lambda>(more, counts2, w2).
       Ret (Inr (reports # more, counts2, w2))))"

text \<open>The program over the orders of its first rounds.\<close>

definition queuemonitor ::
  "(string \<Rightarrow> 'r redis) \<Rightarrow> string list \<Rightarrow> string list list \<Rightarrow> 'r
     \<Rightarrow> (err + (string \<times> queue_report) list list \<times> (string \<Rightarrow> int) \<times> 'r) go"
where
  "queuemonitor redisAt args orders w =
     go_bind (go_index args 1) (\<lambda>redisURL. go_bind (go_index args 2) (\<lambda>thresh.
     go_try (Ret (Atoi thresh)) (\<lambda>threshold.
     go_bind (arguments_from 3 args) (\<lambda>queues.
     go_try (Ret (queue_initial (redisAt redisURL) (monitored_keys queues) (\<lambda>k. 0) w)) (\<lambda>(counts, w1).
       queue_rounds (redisAt redisURL) threshold 0 orders counts w1)))))"

text \<open>A round leaves the lengths of the queues as the counts, and reports of each queue what \<open>queue_look\<close> says
  of its old and its new length, whatever the order.\<close>

lemma queue_round_reports:
  assumes R: "LLen_ok R view" and t: "threshold \<noteq> 0" and d: "distinct ks"
  shows "\<exists>reports w'. queue_round R threshold counter ks counts w =
      Ret (Inr (reports, \<lambda>k. if k \<in> set ks then int (length (view w k)) else counts k, w')) \<and> view w' = view w \<and>
    (\<forall>k x. (k, x) \<in> set reports \<longleftrightarrow>
       k \<in> set ks \<and> queue_look threshold counter (counts k) (int (length (view w k))) = Ret (Some x))"
  using d
proof (induction ks arbitrary: counts w)
  case (Cons k ks)
  let ?n = "int (length (view w k))"
  obtain w1 where w1: "LLen R k w = (RInt ?n, w1)" "view w1 = view w" using R unfolding LLen_ok_def by blast
  obtain q where q: "queue_look threshold counter (counts k) ?n = Ret q" using t by (auto simp: queue_look_def)
  have "distinct ks" using Cons.prems by simp
  from Cons.IH [OF this, of "counts(k := ?n)" w1] obtain reports w' where
    r: "queue_round R threshold counter ks (counts(k := ?n)) w1 =
      Ret (Inr (reports, \<lambda>j. if j \<in> set ks then int (length (view w1 j)) else (counts(k := ?n)) j, w'))" "view w' = view w1"
    "\<forall>j x. (j, x) \<in> set reports \<longleftrightarrow>
       j \<in> set ks \<and> queue_look threshold counter ((counts(k := ?n)) j) (int (length (view w1 j))) = Ret (Some x)"
    by blast
  have c: "(\<lambda>j. if j \<in> set ks then int (length (view w j)) else (counts(k := ?n)) j) =
      (\<lambda>j. if j \<in> set (k # ks) then int (length (view w j)) else counts j)" by auto
  have e: "queue_round R threshold counter (k # ks) counts w =
      Ret (Inr ((case q of None \<Rightarrow> [] | Some x \<Rightarrow> [(k, x)]) @ reports,
        \<lambda>j. if j \<in> set (k # ks) then int (length (view w j)) else counts j, w'))"
    using w1(1) q r(1) [unfolded w1(2)] unfolding c [symmetric] by (simp add: reply_err_def reply_int_def)
  have "k \<notin> set ks" using Cons.prems by simp
  then have "\<forall>j x. (j, x) \<in> set ((case q of None \<Rightarrow> [] | Some x \<Rightarrow> [(k, x)]) @ reports) \<longleftrightarrow>
      j \<in> set (k # ks) \<and> queue_look threshold counter (counts j) (int (length (view w j))) = Ret (Some x)"
    using q w1(2) r(3) by (auto split: option.splits)
  with e r(2) w1(2) show ?case by auto
qed simp

text \<open>A threshold of 0 ends the monitor with its first look at a queue.\<close>

lemma queue_round_threshold_0: "LLen_ok R view \<Longrightarrow> queue_round R 0 counter (k # ks) counts w = Panic DivisionByZero"
proof -
  assume "LLen_ok R view"
  then obtain w1 where "LLen R k w = (RInt (int (length (view w k))), w1)" unfolding LLen_ok_def by blast
  then show ?thesis by (simp add: queue_look_def reply_err_def)
qed

section \<open>From the first filter to the orders\<close>

lemma bloom_lookup_tested:
  assumes "Order_Hash C ord = Ret h" and "fb_Test H h (fst s)" and "fb_Initialized (fst s)"
  shows "bloom_lookup_Filled C H rpc ord s = rpc_GetAmountFilled C rpc None ord s"
    "bloom_lookup_Cancelled C H rpc ord s = rpc_GetCancelled C rpc None ord s"
  using assms by (simp_all add: bloom_lookup_Filled_def bloom_lookup_Cancelled_def lookup_test_def
      rpc_GetAmountFilled_def rpc_GetCancelled_def)

lemma fb_Consume_keeps:
  "fb_Test H x (fst s) \<Longrightarrow> fb_Test H x (fst (fb_Consume H parse msg s))"
  "fb_Initialized (fst (fb_Consume H parse msg s)) = fb_Initialized (fst s)"
  by (auto simp: fb_Consume_def fb_Test_def fb_Add_def bloom.test_mono split: prod.splits sum.splits)

lemma fb_Consume_all_keeps:
  "fb_Test H x (fst s) \<Longrightarrow> fb_Test H x (fst (fold (fb_Consume H parse) msgs s))"
  "fb_Initialized (fst (fold (fb_Consume H parse) msgs s)) = fb_Initialized (fst s)"
  by (induction msgs arbitrary: s) (auto simp: fb_Consume_keeps)

lemma NewRPCFilledLookup_loads:
  assumes "dial rpcURL = Inr conn" and "Reader store v = Inr (Inr b)"
  shows "NewRPCFilledLookup H Reader chunk dial rpcURL (Some (fb, store)) v =
    Some (Ret (Inr (n_exchange conn, Some (fb\<lparr>fb_b := b, fb_Initialized := True\<rparr>))))"
  using assms by (simp add: NewRPCFilledLookup_def fb_Initialize_def)

text \<open>C29: once \<open>cmd/initialbloom\<close> has saved its filter, a fill updater that is started on the same store, and
  has consumed any messages of its channel of fills since, asks the exchange about every order that a
  fill or cancel event up to the last block names: the filter never hides such an event from it.\<close>

theorem fills_reach_updater:
  assumes store: "store_keeps S" "GetStoredObject uri = Ret (Some store)" "fs_Reader S store u = Inl missing"
    and node: "dial rpcURL = Inr conn" "n_FilterLogs conn = node_logs logs_at"
    and numbers: "Atoi start_text = Inr startBlock" "Atoi end_text = Inr endBlock"
    and blocks: "0 < chunk" "0 < endBlock" "endBlock + chunk < 2 ^ 63"
    and data: "\<forall>n. list_all (\<lambda>l. 32 \<le> length (l_Data l)) (logs_at n)"
    and exchange: "length a = 20"
    and saved: "initialbloom H (fs_Reader S) (fb_Save S) chunk dial
        [program, rpcURL, start_text, end_text, ''0x'' @ hex_encode a, uri] u = Some (Ret (fb, u'))"
    and updater: "redisURL \<noteq> []" "rpcURL \<noteq> []" "ConsumerFromURI fillSrc = Inr ch"
    and event: "Order_Hash C ord = Ret h" "h \<in> fill_hashes logs_at [a] n" "0 \<le> n" "n \<le> endBlock"
  shows "\<exists>fb'. fillupdate_lookup H (\<lambda>k s. fs_Reader S k (snd s)) chunk' dial
        (program' # redisURL # rpcURL # fillSrc # uri # channelStrings) u' =
      Some (Ret (Inr (redisURL, ch, n_exchange conn, Some fb'))) \<and>
    (let s = fold (fb_Consume H parse) msgs (fb', u'') in
     bloom_lookup_Filled C H (n_exchange conn) ord s = rpc_GetAmountFilled C (n_exchange conn) None ord s \<and>
     bloom_lookup_Cancelled C H (n_exchange conn) ord s = rpc_GetCancelled C (n_exchange conn) None ord s)"
proof -
  obtain fb0 where i: "initialbloom H (fs_Reader S) (fb_Save S) chunk dial
        [program, rpcURL, start_text, end_text, ''0x'' @ hex_encode a, uri] u =
      Some (case fb_Save S store (fb0, u) of (None, s) \<Rightarrow> Ret s | (Some e, s) \<Rightarrow> Panic (Panicked e))"
    and t0: "\<forall>n x. 0 \<le> n \<and> n \<le> endBlock \<and> x \<in> fill_hashes logs_at [a] n \<longrightarrow> fb_Test H x fb0"
    using initialbloom_saves [where dial = dial and rpcURL = rpcURL and Reader = "fs_Reader S" and store = store and u = u
        and H = H and Save = "fb_Save S" and program = program, OF node numbers blocks data exchange store(2,3)] by blast
  from i saved have "(case fb_Save S store (fb0, u) of (None, s) \<Rightarrow> Ret s | (Some e, s) \<Rightarrow> Panic (Panicked e)) = Ret (fb, u')"
    by simp
  then have "fb_Save S store (fb0, u) = (None, fb, u')" by (auto split: prod.splits option.splits)
  moreover have "fb_Test H h fb0" using t0 event(2-4) by blast
  ultimately have fb0: "fb_Save S store (fb0, u) = (None, fb, u')" "fb_Test H h fb0" by simp_all
  from fb_Save_read [OF store(1) fb0(1)] have read: "fs_Reader S store u' = Inr (Inr (fb_b fb0))" by blast
  let ?fb = "NewFillBloom\<lparr>fb_b := fb_b fb0, fb_Initialized := True\<rparr>"
  have "NewRPCFilledLookup H (\<lambda>k s. fs_Reader S k (snd s)) chunk' dial rpcURL (Some (NewFillBloom, store)) (NewFillBloom, u') =
      Some (Ret (Inr (n_exchange conn, Some ?fb)))"
    by (rule NewRPCFilledLookup_loads) (simp_all add: node(1) read)
  moreover have "NewFillBloom_at uri = Ret (Inr (NewFillBloom, store))" using store(2) by (simp add: NewFillBloom_at_def)
  moreover have "go_index (program' # redisURL # rpcURL # fillSrc # uri # channelStrings) 1 = Ret redisURL"
    "go_index (program' # redisURL # rpcURL # fillSrc # uri # channelStrings) 2 = Ret rpcURL"
    "go_index (program' # redisURL # rpcURL # fillSrc # uri # channelStrings) 3 = Ret fillSrc"
    "go_index (program' # redisURL # rpcURL # fillSrc # uri # channelStrings) 4 = Ret uri"
    by (simp_all add: go_index_def)
  ultimately have l: "fillupdate_lookup H (\<lambda>k s. fs_Reader S k (snd s)) chunk' dial
        (program' # redisURL # rpcURL # fillSrc # uri # channelStrings) u' =
      Some (Ret (Inr (redisURL, ch, n_exchange conn, Some ?fb)))"
    using updater by (simp add: fillupdate_lookup_def)
  have "fb_Test H h ?fb" using fb0(2) by (simp add: fb_Test_def)
  then have t: "fb_Test H h (fst (fold (fb_Consume H parse) msgs (?fb, u'')))"
    "fb_Initialized (fst (fold (fb_Consume H parse) msgs (?fb, u'')))"
    by (simp_all add: fb_Consume_all_keeps)
  with l show ?thesis by (intro exI [of _ ?fb]) (simp add: bloom_lookup_tested [OF event(1)] Let_def)
qed

text \<open>A store that holds at most one filter, and a log that fills the sample order.\<close>

definition one_filter :: "(stored_object, bloom_filter option) filter_store" where
  "one_filter =
     \<lparr>fs_Reader = (\<lambda>k u. case u of None \<Rightarrow> Inl ''no such file'' | Some b \<Rightarrow> Inr (Inr b)), fs_Writer = (\<lambda>k u. (None, u)),
      fs_WriteTo = (\<lambda>k b u. (None, Some b)), fs_Close = (\<lambda>k u. (None, u))\<rparr>"

definition sample_hash_of :: bytes where
  "sample_hash_of = (case Order_Hash sample_crypto sample_signed_order of Ret h \<Rightarrow> h | Panic p \<Rightarrow> [])"

definition order_fills :: "int \<Rightarrow> event_log list" where
  "order_fills n = (if n = 7 then [\<lparr>l_Address = zero_bytes 20, l_Topics = [hd fb_topics, [], []], l_Data = sample_hash_of\<rparr>] else [])"

lemma sample_hash_of: "Order_Hash sample_crypto sample_signed_order = Ret sample_hash_of" "length sample_hash_of = 32"
  using Order_Hash_wf [OF wf_sample_signed_order, of sample_crypto] sample_keccak_length
  by (simp_all add: sample_hash_of_def)

lemma order_fills_hash: "sample_hash_of \<in> fill_hashes order_fills [zero_bytes 20] 7"
  by (auto simp: fill_hashes_def order_fills_def log_matches_def populate_query_def fb_topics_def sample_hash_of)

theorem fills_reach_updater_witness:
  "\<exists>fb u' fb'. initialbloom (\<lambda>b. [1, 2, 3, 4]) (fs_Reader one_filter) (fb_Save one_filter) 5 (\<lambda>url. Inr (sample_node order_fills))
      [''initialbloom'', ''rpc'', ''0'', ''12'', ''0x'' @ hex_encode (zero_bytes 20), ''file://bloom''] None = Some (Ret (fb, u')) \<and>
    fillupdate_lookup (\<lambda>b. [1, 2, 3, 4]) (\<lambda>k s. fs_Reader one_filter k (snd s)) 5 (\<lambda>url. Inr (sample_node order_fills))
      [''fillupdate'', ''redis'', ''rpc'', ''queue://fills'', ''file://bloom''] u' =
      Some (Ret (Inr (''redis'', QueueChannel (NewQueueConsumerChannel ''fills''), n_exchange (sample_node order_fills), Some fb'))) \<and>
    bloom_lookup_Filled sample_crypto (\<lambda>b. [1, 2, 3, 4]) (n_exchange (sample_node order_fills)) sample_signed_order (fb', None :: bloom_filter option) =
      rpc_GetAmountFilled sample_crypto (n_exchange (sample_node order_fills)) None sample_signed_order (fb', None :: bloom_filter option)"
proof -
  let ?node = "sample_node order_fills :: (fill_bloom \<times> bloom_filter option) node"
  have keeps: "store_keeps one_filter" by (auto simp: store_keeps_def one_filter_def)
  have stored: "GetStoredObject ''file://bloom'' = Ret (Some (FileStorage ''bloom''))"
    by (simp add: GetStoredObject_def has_prefix_def trim_prefix_def)
  have empty: "fs_Reader one_filter (FileStorage ''bloom'') None = Inl ''no such file''" by (simp add: one_filter_def)
  have logs: "n_FilterLogs ?node = node_logs order_fills" by (simp add: sample_node_def)
  have nums: "Atoi ''0'' = Inr 0" "Atoi ''12'' = Inr 12"
    by (simp_all add: Atoi_def big_SetString_def dec_parse_nat_def from_dec_char_def)
  have data: "\<forall>n. list_all (\<lambda>l. 32 \<le> length (l_Data l)) (order_fills n)" by (simp add: order_fills_def sample_hash_of)
  have ch: "ConsumerFromURI ''queue://fills'' = Inr (QueueChannel (NewQueueConsumerChannel ''fills''))"
    by (simp add: ConsumerFromURI_def has_prefix_def)
  obtain fb u' where saved: "initialbloom (\<lambda>b. [1, 2, 3, 4]) (fs_Reader one_filter) (fb_Save one_filter) 5 (\<lambda>url. Inr ?node)
      [''initialbloom'', ''rpc'', ''0'', ''12'', ''0x'' @ hex_encode (zero_bytes 20), ''file://bloom''] None = Some (Ret (fb, u'))"
    using initialbloom_saves [where dial = "\<lambda>url. Inr ?node" and conn = ?node and rpcURL = "''rpc''" and logs_at = order_fills
        and start_text = "''0''" and startBlock = 0 and end_text = "''12''" and endBlock = 12 and chunk = 5 and a = "zero_bytes 20"
        and uri = "''file://bloom''" and store = "FileStorage ''bloom''" and Reader = "fs_Reader one_filter" and u = None
        and missing = "''no such file''" and H = "\<lambda>b. [1, 2, 3, 4]" and Save = "fb_Save one_filter" and program = "''initialbloom''"]
      logs nums data stored empty by (fastforce simp: fb_Save_def one_filter_def)
  have "\<exists>fb'. fillupdate_lookup (\<lambda>b. [1, 2, 3, 4]) (\<lambda>k s. fs_Reader one_filter k (snd s)) 5 (\<lambda>url. Inr ?node)
      [''fillupdate'', ''redis'', ''rpc'', ''queue://fills'', ''file://bloom''] u' =
      Some (Ret (Inr (''redis'', QueueChannel (NewQueueConsumerChannel ''fills''), n_exchange ?node, Some fb'))) \<and>
    (let s = fold (fb_Consume (\<lambda>b. [1, 2, 3, 4]) (\<lambda>p. Inr JNull)) [] (fb', None) in
     bloom_lookup_Filled sample_crypto (\<lambda>b. [1, 2, 3, 4]) (n_exchange ?node) sample_signed_order s =
       rpc_GetAmountFilled sample_crypto (n_exchange ?node) None sample_signed_order s \<and>
     bloom_lookup_Cancelled sample_crypto (\<lambda>b. [1, 2, 3, 4]) (n_exchange ?node) sample_signed_order s =
       rpc_GetCancelled sample_crypto (n_exchange ?node) None sample_signed_order s)"
    by (rule fills_reach_updater [where rpcURL = "''rpc''" and a = "zero_bytes 20" and n = 7 and logs_at = order_fills and u = None,
          OF keeps stored empty _ logs nums _ _ _ data _ saved _ _ ch sample_hash_of(1) order_fills_hash]) simp_all
  with saved show ?thesis by (auto simp: Let_def)
qed

end
