(* ===== verification/Spec2Isabelle.thy ===== *)
theory Spec2Isabelle
  imports Relays Monitors ApiListings TermsApi BlockHash Commands Migration MockChannels FillRaces Startup Services
begin

text \<open>
  The order relay of this repository: Go services that accept signed 0x orders, pass them on over redis
  queues, check them against the chain, keep them in a table and answer searches over it.

  \<^bold>\<open>How the services work together.\<close> \<open>ingest\<close> (or the standard relayer API, \<open>api\<close>) checks a posted order
  and publishes its RLP bytes. Consumers take it from queue to queue: \<open>splitter\<close> to the queue of its
  exchange, \<open>funds\<close> attaches what is filled and cancelled, the fund check and pool relays filter it,
  \<open>db\<close> indexes it. The block monitor (\<open>monitor/blocks\<close>) publishes the chain's blocks; the other
  monitors read the event logs of a block and publish fills, cancellations and spends, which recorders
  apply to the order table. \<open>search\<close> and \<open>api\<close> answer from that table. Every arrow is a channel
  (\<open>channels\<close>): a queue of messages that are acknowledged, rejected or returned.

  \<^bold>\<open>Foundations.\<close>
  \<^item> \<open>Prelude\<close>: the outcome of a call that may panic (\<open>go\<close>), results with an error (\<open>err + 'a\<close>), slices,
    \<open>copy\<close>, big-endian numbers. \<open>GoText\<close>, \<open>Json\<close>, \<open>Http\<close>: what the code uses of Go's text, JSON and HTTP
    packages. A JSON text is its parsed value; parser and printer are arguments.
  \<^item> \<open>Orders\<close>, \<open>Rlp\<close>, \<open>OrderRlp\<close>, \<open>Signatures\<close> (\<open>types/\<close> and the vendored \<open>rlp\<close>): the order with its
    string, JSON and RLP forms, hash and signature. Lemmas: every form reads back what was written; what
    is decoded is well-formed; the hash binds the signed fields; \<open>Verify\<close> accepts exactly the signatures of
    the address.

  \<^bold>\<open>Messages.\<close>
  \<^item> \<open>Channels\<close> (\<open>channels/publisher.go\<close>, \<open>delivery.go\<close>, \<open>queue_consumer.go\<close>, \<open>urls.go\<close>, \<open>cmd/cmdutils\<close>): the
    redis commands of a queue; any interleaving of operations conserves its messages.
  \<^item> \<open>Deliveries\<close>: consumers observed by the trace of what they publish and settle; locale
    \<open>settling_consumer\<close>. \<open>Relays\<close> (\<open>relay.go\<close>, \<open>delay_relay.go\<close>): filters, and the delay relay as a step
    relation with its safety and progress. \<open>Workers\<close> (\<open>queue_consumer.go\<close>, \<open>relay.go\<close>, \<open>Semaphore\<close>): the
    goroutines of a consumer in any interleaving; each message is relayed once, all of them in the end,
    and in order when the semaphore has one slot. \<open>MockChannels\<close> (\<open>topic_consumer.go\<close>, \<open>mock_channel.go\<close>): locale
    \<open>message_store\<close>, the conservation of messages, interpreted on the redis queue and on the mock.

  \<^bold>\<open>The chain.\<close>
  \<^item> \<open>RingBuffer\<close>, \<open>Blocks\<close> (\<open>monitor/blocks\<close>): the ring buffer refines the list of the last blocks (locale
    \<open>block_history\<close>), and a round of the monitor publishes one new block whose parent it knows.
  \<^item> \<open>EventLogs\<close>, \<open>FillBloom\<close>, \<open>Monitors\<close> (\<open>monitor/\<close>, \<open>fillbloom\<close>, the vendored bloom filters): bloom
    filters have no false negatives (locales \<open>approximate_set\<close>, \<open>log_monitor\<close>), so a monitor misses no log
    of a block; what it publishes for each. \<open>BlockHash\<close> (\<open>blockhash\<close>): the latest hash, asked and told in
    any order.
  \<^item> \<open>Balances\<close>, \<open>FundChecks\<close>, \<open>FundConsumers\<close> (\<open>funds/\<close>): balances behind a cache (locale
    \<open>balance_lookup\<close>: the cache is not seen), what remains of an order, whether its maker can fill it, and
    the consumers. \<open>Config\<close> (\<open>config\<close>, \<open>common\<close>, \<open>accounts\<close>, \<open>affiliates\<close>): settings and fee shares.

  \<^bold>\<open>The tables.\<close>
  \<^item> \<open>OrderIndex\<close>, \<open>IndexConsumers\<close> (\<open>db/order.go\<close>, \<open>indexer.go\<close>, \<open>cancellations.go\<close>, the consumers of \<open>db/\<close>):
    rows, \<open>Populate\<close>, \<open>Save\<close>, the recorders. \<open>index_invariant\<close> holds of every table the writers can reach.
  \<^item> \<open>FillRaces\<close> (\<open>db/record_fill_consumer.go\<close>): fills recorded at the same time; they are serial unless two
    of one order overlap, and then one is lost.
  \<^item> \<open>Exchanges\<close>, \<open>Assets\<close>, \<open>Terms\<close>, \<open>Migration\<close> (\<open>db/exchange.go\<close>, \<open>asset*.go\<close>, \<open>terms.go\<close>, \<open>cmd/automigrate\<close>,
    \<open>splitter\<close>): the other tables and their first rows.

  \<^bold>\<open>The services.\<close>
  \<^item> \<open>Pools\<close>, \<open>Ingest\<close> (\<open>pool/\<close>, \<open>ingest/\<close>): pools with their fees and filter contracts; an order is published
    exactly when it is admissible. \<open>ZeroEx\<close> (\<open>zeroex\<close>): the data of the relayer API and its JSON.
    \<open>ApiOrders\<close>, \<open>ApiListings\<close> (\<open>api/handlers\<close>, \<open>cmd/api\<close>): posting agrees with
    \<open>ingest\<close>; pairs, recipients, single orders, routes.
  \<^item> \<open>Queries\<close>, \<open>SearchApi\<close>, \<open>Listings\<close> (\<open>search/\<close>, \<open>db/pairs.go\<close>, \<open>cmd/searchapi\<close>): SQL conditions as
    predicates of rows; a page of exactly the orders that match. \<open>TermsApi\<close> (\<open>terms/\<close>): signing the terms.
  \<^item> \<open>Commands\<close> (\<open>cmd/\<close>, \<open>db/getDB.go\<close>, \<open>objectstorage\<close>): the fund check relay, the check of
    one order and what the programs decide from their arguments. \<open>Startup\<close> (the constructors that dial a
    node, \<open>cmd/*monitor\<close>, \<open>cmd/initialbloom\<close>) and \<open>Services\<close> (the relays, recorders and servers of \<open>cmd/\<close>):
    what a program started with its arguments runs, or the error it ends with; the first fill filter hides no
    fill from the updater that loads it.
  \<^item> This theory: the way of a cancellation from a log of the chain through monitor, queue and recorder to
    the order table.

  \<^bold>\<open>Conventions.\<close> Strings and byte slices are lists; a nil array pointer is the empty list, and using it is the
  panic \<open>NilDereference\<close>; a \<open>big.Int\<close> is an integer, written as bytes where the code does; \<open>uint64\<close> and \<open>int\<close>
  wrap where a product can (\<open>mul64\<close>, \<open>int64_of\<close>). \<open>log.Fatalf\<close> in a consumer is \<open>Fatal\<close>, in a program an
  error. Consumers work on any world with their publishers and delivery; theorems are about the trace.
  A handler's goroutines are run in the order they are started. Times are arguments, in nanoseconds.

  \<^bold>\<open>Loops and bounds.\<close> Loops over data are structural or have a measure; the RLP list loop gets the length of its
  input as fuel, which each item shortens. Three loops need not end and are partial functions: populating the
  fill filter (it ends: \<open>initialbloom_complete\<close>), drawing a hash mask (\<open>mask_loop_ends\<close> says when) and searching a
  nonce. The monitor's endless loop is its rounds.

  \<^bold>\<open>Arguments of the model.\<close> Keccak, key recovery and murmur hashes (\<open>crypto\<close>, \<open>base_hashes\<close>); redis (its
  commands' documented effects are \<open>redis_lists_ok\<close> and \<open>redis_kv_ok\<close>); the store of the fill filter
  (\<open>store_keeps\<close>: what is written is read back); the token, exchange and filter
  contracts; a node's \<open>FilterLogs\<close> and headers; JSON parsing and printing; floating point quotients; URL
  encoding; file, environment and parameter stores.

  \<^bold>\<open>Not modelled.\<close> The contract bindings that abigen wrote (\<open>token/\<close>, \<open>exchangecontract/\<close>): their contracts are
  arguments. Dialling a server and waiting for the signal that stops a program; \<open>aws\<close> and the transfer of
  stored objects. \<open>cmd/poolmgr\<close>, which does not compile. The timers and reconnects around a consumer;
  created and updated times of rows; the bytes in which the fill filter is stored; logging.
\<close>

section \<open>Cancellations, from the chain to the order table\<close>

text \<open>The recorder of cancellations on the messages of a queue.\<close>

definition record_cancellations ::
  "json_parse \<Rightarrow> string list \<Rightarrow> trace \<times> cancellation_row list \<times> 'f orders_table
     \<Rightarrow> (trace \<times> cancellation_row list \<times> 'f orders_table) go"
where
  "record_cancellations parse =
     go_fold (\<lambda>p. db_CancellationConsumer_Consume parse (\<lambda>c. on_db (RecordCancellation StatusCancelled c)) (db_delivery p))"

definition cancels :: "event_log \<Rightarrow> 'f db_order \<Rightarrow> bool" where
  "cancels l row \<longleftrightarrow> Maker (types_Order row) = drop 12 (l_Topics l ! 1) \<and>
     SenderAddress (types_Order row) = drop 12 (l_Topics l ! 2) \<and>
     be_nat (Salt (types_Order row)) < be_nat (l_Data l)"

definition after_cancels :: "event_log list \<Rightarrow> 'f db_order \<Rightarrow> 'f db_order" where
  "after_cancels ls row =
     (if Status row = StatusOpen \<and> (\<exists>l \<in> set ls. cancels l row) then row\<lparr>Status := StatusCancelled\<rparr> else row)"

lemma after_cancels_Nil: "after_cancels [] = id"
  by (simp add: after_cancels_def fun_eq_iff)

lemma after_cancels_Cons: "after_cancels ls (after_cancels [l] row) = after_cancels (l # ls) row"
  by (auto simp: after_cancels_def cancels_def StatusCancelled_def StatusOpen_def)

lemma cancel_row_wf:
  assumes "l \<in> set (cancel_events a n logs)" and "\<forall>l \<in> set logs. \<forall>x \<in> set (l_Topics l). length x = 32"
  shows "length (cr_Maker (cancel_row l)) = 20" "length (cr_Sender (cancel_row l)) = 20"
    "length (cr_Epoch (cancel_row l)) = 32"
proof -
  have l: "3 \<le> length (l_Topics l)" "\<forall>x \<in> set (l_Topics l). length x = 32" "length (l_Data l) = 32"
    using assms cancel_query_topics by (auto simp: cancel_events_def)
  then have "length (l_Topics l ! i) = 32" if "i < 3" for i using that by (simp add: order_less_le_trans)
  from this [of 1] this [of 2] l(3)
  show "length (cr_Maker (cancel_row l)) = 20" "length (cr_Sender (cancel_row l)) = 20"
    "length (cr_Epoch (cancel_row l)) = 32" by (simp_all add: cancel_row_def)
qed

lemma record_cancellation_of_log:
  assumes json: "parse (enc (json_of_cancellation (cancel_row l))) = Inr (json_of_cancellation (cancel_row l))"
    and ok: "table_ok C orders"
    and c: "length (cr_Maker (cancel_row l)) = 20" "length (cr_Sender (cancel_row l)) = 20"
      "length (cr_Epoch (cancel_row l)) = 32"
  obtains cs' where "record_cancellations parse [enc (json_of_cancellation (cancel_row l))] (t, cs, orders) =
      Ret (t @ [Acked], cs', map (after_cancels [l]) orders)" "table_ok C (map (after_cancels [l]) orders)"
proof -
  have e: "map (after_cancels [l]) orders = map (\<lambda>row. if Status row = StatusOpen \<and> Maker (types_Order row) = cr_Maker (cancel_row l) \<and>
           SenderAddress (types_Order row) = cr_Sender (cancel_row l) \<and>
           be_nat (Salt (types_Order row)) < be_nat (cr_Epoch (cancel_row l))
        then row\<lparr>Status := StatusCancelled\<rparr> else row) orders"
    by (simp add: after_cancels_def cancels_def cancel_row_def)
  obtain cs' where r: "RecordCancellation StatusCancelled (cancel_row l) (cs, orders) = Ret (None, cs', map (after_cancels [l]) orders)"
    using RecordCancellation_effect [OF c ok] unfolding e by blast
  then have "record_cancellations parse [enc (json_of_cancellation (cancel_row l))] (t, cs, orders) =
      Ret (t @ [Acked], cs', map (after_cancels [l]) orders)"
    by (simp add: record_cancellations_def db_CancellationConsumer_Consume_def json
        cancellation_json_roundtrip [OF c] on_db_def settle_def)
  moreover have "map (after_cancels [l]) orders =
      snd (update_where (\<lambda>row. Status row = StatusOpen \<and> cancels l row) (\<lambda>row. row\<lparr>Status := StatusCancelled\<rparr>) orders)"
    by (simp add: update_where_def after_cancels_def)
  then have "table_ok C (map (after_cancels [l]) orders)"
    using set_status_ok [OF ok, of StatusCancelled] by (simp add: StatusCancelled_def StatusOpen_def)
  ultimately show thesis by (rule that)
qed

lemma record_cancellations_of_logs:
  assumes "table_ok C orders" and "\<forall>l \<in> set ls.
      parse (enc (json_of_cancellation (cancel_row l))) = Inr (json_of_cancellation (cancel_row l)) \<and> length (cr_Maker (cancel_row l)) = 20 \<and> length (cr_Sender (cancel_row l)) = 20 \<and>
      length (cr_Epoch (cancel_row l)) = 32"
  shows "\<exists>cs'. record_cancellations parse (map (\<lambda>l. enc (json_of_cancellation (cancel_row l))) ls) (t, cs, orders) =
    Ret (t @ replicate (length ls) Acked, cs', map (after_cancels ls) orders)"
  using assms
proof (induction ls arbitrary: t cs orders)
  case Nil
  then show ?case by (simp add: record_cancellations_def after_cancels_Nil)
next
  case (Cons l ls)
  obtain cs' where s: "record_cancellations parse [enc (json_of_cancellation (cancel_row l))] (t, cs, orders) =
      Ret (t @ [Acked], cs', map (after_cancels [l]) orders)" "table_ok C (map (after_cancels [l]) orders)"
    using record_cancellation_of_log [where enc = enc, OF _ Cons.prems(1), of parse l t cs] Cons.prems(2) by auto
  have "record_cancellations parse (map (\<lambda>l. enc (json_of_cancellation (cancel_row l))) (l # ls)) (t, cs, orders) =
      record_cancellations parse (map (\<lambda>l. enc (json_of_cancellation (cancel_row l))) ls)
        (t @ [Acked], cs', map (after_cancels [l]) orders)"
    using s(1) by (simp add: record_cancellations_def go_simps)
  moreover have "map (after_cancels ls) (map (after_cancels [l]) orders) = map (after_cancels (l # ls)) orders"
    by (simp add: after_cancels_Cons)
  ultimately show ?case using Cons.IH [OF s(2), of "t @ [Acked]" cs'] Cons.prems(2)
    by (simp del: map_map list.simps(9))
qed


definition sample_cancel_log :: event_log where
  "sample_cancel_log =
     \<lparr>l_Address = replicate 20 1,
      l_Topics = [BigToHash cancelUpToTopic, zero_bytes 12 @ sample_signer, zero_bytes 32],
      l_Data = zero_bytes 31 @ [6]\<rparr>"

definition sample_exchange :: int where "sample_exchange = int (be_nat (replicate 20 1))"

lemma sample_exchange_bytes:
  "big_Bytes sample_exchange = replicate 20 1" "BigToAddress sample_exchange = replicate 20 1"
  using be_bytes_be_nat [of "replicate 20 (1 :: byte)"]
  by (simp_all add: sample_exchange_def big_Bytes_full BigToAddress_def)

lemma sample_cancel_event: "cancel_events sample_exchange None [sample_cancel_log] = [sample_cancel_log]"
  by (simp add: cancel_events_def cancel_query_def log_matches_def sample_cancel_log_def sample_exchange_bytes)

lemma sample_cancel_topics: "\<forall>x \<in> set (l_Topics sample_cancel_log). length x = 32"
  by (simp add: sample_cancel_log_def sample_signer_def BigToHash_def)


end
